theory Spec2Isabelle
  imports
    Complex_Main
    "HOL-Library.Sublist"
    "HOL-Library.Char_ord"
    "HOL-Library.List_Lexorder"
    "HOL-Library.AList"
    "HOL-Library.Multiset"
begin

section \<open>Strings and paths\<close>

text \<open>
  Python strings are modelled as \<^typ>\<open>string\<close>. The order on characters is the order of
  their codes and the order on strings is lexicographic, as Python compares \<^verbatim>\<open>str\<close>.

  \<^verbatim>\<open>sub in s\<close> is the test for a contiguous occurrence.
\<close>

fun contains :: "string \<Rightarrow> string \<Rightarrow> bool" where
  "contains sub [] = (sub = [])"
| "contains sub (c # cs) = (prefix sub (c # cs) \<or> contains sub cs)"

text \<open>
  \<^verbatim>\<open>str.lower()\<close> on the ASCII letters. No character outside ASCII lowers to one of
  \<^verbatim>\<open>l\<close>, \<^verbatim>\<open>a\<close>, \<^verbatim>\<open>s\<close>, \<^verbatim>\<open>t\<close>, so the test for \<^verbatim>\<open>"last"\<close> below is not affected by
  leaving the other characters unchanged.
\<close>

definition lower_char :: "char \<Rightarrow> char" where
  "lower_char c =
     (case map_of (zip ''ABCDEFGHIJKLMNOPQRSTUVWXYZ'' ''abcdefghijklmnopqrstuvwxyz'') c of
        Some d \<Rightarrow> d
      | None \<Rightarrow> c)"

definition lower :: "string \<Rightarrow> string" where
  "lower s = map lower_char s"

text \<open>
  \<^verbatim>\<open>str.strip()\<close>: leading and trailing whitespace removed. Of the characters of
  \<^typ>\<open>char\<close>, \<^verbatim>\<open>str.isspace\<close> holds of the space, of U+0009 to U+000D, of the separators
  U+001C to U+001F, of U+0085 and of U+00A0.
\<close>

definition is_space :: "char \<Rightarrow> bool" where
  "is_space c =
     (c \<in> set [CHR '' '', CHR 0x09, CHR 0x0A, CHR 0x0B, CHR 0x0C, CHR 0x0D,
                CHR 0x1C, CHR 0x1D, CHR 0x1E, CHR 0x1F, CHR 0x85, CHR 0xA0])"

definition strip :: "string \<Rightarrow> string" where
  "strip s = rev (dropWhile is_space (rev (dropWhile is_space s)))"

text \<open>
  A \<^verbatim>\<open>pathlib.Path\<close> is the list of its components; the scripts resolve every configured
  path to an absolute one, so the root is left implicit. Paths compare as their component
  lists do.
\<close>

type_synonym path = "string list"

definition path_name :: "path \<Rightarrow> string" where
  "path_name p = (if p = [] then [] else last p)"

definition parent :: "path \<Rightarrow> path" where
  "parent p = butlast p"

text \<open>
  \<^verbatim>\<open>name.rfind('.')\<close>; \<^verbatim>\<open>suffix\<close> and \<^verbatim>\<open>stem\<close> split the name at the last dot when that
  dot is neither the first nor the last character.
\<close>

definition rfind_dot :: "string \<Rightarrow> nat option" where
  "rfind_dot s =
     (if CHR ''.'' \<in> set s
      then Some (length s - 1 - length (takeWhile (\<lambda>c. c \<noteq> CHR ''.'') (rev s)))
      else None)"

definition suffix_of :: "path \<Rightarrow> string" where
  "suffix_of p =
     (case rfind_dot (path_name p) of
        None \<Rightarrow> []
      | Some i \<Rightarrow> if 0 < i \<and> i < length (path_name p) - 1 then drop i (path_name p) else [])"

definition stem :: "path \<Rightarrow> string" where
  "stem p =
     (case rfind_dot (path_name p) of
        None \<Rightarrow> path_name p
      | Some i \<Rightarrow> if 0 < i \<and> i < length (path_name p) - 1 then take i (path_name p) else path_name p)"

text \<open>\<^verbatim>\<open>p.suffix.lower() in {".png", ".jpg", ".jpeg"}\<close>\<close>

definition image_suffix :: "path \<Rightarrow> bool" where
  "image_suffix p = (lower (suffix_of p) \<in> set [''.png'', ''.jpg'', ''.jpeg''])"

section \<open>Exceptions\<close>

datatype exn =
    ValueError string
  | KeyError string
  | TypeError
  | RuntimeError string
  | EnvironmentError
  | OSError string
  | AttributeError
  | ProviderError string

section \<open>Reference frames (\<^verbatim>\<open>veo_video_batch.pick_reference_frames\<close>)\<close>

definition has_0000 :: "path \<Rightarrow> bool" where
  "has_0000 c = contains ''0000'' (stem c)"

definition has_0008_or_last :: "path \<Rightarrow> bool" where
  "has_0008_or_last c = (contains ''0008'' (stem c) \<or> contains ''last'' (lower (stem c)))"

text \<open>
  The two \<^verbatim>\<open>for ... break\<close> loops are searches for the first match, forwards and in
  \<^verbatim>\<open>reversed(frames)\<close>. The returned tuple is
  \<^verbatim>\<open>(first, (last if len(frames) > 1 else first))\<close>; its second component is annotated
  \<^verbatim>\<open>Optional[Path]\<close> but is never \<^verbatim>\<open>None\<close>.
\<close>

definition pick_reference_frames :: "path list \<Rightarrow> exn + (path \<times> path)" where
  "pick_reference_frames frames =
     (if frames = [] then Inl (ValueError ''No frames provided'')
      else
        let first = (case find has_0000 frames of Some c \<Rightarrow> c | None \<Rightarrow> hd frames);
            lst = (case find has_0008_or_last (rev frames) of Some c \<Rightarrow> c | None \<Rightarrow> last frames)
        in Inr (first, if 1 < length frames then lst else first))"

section \<open>The file system, time and the log of a run\<close>

text \<open>
  The file system is a finite table from paths to nodes, a regular file with its content
  or a directory. The order of the table stands for the order in which the operating
  system lists entries, which the scripts do not control. The root directory always
  exists. Symbolic links and permissions are not modelled.
\<close>

type_synonym bytes = string

datatype node = File bytes | Dir

text \<open>
  The log records, most recent first, the effects of a run that the properties below
  speak about: a provider call for an image edit (\<open>Call\<close>), \<^verbatim>\<open>time.sleep(d)\<close>
  (\<open>Sleep d\<close>), the reading of a prompt document (\<open>Load p\<close>), the submission of a video
  job (\<open>Submit\<close>), one status query (\<open>Poll\<close>), one download (\<open>Fetch\<close>) and a call of
  \<^verbatim>\<open>pick_reference_frames\<close> on \<open>n\<close> frames (\<open>Pick n\<close>).
\<close>

datatype event = Call | Sleep real | Load path | Submit | Poll | Fetch | Pick nat

record world =
  nodes :: "(path \<times> node) list"
  log :: "event list"

definition node_at :: "world \<Rightarrow> path \<Rightarrow> node option" where
  "node_at w p = (if p = [] then Some Dir else map_of (nodes w) p)"

definition path_exists :: "world \<Rightarrow> path \<Rightarrow> bool" where
  "path_exists w p = (node_at w p \<noteq> None)"

definition is_dir :: "world \<Rightarrow> path \<Rightarrow> bool" where
  "is_dir w p = (node_at w p = Some Dir)"

definition is_file :: "world \<Rightarrow> path \<Rightarrow> bool" where
  "is_file w p = (case node_at w p of Some (File b) \<Rightarrow> True | _ \<Rightarrow> False)"

definition read_bytes :: "world \<Rightarrow> path \<Rightarrow> exn + bytes" where
  "read_bytes w p =
     (case node_at w p of
        Some (File b) \<Rightarrow> Inr b
      | Some Dir \<Rightarrow> Inl (OSError ''IsADirectoryError'')
      | None \<Rightarrow> Inl (OSError ''FileNotFoundError''))"

text \<open>
  Writing a file creates or replaces it; it fails on a directory and where the parent
  directory is missing.
\<close>

definition write_bytes :: "path \<Rightarrow> bytes \<Rightarrow> world \<Rightarrow> (exn + unit) \<times> world" where
  "write_bytes p b w =
     (if is_dir w p then (Inl (OSError ''IsADirectoryError''), w)
      else if \<not> is_dir w (parent p) then (Inl (OSError ''FileNotFoundError''), w)
      else (Inr (), w\<lparr>nodes := AList.update p (File b) (nodes w)\<rparr>))"

text \<open>
  \<^verbatim>\<open>mkdir(parents=True, exist_ok=True)\<close>: every missing ancestor and the directory itself
  are created; when the path or one of its ancestors is a regular file the call raises and
  creates nothing.
\<close>

definition add_dir :: "path \<Rightarrow> (path \<times> node) list \<Rightarrow> (path \<times> node) list" where
  "add_dir q ns = (if q = [] \<or> map_of ns q \<noteq> None then ns else ns @ [(q, Dir)])"

definition mkdir_p :: "path \<Rightarrow> world \<Rightarrow> (exn + unit) \<times> world" where
  "mkdir_p d w =
     (if list_ex (is_file w) (prefixes d) then (Inl (OSError ''FileExistsError''), w)
      else (Inr (), w\<lparr>nodes := fold add_dir (prefixes d) (nodes w)\<rparr>))"

text \<open>\<^verbatim>\<open>root.rglob("*")\<close>: every entry below \<open>r\<close>, in the order of the table.\<close>

definition rglob :: "world \<Rightarrow> path \<Rightarrow> path list" where
  "rglob w r = filter (strict_prefix r) (map fst (nodes w))"

text \<open>\<^verbatim>\<open>folder.iterdir()\<close>: the entries directly inside \<open>folder\<close>; it raises on anything
  but a directory.\<close>

definition iterdir :: "world \<Rightarrow> path \<Rightarrow> exn + path list" where
  "iterdir w d =
     (if is_dir w d then Inr (filter (\<lambda>p. p \<noteq> [] \<and> parent p = d) (map fst (nodes w)))
      else if path_exists w d then Inl (OSError ''NotADirectoryError'')
      else Inl (OSError ''FileNotFoundError''))"

text \<open>\<^verbatim>\<open>time.sleep\<close> raises on a negative duration.\<close>

definition sleep :: "real \<Rightarrow> world \<Rightarrow> (exn + unit) \<times> world" where
  "sleep d w =
     (if d < 0 then (Inl (ValueError ''sleep length must be non-negative''), w)
      else (Inr (), w\<lparr>log := Sleep d # log w\<rparr>))"

definition ncalls :: "event list \<Rightarrow> nat" where
  "ncalls l = length (filter (\<lambda>e. e = Call) l)"

definition npolls :: "event list \<Rightarrow> nat" where
  "npolls l = length (filter (\<lambda>e. e = Poll) l)"

definition nsubmits :: "event list \<Rightarrow> nat" where
  "nsubmits l = length (filter (\<lambda>e. e = Submit) l)"

definition nloads :: "path \<Rightarrow> event list \<Rightarrow> nat" where
  "nloads p l = length (filter (\<lambda>e. e = Load p) l)"

text \<open>
  Time between provider calls, read from the log: a call takes no time in the model and
  \<^verbatim>\<open>time.sleep(d)\<close> takes \<open>d\<close> seconds, so the sum of the sleeps between two calls is a lower
  bound of the time between their starts. \<open>since_call l\<close> is the time slept since the most
  recent call (\<open>None\<close> before the first call); \<open>spaced d l\<close> says that every call but the first
  started at least \<open>d\<close> seconds after the call before it; \<open>span l\<close> is the time slept
  between the first and the most recent call.
\<close>

fun since_call :: "event list \<Rightarrow> real option" where
  "since_call [] = None"
| "since_call (Call # l) = Some 0"
| "since_call (Sleep d # l) = map_option (\<lambda>a. a + d) (since_call l)"
| "since_call (e # l) = since_call l"

fun spaced :: "real \<Rightarrow> event list \<Rightarrow> bool" where
  "spaced d [] = True"
| "spaced d (Call # l) = ((case since_call l of None \<Rightarrow> True | Some a \<Rightarrow> d \<le> a) \<and> spaced d l)"
| "spaced d (e # l) = spaced d l"

text \<open>\<open>ready d l\<close>: the calls so far are spaced and a call may start now.\<close>

definition ready :: "real \<Rightarrow> event list \<Rightarrow> bool" where
  "ready d l = (spaced d l \<and> (case since_call l of None \<Rightarrow> True | Some a \<Rightarrow> d \<le> a))"

fun since_first_call :: "event list \<Rightarrow> real option" where
  "since_first_call [] = None"
| "since_first_call (e # l) =
     (case since_first_call l of
        Some a \<Rightarrow> Some (a + (case e of Sleep d \<Rightarrow> d | _ \<Rightarrow> 0))
      | None \<Rightarrow> if e = Call then Some 0 else None)"

definition span :: "event list \<Rightarrow> real" where
  "span l =
     (case (since_first_call l, since_call l) of
        (Some a, Some b) \<Rightarrow> a - b
      | _ \<Rightarrow> 0)"

text \<open>
  \<^verbatim>\<open>Path(value)\<close> splits a string at the slashes and drops empty and \<^verbatim>\<open>.\<close> components;
  \<^verbatim>\<open>base / value\<close> is \<open>value\<close> itself when that is absolute; \<^verbatim>\<open>resolve()\<close> removes
  \<^verbatim>\<open>..\<close> components (the base directory is taken to be absolute).
\<close>

fun split_on :: "char \<Rightarrow> string \<Rightarrow> string list" where
  "split_on c [] = [[]]"
| "split_on c (x # xs) =
     (if x = c then [] # split_on c xs
      else (case split_on c xs of [] \<Rightarrow> [[x]] | y # ys \<Rightarrow> (x # y) # ys))"

definition is_absolute :: "string \<Rightarrow> bool" where
  "is_absolute s = prefix ''/'' s"

definition path_parts :: "string \<Rightarrow> path" where
  "path_parts s = filter (\<lambda>t. t \<noteq> [] \<and> t \<noteq> ''.'') (split_on CHR ''/'' s)"

definition joinpath :: "path \<Rightarrow> string \<Rightarrow> path" where
  "joinpath base s = (if is_absolute s then path_parts s else base @ path_parts s)"

text \<open>A string that is one path component: not empty, without a slash, neither \<^verbatim>\<open>.\<close> nor
  \<^verbatim>\<open>..\<close>.\<close>

definition plain :: "string \<Rightarrow> bool" where
  "plain s = (s \<noteq> [] \<and> CHR ''/'' \<notin> set s \<and> s \<noteq> ''.'' \<and> s \<noteq> ''..'')"

definition resolve :: "path \<Rightarrow> path" where
  "resolve p = foldl (\<lambda>acc c. if c = ''..'' then butlast acc else acc @ [c]) [] p"

section \<open>Configuration documents\<close>

text \<open>
  The value that \<^verbatim>\<open>yaml.safe_load\<close> returns. A mapping is the list of its entries;
  \<^verbatim>\<open>d.get(k, default)\<close> and \<^verbatim>\<open>d[k]\<close> look the key up.
\<close>

datatype yaml =
    YNull
  | YBool bool
  | YInt int
  | YFloat real
  | YStr string
  | YList "yaml list"
  | YMap "(string \<times> yaml) list"

definition yget :: "(string \<times> yaml) list \<Rightarrow> string \<Rightarrow> yaml \<Rightarrow> yaml" where
  "yget m k d = (case map_of m k of Some v \<Rightarrow> v | None \<Rightarrow> d)"

definition yitem :: "(string \<times> yaml) list \<Rightarrow> string \<Rightarrow> exn + yaml" where
  "yitem m k = (case map_of m k of Some v \<Rightarrow> Inr v | None \<Rightarrow> Inl (KeyError k))"

text \<open>Python's truth value of a document value.\<close>

fun truthy :: "yaml \<Rightarrow> bool" where
  "truthy YNull = False"
| "truthy (YBool b) = b"
| "truthy (YInt i) = (i \<noteq> 0)"
| "truthy (YFloat x) = (x \<noteq> 0)"
| "truthy (YStr s) = (s \<noteq> [])"
| "truthy (YList l) = (l \<noteq> [])"
| "truthy (YMap m) = (m \<noteq> [])"

text \<open>
  What lies outside the scripts: the environment variable \<^verbatim>\<open>GEMINI_API_KEY\<close>, the YAML
  parser, Python's reading of a number written as a string, and the provider. The
  provider's answer may depend on how many requests of the same kind were made before,
  so that a provider failing on some attempts and succeeding on others is an \<open>env\<close>.
\<close>

record edit_request =
  req_model :: yaml
  req_prompt :: string
  req_image :: bytes
  req_creativity :: real
  req_fidelity :: real
  req_width :: int
  req_height :: int

record video =
  video_bytes :: "bytes option"
  uri :: "string option"

text \<open>
  A video operation: \<open>op_result\<close> is the list \<^verbatim>\<open>operation.result.generated_videos\<close>
  (\<open>None\<close> when the result or the list is missing), each entry the \<^verbatim>\<open>.video\<close> of a
  generated video.
\<close>

record operation =
  op_name :: string
  op_done :: bool
  op_error :: "(string \<times> string) list option"
  op_result :: "video option list option"

record video_request =
  vreq_model :: yaml
  vreq_prompt :: string
  vreq_image :: "bytes option"
  vreq_duration :: int
  vreq_aspect_ratio :: yaml
  vreq_resolution :: yaml
  vreq_negative_prompt :: "string option"
  vreq_last_frame :: "bytes option"
  vreq_reference :: "(bytes \<times> string) option"

record env =
  api_key_env :: "string option"
  yaml_load :: "bytes \<Rightarrow> exn + yaml"
  str_float :: "string \<Rightarrow> real option"
  str_int :: "string \<Rightarrow> int option"
  reference_types :: "string list"
  edit :: "nat \<Rightarrow> edit_request \<Rightarrow> exn + bytes"
  generate_videos :: "nat \<Rightarrow> video_request \<Rightarrow> exn + operation"
  operations_get :: "nat \<Rightarrow> operation \<Rightarrow> exn + operation"
  requests_get :: "string \<Rightarrow> string \<Rightarrow> exn + bytes"

text \<open>\<^verbatim>\<open>float(x)\<close> and \<^verbatim>\<open>int(x)\<close> on a document value; \<^verbatim>\<open>int\<close> truncates towards zero.\<close>

fun py_float :: "env \<Rightarrow> yaml \<Rightarrow> exn + real" where
  "py_float E (YInt i) = Inr (real_of_int i)"
| "py_float E (YFloat x) = Inr x"
| "py_float E (YBool b) = Inr (if b then 1 else 0)"
| "py_float E (YStr s) =
     (case str_float E s of Some x \<Rightarrow> Inr x | None \<Rightarrow> Inl (ValueError ''could not convert string to float''))"
| "py_float E v = Inl TypeError"

fun py_int :: "env \<Rightarrow> yaml \<Rightarrow> exn + int" where
  "py_int E (YInt i) = Inr i"
| "py_int E (YFloat x) = Inr (if 0 \<le> x then \<lfloor>x\<rfloor> else \<lceil>x\<rceil>)"
| "py_int E (YBool b) = Inr (if b then 1 else 0)"
| "py_int E (YStr s) =
     (case str_int E s of Some i \<Rightarrow> Inr i | None \<Rightarrow> Inl (ValueError ''invalid literal for int()''))"
| "py_int E v = Inl TypeError"

text \<open>\<^verbatim>\<open>_resolve_path(base, value)\<close> and \<^verbatim>\<open>resolve_relative(base, value)\<close>.\<close>

fun resolve_path :: "path \<Rightarrow> yaml \<Rightarrow> exn + path" where
  "resolve_path base (YStr s) =
     Inr (if is_absolute s then path_parts s else resolve (base @ path_parts s))"
| "resolve_path base v = Inl TypeError"

text \<open>\<^verbatim>\<open>yaml.safe_load\<close> on the file at a path.\<close>

definition load_yaml :: "env \<Rightarrow> world \<Rightarrow> path \<Rightarrow> exn + yaml" where
  "load_yaml E w p = (case read_bytes w p of Inl e \<Rightarrow> Inl e | Inr b \<Rightarrow> yaml_load E b)"

text \<open>Sequencing of steps that may raise, without and with the world.\<close>

definition ebind :: "exn + 'a \<Rightarrow> ('a \<Rightarrow> exn + 'b) \<Rightarrow> exn + 'b" where
  "ebind x f = (case x of Inl e \<Rightarrow> Inl e | Inr v \<Rightarrow> f v)"

definition sbind ::
  "(exn + 'a) \<times> world \<Rightarrow> ('a \<Rightarrow> world \<Rightarrow> (exn + 'b) \<times> world) \<Rightarrow> (exn + 'b) \<times> world" where
  "sbind x f = (case x of (Inl e, w) \<Rightarrow> (Inl e, w) | (Inr v, w) \<Rightarrow> f v w)"

section \<open>The image pipeline (\<^verbatim>\<open>gemini_weather_pipeline.py\<close>)\<close>

record VariantConfig =
  name :: string
  prompt_path :: path
  creativity :: real
  fidelity :: real

record PromptTemplate =
  positive :: string
  negative :: string

record PipelineConfig =
  input_root :: path
  output_root :: path
  api_key_path :: "path option"
  model_name :: yaml
  output_width :: int
  output_height :: int
  variants :: "VariantConfig list"

text \<open>
  One round of the loop over \<^verbatim>\<open>data.get("variants", [])\<close> in \<^verbatim>\<open>load_config\<close>. The name
  of a variant has to be a string: the model rejects any other value here, the scripts
  at the first path they build from it.
\<close>

definition load_variant :: "env \<Rightarrow> path \<Rightarrow> yaml \<Rightarrow> exn + VariantConfig" where
  "load_variant E cfg_dir item =
     (case item of
        YMap m \<Rightarrow>
          ebind (yitem m ''name'') (\<lambda>n.
          ebind (yitem m ''prompt_file'') (\<lambda>pf.
          ebind (resolve_path cfg_dir pf) (\<lambda>pp.
          ebind (py_float E (yget m ''creativity'' (YFloat (2 / 10)))) (\<lambda>c.
          ebind (py_float E (yget m ''fidelity'' (YFloat (7 / 10)))) (\<lambda>f.
            (case n of
               YStr nm \<Rightarrow> Inr \<lparr>name = nm, prompt_path = pp, creativity = c, fidelity = f\<rparr>
             | _ \<Rightarrow> Inl TypeError))))))
      | _ \<Rightarrow> Inl TypeError)"

text \<open>What a \<^verbatim>\<open>for\<close> loop iterates over: the items of a list, the keys of a mapping, the
  characters of a string.\<close>

fun items_of :: "yaml \<Rightarrow> exn + yaml list" where
  "items_of (YList l) = Inr l"
| "items_of (YMap m) = Inr (map (\<lambda>kv. YStr (fst kv)) m)"
| "items_of (YStr s) = Inr (map (\<lambda>c. YStr [c]) s)"
| "items_of v = Inl TypeError"

fun load_variants :: "env \<Rightarrow> path \<Rightarrow> yaml list \<Rightarrow> exn + VariantConfig list" where
  "load_variants E cfg_dir [] = Inr []"
| "load_variants E cfg_dir (item # items) =
     (case load_variant E cfg_dir item of
        Inl e \<Rightarrow> Inl e
      | Inr v \<Rightarrow>
          (case load_variants E cfg_dir items of Inl e \<Rightarrow> Inl e | Inr vs \<Rightarrow> Inr (v # vs)))"

text \<open>\<^verbatim>\<open>api_key_path\<close> is resolved when the document gives a true value for it.\<close>

definition optional_path :: "path \<Rightarrow> yaml \<Rightarrow> exn + path option" where
  "optional_path cfg_dir v =
     (if truthy v then ebind (resolve_path cfg_dir v) (\<lambda>p. Inr (Some p)) else Inr None)"

definition load_config :: "env \<Rightarrow> world \<Rightarrow> path \<Rightarrow> exn + PipelineConfig" where
  "load_config E w p =
     ebind (load_yaml E w p) (\<lambda>data.
       case data of
         YMap m \<Rightarrow>
           ebind (items_of (yget m ''variants'' (YList []))) (\<lambda>items.
           ebind (load_variants E (parent p) items) (\<lambda>vs.
           ebind (yitem m ''input_root'') (\<lambda>ir.
           ebind (resolve_path (parent p) ir) (\<lambda>inp.
           ebind (yitem m ''output_root'') (\<lambda>or.
           ebind (resolve_path (parent p) or) (\<lambda>out.
           ebind (optional_path (parent p) (yget m ''api_key_path'' YNull)) (\<lambda>key.
           ebind (py_int E (yget m ''output_width'' (YInt 1024))) (\<lambda>width.
           ebind (py_int E (yget m ''output_height'' (YInt 1024))) (\<lambda>height.
             Inr \<lparr>input_root = inp, output_root = out, api_key_path = key,
                  model_name = yget m ''model_name'' (YStr ''gemini-2.5-flash-image''),
                  output_width = width, output_height = height, variants = vs\<rparr>)))))))))
       | _ \<Rightarrow> Inl AttributeError)"

text \<open>
  \<^verbatim>\<open>load_prompt_template\<close>: the read is logged; both fields have to be present and to
  be strings.
\<close>

definition str_field :: "(string \<times> yaml) list \<Rightarrow> string \<Rightarrow> exn + string" where
  "str_field m k =
     ebind (yitem m k) (\<lambda>v. case v of YStr s \<Rightarrow> Inr (strip s) | _ \<Rightarrow> Inl AttributeError)"

definition load_prompt_template ::
  "env \<Rightarrow> path \<Rightarrow> world \<Rightarrow> (exn + PromptTemplate) \<times> world" where
  "load_prompt_template E p w =
     (ebind (load_yaml E w p) (\<lambda>data.
        case data of
          YMap m \<Rightarrow>
            ebind (str_field m ''positive'') (\<lambda>pos.
            ebind (str_field m ''negative'') (\<lambda>neg.
              Inr \<lparr>positive = pos, negative = neg\<rparr>))
        | _ \<Rightarrow> Inl TypeError),
      w\<lparr>log := Load p # log w\<rparr>)"

definition build_prompt :: "PromptTemplate \<Rightarrow> string" where
  "build_prompt template =
     positive template @ [CHR 0x0A] @ ''Negative prompt: '' @ negative template"

definition DEFAULT_RATE_LIMIT_QPS :: real where
  "DEFAULT_RATE_LIMIT_QPS = 1 / 2"

definition MAX_RETRIES :: nat where
  "MAX_RETRIES = 3"

text \<open>\<^verbatim>\<open>delay = 1.0 / max(rate_limit_qps, 1e-6)\<close>, over the reals.\<close>

definition delay_of :: "real \<Rightarrow> real" where
  "delay_of rate_limit_qps = 1 / max rate_limit_qps (1 / 10 ^ 6)"

text \<open>
  The API key: the environment variable, else the stripped content of the key file when
  one is configured and exists; an empty key raises.
\<close>

definition resolve_api_key :: "env \<Rightarrow> path option \<Rightarrow> world \<Rightarrow> exn + string" where
  "resolve_api_key E key_path w =
     (let api_key = (case api_key_env E of Some k \<Rightarrow> k | None \<Rightarrow> [])
      in ebind
           (if api_key = [] \<and> (case key_path of Some p \<Rightarrow> path_exists w p | None \<Rightarrow> False)
            then ebind (read_bytes w (the key_path)) (\<lambda>b. Inr (strip b))
            else Inr api_key)
           (\<lambda>k. if k = [] then Inl EnvironmentError else Inr k))"

text \<open>
  \<^verbatim>\<open>call_gemini_edit\<close>, from the request to the PNG bytes it returns or the exception it
  raises, is the provider call: the answer to the \<open>k\<close>-th call is \<open>edit E k\<close>.
\<close>

definition call_gemini_edit :: "env \<Rightarrow> edit_request \<Rightarrow> world \<Rightarrow> (exn + bytes) \<times> world" where
  "call_gemini_edit E req w = (edit E (ncalls (log w)) req, w\<lparr>log := Call # log w\<rparr>)"

text \<open>
  The retry loop \<^verbatim>\<open>for attempt in range(1, MAX_RETRIES + 1)\<close>. The \<^verbatim>\<open>try\<close> block is the
  provider call followed by the write of the result; on success the loop is left, on an
  exception the last attempt re-raises it and any other attempt sleeps
  \<^verbatim>\<open>delay * attempt\<close>.
\<close>

fun attempts ::
  "env \<Rightarrow> edit_request \<Rightarrow> path \<Rightarrow> real \<Rightarrow> nat list \<Rightarrow> world \<Rightarrow> (exn + unit) \<times> world" where
  "attempts E req out_path delay [] w = (Inr (), w)"
| "attempts E req out_path delay (attempt # rest) w =
     (case sbind (call_gemini_edit E req w) (write_bytes out_path) of
        (Inr u, w1) \<Rightarrow> (Inr (), w1)
      | (Inl exc, w1) \<Rightarrow>
          if attempt = MAX_RETRIES then (Inl exc, w1)
          else (case sleep (delay * real attempt) w1 of
                  (Inl e, w2) \<Rightarrow> (Inl e, w2)
                | (Inr u, w2) \<Rightarrow> attempts E req out_path delay rest w2))"

text \<open>\<^verbatim>\<open>img_path.relative_to(cfg.input_root)\<close>\<close>

definition relative_to :: "path \<Rightarrow> path \<Rightarrow> exn + path" where
  "relative_to p base =
     (if prefix base p then Inr (drop (length base) p)
      else Inl (ValueError ''not in the subpath''))"

text \<open>
  \<^verbatim>\<open>out_dir = cfg.output_root / variant.name / relative.parent\<close> and
  \<^verbatim>\<open>out_path = out_dir / (relative.stem + "_" + variant.name + ".png")\<close>
\<close>

definition out_dir :: "PipelineConfig \<Rightarrow> VariantConfig \<Rightarrow> path \<Rightarrow> path" where
  "out_dir cfg variant relative = joinpath (output_root cfg) (name variant) @ parent relative"

definition out_path :: "PipelineConfig \<Rightarrow> VariantConfig \<Rightarrow> path \<Rightarrow> path" where
  "out_path cfg variant relative =
     joinpath (out_dir cfg variant relative) (stem relative @ ''_'' @ name variant @ ''.png'')"

text \<open>The body of the loop over the images, for one image.\<close>

definition process_image ::
  "env \<Rightarrow> PipelineConfig \<Rightarrow> real \<Rightarrow> VariantConfig \<Rightarrow> string \<Rightarrow> path \<Rightarrow> world
     \<Rightarrow> (exn + unit) \<times> world" where
  "process_image E cfg delay variant prompt img_path w =
     (case relative_to img_path (input_root cfg) of
        Inl e \<Rightarrow> (Inl e, w)
      | Inr relative \<Rightarrow>
          sbind (mkdir_p (out_dir cfg variant relative) w) (\<lambda>u w1.
            if path_exists w1 (out_path cfg variant relative) then (Inr (), w1)
            else
              (case read_bytes w1 img_path of
                 Inl e \<Rightarrow> (Inl e, w1)
               | Inr image_bytes \<Rightarrow>
                   sbind
                     (attempts E
                        \<lparr>req_model = model_name cfg, req_prompt = prompt,
                         req_image = image_bytes, req_creativity = creativity variant,
                         req_fidelity = fidelity variant, req_width = output_width cfg,
                         req_height = output_height cfg\<rparr>
                        (out_path cfg variant relative) delay [1..<MAX_RETRIES + 1] w1)
                     (\<lambda>u. sleep delay))))"

text \<open>
  \<^verbatim>\<open>for img_path in iter_images(cfg.input_root)\<close>: the generator sorts the listing once,
  when the loop starts, and tests each path when the loop reaches it.
\<close>

fun images_loop ::
  "env \<Rightarrow> PipelineConfig \<Rightarrow> real \<Rightarrow> VariantConfig \<Rightarrow> string \<Rightarrow> path list \<Rightarrow> world
     \<Rightarrow> (exn + unit) \<times> world" where
  "images_loop E cfg delay variant prompt [] w = (Inr (), w)"
| "images_loop E cfg delay variant prompt (p # ps) w =
     (if is_file w p \<and> image_suffix p
      then (case process_image E cfg delay variant prompt p w of
              (Inl e, w1) \<Rightarrow> (Inl e, w1)
            | (Inr u, w1) \<Rightarrow> images_loop E cfg delay variant prompt ps w1)
      else images_loop E cfg delay variant prompt ps w)"

definition iter_images :: "world \<Rightarrow> path \<Rightarrow> path list" where
  "iter_images w r = filter (\<lambda>p. is_file w p \<and> image_suffix p) (sort (rglob w r))"

text \<open>The prompt of a variant, through the cache \<^verbatim>\<open>prompt_cache\<close>.\<close>

definition get_template ::
  "env \<Rightarrow> (path \<rightharpoonup> PromptTemplate) \<Rightarrow> path \<Rightarrow> world
     \<Rightarrow> (exn + PromptTemplate \<times> (path \<rightharpoonup> PromptTemplate)) \<times> world" where
  "get_template E prompt_cache p w =
     (case prompt_cache p of
        Some template \<Rightarrow> (Inr (template, prompt_cache), w)
      | None \<Rightarrow>
          sbind (load_prompt_template E p w) (\<lambda>template w1.
            (Inr (template, prompt_cache(p \<mapsto> template)), w1)))"

fun variants_loop ::
  "env \<Rightarrow> PipelineConfig \<Rightarrow> real \<Rightarrow> VariantConfig list \<Rightarrow> (path \<rightharpoonup> PromptTemplate) \<Rightarrow> world
     \<Rightarrow> (exn + unit) \<times> world" where
  "variants_loop E cfg delay [] prompt_cache w = (Inr (), w)"
| "variants_loop E cfg delay (variant # rest) prompt_cache w =
     (case get_template E prompt_cache (prompt_path variant) w of
        (Inl e, w1) \<Rightarrow> (Inl e, w1)
      | (Inr (template, cache1), w1) \<Rightarrow>
          (case images_loop E cfg delay variant (build_prompt template)
                  (sort (rglob w1 (input_root cfg))) w1 of
             (Inl e, w2) \<Rightarrow> (Inl e, w2)
           | (Inr u, w2) \<Rightarrow> variants_loop E cfg delay rest cache1 w2))"

text \<open>
  Vocabulary for the second run. \<open>outputs_outside cfg w\<close>: no output directory and no output
  file of a unit of \<open>cfg\<close> is the input root of \<open>w\<close> or lies below it, so that a run does
  not change its own input. \<open>unit_done cfg variant w p\<close>: the output directory of the image \<open>p\<close> for
  the variant exists and something exists at its output path. \<open>grown r w w'\<close>: \<open>w'\<close> lists
  the entries of \<open>w\<close> followed by new entries, none of them \<open>r\<close> or below \<open>r\<close>.
\<close>

definition outputs_outside :: "PipelineConfig \<Rightarrow> world \<Rightarrow> bool" where
  "outputs_outside cfg w =
     list_all (\<lambda>variant.
       list_all (\<lambda>p.
         list_all (\<lambda>q. \<not> prefix (input_root cfg) q)
           (prefixes (out_dir cfg variant (drop (length (input_root cfg)) p))) \<and>
         \<not> prefix (input_root cfg)
             (out_path cfg variant (drop (length (input_root cfg)) p)))
       (rglob w (input_root cfg)))
     (variants cfg)"

definition unit_done :: "PipelineConfig \<Rightarrow> VariantConfig \<Rightarrow> world \<Rightarrow> path \<Rightarrow> bool" where
  "unit_done cfg variant w p =
     (list_all (is_dir w) (prefixes (out_dir cfg variant (drop (length (input_root cfg)) p))) \<and>
      path_exists w (out_path cfg variant (drop (length (input_root cfg)) p)))"

definition grown :: "path \<Rightarrow> world \<Rightarrow> world \<Rightarrow> bool" where
  "grown r w w' =
     (\<exists>new. nodes w' = nodes w @ new \<and> (\<forall>k \<in> fst ` set new. \<not> prefix r k))"

definition process_images :: "env \<Rightarrow> PipelineConfig \<Rightarrow> real \<Rightarrow> world \<Rightarrow> (exn + unit) \<times> world" where
  "process_images E cfg rate_limit_qps w =
     (case resolve_api_key E (api_key_path cfg) w of
        Inl e \<Rightarrow> (Inl e, w)
      | Inr api_key \<Rightarrow> variants_loop E cfg (delay_of rate_limit_qps) (variants cfg) Map.empty w)"

section \<open>The folder script (\<^verbatim>\<open>gemini_weather_pairs.py\<close>)\<close>

record AppConfig =
  app_model_name :: yaml
  app_output_width :: int
  app_output_height :: int
  app_api_key_path :: "path option"
  app_variants :: "VariantConfig list"

definition pairs_load_config :: "env \<Rightarrow> world \<Rightarrow> path \<Rightarrow> exn + AppConfig" where
  "pairs_load_config E w p =
     ebind (load_yaml E w p) (\<lambda>data.
       case data of
         YMap m \<Rightarrow>
           ebind (items_of (yget m ''variants'' (YList []))) (\<lambda>items.
           ebind (load_variants E (parent p) items) (\<lambda>vs.
           ebind (optional_path (parent p) (yget m ''api_key_path'' YNull)) (\<lambda>key.
           ebind (py_int E (yget m ''output_width'' (YInt 1344))) (\<lambda>width.
           ebind (py_int E (yget m ''output_height'' (YInt 768))) (\<lambda>height.
             Inr \<lparr>app_model_name = yget m ''model_name'' (YStr ''gemini-2.5-flash-image''),
                  app_output_width = width, app_output_height = height,
                  app_api_key_path = key, app_variants = vs\<rparr>)))))
       | _ \<Rightarrow> Inl AttributeError)"

definition OUTPUT_ROOT :: path where
  "OUTPUT_ROOT = [''outputimg'']"

text \<open>
  \<^verbatim>\<open>out_base = OUTPUT_ROOT / folder.name / variant.name\<close> and
  \<^verbatim>\<open>out_path = out_base / f"{img_path.stem}_{variant.name}.png"\<close> in \<^verbatim>\<open>process_folder\<close>.
\<close>

definition pairs_out_path :: "path \<Rightarrow> VariantConfig \<Rightarrow> path \<Rightarrow> path" where
  "pairs_out_path folder variant img_path =
     joinpath (joinpath (joinpath OUTPUT_ROOT (path_name folder)) (name variant))
       (stem img_path @ ''_'' @ name variant @ ''.png'')"

section \<open>One video job (\<^verbatim>\<open>veo_video_generate.py\<close>)\<close>

record VideoJobConfig =
  job_model_name :: yaml
  job_api_key_path :: "path option"
  first_frame :: "path option"
  last_frame :: "path option"
  output_path :: path
  prompt :: string
  negative_prompt :: "string option"
  duration_seconds :: int
  aspect_ratio :: yaml
  resolution :: yaml
  poll_interval_seconds :: real
  reference_type :: string
  use_first_frame_reference :: bool
  use_last_frame :: bool

definition upper_char :: "char \<Rightarrow> char" where
  "upper_char c =
     (case map_of (zip ''abcdefghijklmnopqrstuvwxyz'' ''ABCDEFGHIJKLMNOPQRSTUVWXYZ'') c of
        Some d \<Rightarrow> d
      | None \<Rightarrow> c)"

definition upper :: "string \<Rightarrow> string" where
  "upper s = map upper_char s"

text \<open>
  \<^verbatim>\<open>types.VideoGenerationReferenceType[token]\<close>: the vocabulary of the provider library is
  \<open>reference_types E\<close>; an unknown token raises \<^verbatim>\<open>KeyError\<close>.
\<close>

definition lookup_reference_type :: "env \<Rightarrow> string \<Rightarrow> exn + string" where
  "lookup_reference_type E token =
     (if token \<in> set (reference_types E) then Inr token else Inl (KeyError token))"

definition upper_of :: "yaml \<Rightarrow> exn + string" where
  "upper_of v = (case v of YStr s \<Rightarrow> Inr (upper s) | _ \<Rightarrow> Inl AttributeError)"

definition strip_of :: "yaml \<Rightarrow> exn + string" where
  "strip_of v = (case v of YStr s \<Rightarrow> Inr (strip s) | _ \<Rightarrow> Inl AttributeError)"

definition video_load_config :: "env \<Rightarrow> world \<Rightarrow> path \<Rightarrow> exn + VideoJobConfig" where
  "video_load_config E w p =
     ebind (load_yaml E w p) (\<lambda>data.
       case data of
         YMap m \<Rightarrow>
           ebind (optional_path (parent p) (yget m ''api_key_path'' YNull)) (\<lambda>key.
           ebind (upper_of (yget m ''reference_type'' (YStr ''ASSET''))) (\<lambda>tok.
           ebind (case lookup_reference_type E tok of
                    Inl e \<Rightarrow> Inl (ValueError ''Invalid reference_type'')
                  | Inr t \<Rightarrow> Inr t) (\<lambda>rt.
           ebind (optional_path (parent p) (yget m ''first_frame'' YNull)) (\<lambda>ff.
           ebind (optional_path (parent p) (yget m ''last_frame'' YNull)) (\<lambda>lf.
           ebind (yitem m ''output_path'') (\<lambda>ov.
           ebind (resolve_path (parent p) ov) (\<lambda>out.
           ebind (yitem m ''prompt'') (\<lambda>pv.
           ebind (strip_of pv) (\<lambda>pr.
           ebind (strip_of (yget m ''negative_prompt'' (YStr []))) (\<lambda>np.
           ebind (py_int E (yget m ''duration_seconds'' (YInt 6))) (\<lambda>dur.
           ebind (py_float E (yget m ''poll_interval_seconds'' (YInt 10))) (\<lambda>poll.
             Inr \<lparr>job_model_name = yget m ''model_name'' (YStr ''veo-3.1''),
                  job_api_key_path = key, first_frame = ff, last_frame = lf,
                  output_path = out, prompt = pr,
                  negative_prompt = (if np = [] then None else Some np),
                  duration_seconds = dur,
                  aspect_ratio = yget m ''aspect_ratio'' YNull,
                  resolution = yget m ''resolution'' YNull,
                  poll_interval_seconds = poll, reference_type = rt,
                  use_first_frame_reference = truthy (yget m ''use_first_frame_reference'' (YBool False)),
                  use_last_frame = truthy (yget m ''use_last_frame'' (YBool False))\<rparr>))))))))))))
       | _ \<Rightarrow> Inl AttributeError)"

definition read_image_bytes :: "world \<Rightarrow> path \<Rightarrow> exn + bytes" where
  "read_image_bytes w p =
     (if \<not> path_exists w p then Inl (OSError ''FileNotFoundError'') else read_bytes w p)"

definition read_optional :: "world \<Rightarrow> path option \<Rightarrow> exn + bytes option" where
  "read_optional w po =
     (case po of
        None \<Rightarrow> Inr None
      | Some p \<Rightarrow> ebind (read_image_bytes w p) (\<lambda>b. Inr (Some b)))"

text \<open>
  The request that \<^verbatim>\<open>run_generation\<close> and \<^verbatim>\<open>build_generate_videos_config\<close> put together:
  a field is present when the configured value is true.
\<close>

definition build_request ::
  "VideoJobConfig \<Rightarrow> bytes option \<Rightarrow> bytes option \<Rightarrow> video_request" where
  "build_request cfg first_bytes last_bytes =
     \<lparr>vreq_model = job_model_name cfg,
      vreq_prompt = prompt cfg,
      vreq_image = first_bytes,
      vreq_duration = duration_seconds cfg,
      vreq_aspect_ratio = (if truthy (aspect_ratio cfg) then aspect_ratio cfg else YNull),
      vreq_resolution = (if truthy (resolution cfg) then resolution cfg else YNull),
      vreq_negative_prompt = negative_prompt cfg,
      vreq_last_frame = (if use_last_frame cfg then last_bytes else None),
      vreq_reference =
        (if use_first_frame_reference cfg
         then map_option (\<lambda>b. (b, reference_type cfg)) first_bytes else None)\<rparr>"

text \<open>
  One round of the polling loop: \<^verbatim>\<open>time.sleep(cfg.poll_interval_seconds)\<close> and
  \<^verbatim>\<open>client.operations.get(operation)\<close>; the answer to the \<open>k\<close>-th status query of the run is
  \<open>operations_get E k\<close>.
\<close>

definition poll_once :: "env \<Rightarrow> real \<Rightarrow> operation \<Rightarrow> world \<Rightarrow> (exn + operation) \<times> world" where
  "poll_once E interval operation w =
     sbind (sleep interval w) (\<lambda>u w1.
       (operations_get E (npolls (log w1)) operation, w1\<lparr>log := Poll # log w1\<rparr>))"

text \<open>
  \<^verbatim>\<open>while not operation.done\<close>: the loop need not end, so it is a partial function and
  \<open>None\<close> is a run that polls forever.
\<close>

partial_function (option) poll_loop ::
  "env \<Rightarrow> real \<Rightarrow> operation \<Rightarrow> world \<Rightarrow> ((exn + operation) \<times> world) option" where
  "poll_loop E interval operation w =
     (if op_done operation then Some (Inr operation, w)
      else (case poll_once E interval operation w of
              (Inl e, w1) \<Rightarrow> Some (Inl e, w1)
            | (Inr operation1, w1) \<Rightarrow> poll_loop E interval operation1 w1))"

text \<open>
  The end of \<^verbatim>\<open>run_generation\<close>, once the operation is done: an error raises, a missing
  result raises, inline bytes are written to the output path, else the URI is fetched with
  the key and the body written, else the call raises. An empty byte string and an empty
  URI count as absent, as Python's truth test has it.
\<close>

definition save_result ::
  "env \<Rightarrow> VideoJobConfig \<Rightarrow> string \<Rightarrow> operation \<Rightarrow> world \<Rightarrow> (exn + path) \<times> world" where
  "save_result E cfg api_key operation w =
     (if op_error operation \<noteq> None \<and> op_error operation \<noteq> Some []
      then (Inl (RuntimeError ''Video generation failed''), w)
      else
        (case op_result operation of
           None \<Rightarrow> (Inl (RuntimeError ''No video content returned from operation''), w)
         | Some [] \<Rightarrow> (Inl (RuntimeError ''No video content returned from operation''), w)
         | Some (None # vs) \<Rightarrow> (Inl AttributeError, w)
         | Some (Some v # vs) \<Rightarrow>
             if video_bytes v \<noteq> None \<and> video_bytes v \<noteq> Some []
             then sbind (mkdir_p (parent (output_path cfg)) w) (\<lambda>u w1.
                  sbind (write_bytes (output_path cfg) (the (video_bytes v)) w1) (\<lambda>u w2.
                    (Inr (output_path cfg), w2)))
             else if uri v \<noteq> None \<and> uri v \<noteq> Some []
             then sbind (mkdir_p (parent (output_path cfg)) w) (\<lambda>u w1.
                    (case requests_get E (the (uri v)) api_key of
                       Inl e \<Rightarrow> (Inl e, w1\<lparr>log := Fetch # log w1\<rparr>)
                     | Inr content \<Rightarrow>
                         sbind (write_bytes (output_path cfg) content (w1\<lparr>log := Fetch # log w1\<rparr>))
                           (\<lambda>u w2. (Inr (output_path cfg), w2))))
             else (Inl (RuntimeError ''Video response missing data and URI''), w)))"

text \<open>What \<^verbatim>\<open>run_generation\<close> does before it submits: the key and the two frames.\<close>

definition prepare_job ::
  "env \<Rightarrow> VideoJobConfig \<Rightarrow> world \<Rightarrow> exn + string \<times> video_request" where
  "prepare_job E cfg w =
     ebind (resolve_api_key E (job_api_key_path cfg) w) (\<lambda>api_key.
     ebind (read_optional w (first_frame cfg)) (\<lambda>first_bytes.
     ebind (read_optional w (last_frame cfg)) (\<lambda>last_bytes.
       Inr (api_key, build_request cfg first_bytes last_bytes))))"

definition run_generation ::
  "env \<Rightarrow> VideoJobConfig \<Rightarrow> world \<Rightarrow> ((exn + path) \<times> world) option" where
  "run_generation E cfg w =
     (case prepare_job E cfg w of
        Inl e \<Rightarrow> Some (Inl e, w)
      | Inr (api_key, request) \<Rightarrow>
          (case generate_videos E (nsubmits (log w)) request of
             Inl e \<Rightarrow> Some (Inl e, w\<lparr>log := Submit # log w\<rparr>)
           | Inr operation \<Rightarrow>
               (case poll_loop E (poll_interval_seconds cfg) operation
                       (w\<lparr>log := Submit # log w\<rparr>) of
                  None \<Rightarrow> None
                | Some (Inl e, w1) \<Rightarrow> Some (Inl e, w1)
                | Some (Inr operation1, w1) \<Rightarrow> Some (save_result E cfg api_key operation1 w1))))"

section \<open>The video batch (\<^verbatim>\<open>veo_video_batch.py\<close>)\<close>

text \<open>The variant of the batch keeps the optional fields as the document gives them
  (\<open>YNull\<close> for \<^verbatim>\<open>None\<close>).\<close>

record BatchVariantConfig =
  v_name :: string
  v_prompt_path :: path
  v_duration_seconds :: yaml
  v_aspect_ratio :: yaml
  v_resolution :: yaml
  v_use_first_frame_reference :: yaml
  v_use_last_frame :: yaml
  v_reference_type :: yaml

record BatchConfig =
  b_model_name :: yaml
  b_api_key_path :: "path option"
  b_input_root :: path
  b_output_root :: path
  defaults :: yaml
  b_variants :: "BatchVariantConfig list"

definition load_batch_variant :: "path \<Rightarrow> yaml \<Rightarrow> exn + BatchVariantConfig" where
  "load_batch_variant cfg_dir item =
     (case item of
        YMap m \<Rightarrow>
          ebind (yitem m ''name'') (\<lambda>n.
          ebind (yitem m ''prompt_file'') (\<lambda>pf.
          ebind (resolve_path cfg_dir pf) (\<lambda>pp.
            (case n of
               YStr nm \<Rightarrow>
                 Inr \<lparr>v_name = nm, v_prompt_path = pp,
                      v_duration_seconds = yget m ''duration_seconds'' YNull,
                      v_aspect_ratio = yget m ''aspect_ratio'' YNull,
                      v_resolution = yget m ''resolution'' YNull,
                      v_use_first_frame_reference = yget m ''use_first_frame_reference'' YNull,
                      v_use_last_frame = yget m ''use_last_frame'' YNull,
                      v_reference_type = yget m ''reference_type'' YNull\<rparr>
             | _ \<Rightarrow> Inl TypeError))))
      | _ \<Rightarrow> Inl TypeError)"

fun load_batch_variants :: "path \<Rightarrow> yaml list \<Rightarrow> exn + BatchVariantConfig list" where
  "load_batch_variants cfg_dir [] = Inr []"
| "load_batch_variants cfg_dir (item # items) =
     (case load_batch_variant cfg_dir item of
        Inl e \<Rightarrow> Inl e
      | Inr v \<Rightarrow>
          (case load_batch_variants cfg_dir items of Inl e \<Rightarrow> Inl e | Inr vs \<Rightarrow> Inr (v # vs)))"

text \<open>\<^verbatim>\<open>a or b\<close> on document values.\<close>

definition py_or :: "yaml \<Rightarrow> yaml \<Rightarrow> yaml" where
  "py_or a b = (if truthy a then a else b)"

text \<open>\<^verbatim>\<open>resolve_relative(base, value)\<close> with an optional value.\<close>

definition resolve_relative :: "path \<Rightarrow> yaml \<Rightarrow> exn + path option" where
  "resolve_relative base v =
     (case v of YNull \<Rightarrow> Inr None | _ \<Rightarrow> ebind (resolve_path base v) (\<lambda>p. Inr (Some p)))"

definition load_batch_config :: "env \<Rightarrow> world \<Rightarrow> path \<Rightarrow> exn + BatchConfig" where
  "load_batch_config E w p =
     ebind (load_yaml E w p) (\<lambda>data.
       case data of
         YMap m \<Rightarrow>
           ebind (items_of (yget m ''variants'' (YList []))) (\<lambda>items.
           ebind (load_batch_variants (parent p) items) (\<lambda>vs.
           ebind (resolve_relative (parent p) (yget m ''api_key_path'' YNull)) (\<lambda>key.
           ebind (resolve_path (parent p)
                    (py_or (yget m ''input_root'' YNull) (YStr ''outputimg''))) (\<lambda>inp.
           ebind (resolve_path (parent p)
                    (py_or (yget m ''output_root'' YNull) (YStr ''outputmp4''))) (\<lambda>out.
             Inr \<lparr>b_model_name = yget m ''model_name'' (YStr ''models/veo-3.1-generate-preview''),
                  b_api_key_path = key, b_input_root = inp, b_output_root = out,
                  defaults = yget m ''defaults'' (YMap []), b_variants = vs\<rparr>)))))
       | _ \<Rightarrow> Inl AttributeError)"

text \<open>\<^verbatim>\<open>load_prompt_text\<close>: the read is logged; there is no cache in this script.\<close>

definition load_prompt_text :: "env \<Rightarrow> path \<Rightarrow> world \<Rightarrow> (exn + string) \<times> world" where
  "load_prompt_text E p w =
     (ebind (load_yaml E w p) (\<lambda>data.
        case data of
          YMap m \<Rightarrow>
            ebind (strip_of (yget m ''positive'' (YStr []))) (\<lambda>pos.
            ebind (strip_of (yget m ''negative'' (YStr []))) (\<lambda>neg.
              Inr (if neg \<noteq> [] then pos @ [CHR 0x0A] @ ''Negative prompt: '' @ neg else pos)))
        | _ \<Rightarrow> Inl AttributeError),
      w\<lparr>log := Load p # log w\<rparr>)"

definition list_variant_frames :: "world \<Rightarrow> path \<Rightarrow> exn + path list" where
  "list_variant_frames w folder =
     ebind (iterdir w folder) (\<lambda>entries. Inr (sort (filter image_suffix entries)))"

text \<open>\<^verbatim>\<open>group_folders\<close> yields nothing for a missing root.\<close>

definition group_folders :: "world \<Rightarrow> path \<Rightarrow> exn + path list" where
  "group_folders w r =
     (if \<not> path_exists w r then Inr []
      else ebind (iterdir w r) (\<lambda>entries. Inr (sort (filter (is_dir w) entries))))"

text \<open>\<^verbatim>\<open>defaults.get(k, d)\<close>: the defaults have to be a mapping.\<close>

definition defaults_get :: "yaml \<Rightarrow> string \<Rightarrow> yaml \<Rightarrow> exn + yaml" where
  "defaults_get d k dflt = (case d of YMap m \<Rightarrow> Inr (yget m k dflt) | _ \<Rightarrow> Inl AttributeError)"

text \<open>
  \<^verbatim>\<open>output_dir = batch_cfg.output_root / scene_name / variant_cfg.name\<close> and
  \<^verbatim>\<open>output_path = output_dir / f"{scene_name}_{variant_cfg.name}.mp4"\<close>
\<close>

definition output_dir :: "BatchConfig \<Rightarrow> string \<Rightarrow> BatchVariantConfig \<Rightarrow> path" where
  "output_dir batch_cfg scene_name variant_cfg =
     joinpath (joinpath (b_output_root batch_cfg) scene_name) (v_name variant_cfg)"

definition job_output_path :: "BatchConfig \<Rightarrow> string \<Rightarrow> BatchVariantConfig \<Rightarrow> path" where
  "job_output_path batch_cfg scene_name variant_cfg =
     joinpath (output_dir batch_cfg scene_name variant_cfg)
       (scene_name @ ''_'' @ v_name variant_cfg @ ''.mp4'')"

text \<open>
  \<^verbatim>\<open>construct_job_config\<close>. The values are computed in the order of the source; the
  output directory is created before the configuration is returned.
\<close>

definition construct_job_config ::
  "env \<Rightarrow> BatchConfig \<Rightarrow> path option \<Rightarrow> string \<Rightarrow> BatchVariantConfig \<Rightarrow> path \<Rightarrow> path option
     \<Rightarrow> string \<Rightarrow> world \<Rightarrow> (exn + VideoJobConfig) \<times> world" where
  "construct_job_config E batch_cfg key_path scene_name variant_cfg first last_opt prompt_text w =
     (case
        ebind (if truthy (v_duration_seconds variant_cfg) then Inr (v_duration_seconds variant_cfg)
               else defaults_get (defaults batch_cfg) ''duration_seconds'' (YInt 6)) (\<lambda>dv.
        ebind (py_int E dv) (\<lambda>duration.
        ebind (if truthy (v_aspect_ratio variant_cfg) then Inr (v_aspect_ratio variant_cfg)
               else defaults_get (defaults batch_cfg) ''aspect_ratio'' YNull) (\<lambda>aspect.
        ebind (if v_resolution variant_cfg \<noteq> YNull then Inr (v_resolution variant_cfg)
               else defaults_get (defaults batch_cfg) ''resolution'' YNull) (\<lambda>res.
        ebind (defaults_get (defaults batch_cfg) ''poll_interval_seconds'' (YInt 10)) (\<lambda>pv.
        ebind (py_float E pv) (\<lambda>poll_seconds.
        ebind (if v_use_first_frame_reference variant_cfg \<noteq> YNull
               then Inr (v_use_first_frame_reference variant_cfg)
               else defaults_get (defaults batch_cfg) ''use_first_frame_reference'' (YBool True))
          (\<lambda>use_first.
        ebind (if v_use_last_frame variant_cfg \<noteq> YNull then Inr (v_use_last_frame variant_cfg)
               else defaults_get (defaults batch_cfg) ''use_last_frame'' (YBool False)) (\<lambda>use_last.
        ebind (if truthy (v_reference_type variant_cfg) then Inr (v_reference_type variant_cfg)
               else defaults_get (defaults batch_cfg) ''reference_type'' (YStr ''ASSET'')) (\<lambda>rv.
        ebind (upper_of rv) (\<lambda>tok.
        ebind (lookup_reference_type E tok) (\<lambda>rt.
          Inr \<lparr>job_model_name = b_model_name batch_cfg,
               job_api_key_path = key_path,
               first_frame = Some first,
               last_frame = (if truthy use_last then last_opt else None),
               output_path = job_output_path batch_cfg scene_name variant_cfg,
               prompt = prompt_text,
               negative_prompt = None,
               duration_seconds = duration,
               aspect_ratio = aspect,
               resolution = res,
               poll_interval_seconds = poll_seconds,
               reference_type = rt,
               use_first_frame_reference = truthy use_first,
               use_last_frame = (truthy use_last \<and> last_opt \<noteq> None)\<rparr>)))))))))))
      of
        Inl e \<Rightarrow> (Inl e, w)
      | Inr job_cfg \<Rightarrow>
          sbind (mkdir_p (output_dir batch_cfg scene_name variant_cfg) w) (\<lambda>u w1.
            (Inr job_cfg, w1)))"

text \<open>
  One round of the loop of \<^verbatim>\<open>process_scene_folder\<close>, for one variant. \<open>Some (Inr ())\<close>
  is a round that went through or was left by \<^verbatim>\<open>continue\<close>, \<open>Some (Inl e)\<close> an exception
  and \<open>None\<close> a job that polls forever. The call of \<^verbatim>\<open>pick_reference_frames\<close> is logged
  with the number of frames it is given.
\<close>

definition scene_step ::
  "env \<Rightarrow> BatchConfig \<Rightarrow> path \<Rightarrow> BatchVariantConfig \<Rightarrow> world
     \<Rightarrow> ((exn + unit) \<times> world) option" where
  "scene_step E batch_cfg scene_folder variant w =
     (if \<not> path_exists w (joinpath scene_folder (v_name variant)) then Some (Inr (), w)
      else
        (case list_variant_frames w (joinpath scene_folder (v_name variant)) of
           Inl e \<Rightarrow> Some (Inl e, w)
         | Inr frames \<Rightarrow>
             if frames = [] then Some (Inr (), w)
             else
               (case pick_reference_frames frames of
                  Inl e \<Rightarrow> Some (Inl e, w\<lparr>log := Pick (length frames) # log w\<rparr>)
                | Inr (first, lst) \<Rightarrow>
                    (case load_prompt_text E (v_prompt_path variant)
                            (w\<lparr>log := Pick (length frames) # log w\<rparr>) of
                       (Inl e, w1) \<Rightarrow> Some (Inl e, w1)
                     | (Inr prompt_text, w1) \<Rightarrow>
                         (case construct_job_config E batch_cfg (b_api_key_path batch_cfg)
                                 (path_name scene_folder) variant first (Some lst) prompt_text w1 of
                            (Inl e, w2) \<Rightarrow> Some (Inl e, w2)
                          | (Inr job_cfg, w2) \<Rightarrow>
                              if path_exists w2 (output_path job_cfg) then Some (Inr (), w2)
                              else
                                (case run_generation E job_cfg w2 of
                                   None \<Rightarrow> None
                                 | Some (Inl e, w3) \<Rightarrow> Some (Inl e, w3)
                                 | Some (Inr out, w3) \<Rightarrow> Some (Inr (), w3)))))))"

fun scene_loop ::
  "env \<Rightarrow> BatchConfig \<Rightarrow> path \<Rightarrow> BatchVariantConfig list \<Rightarrow> world
     \<Rightarrow> ((exn + unit) \<times> world) option" where
  "scene_loop E batch_cfg scene_folder [] w = Some (Inr (), w)"
| "scene_loop E batch_cfg scene_folder (variant # rest) w =
     (case scene_step E batch_cfg scene_folder variant w of
        None \<Rightarrow> None
      | Some (Inl e, w1) \<Rightarrow> Some (Inl e, w1)
      | Some (Inr u, w1) \<Rightarrow> scene_loop E batch_cfg scene_folder rest w1)"

definition process_scene_folder ::
  "env \<Rightarrow> BatchConfig \<Rightarrow> path \<Rightarrow> world \<Rightarrow> ((exn + unit) \<times> world) option" where
  "process_scene_folder E batch_cfg scene_folder w =
     scene_loop E batch_cfg scene_folder (b_variants batch_cfg) w"

fun scenes_loop ::
  "env \<Rightarrow> BatchConfig \<Rightarrow> path list \<Rightarrow> world \<Rightarrow> ((exn + unit) \<times> world) option" where
  "scenes_loop E cfg [] w = Some (Inr (), w)"
| "scenes_loop E cfg (scene # rest) w =
     (case process_scene_folder E cfg scene w of
        None \<Rightarrow> None
      | Some (Inl e, w1) \<Rightarrow> Some (Inl e, w1)
      | Some (Inr u, w1) \<Rightarrow> scenes_loop E cfg rest w1)"

text \<open>
  \<^verbatim>\<open>main\<close> of the batch, from the loaded configuration on: the key is resolved and put
  into the environment unless the variable is set, the scene folders are listed once, when
  the loop starts, and processed in that order.
\<close>

definition batch_main :: "env \<Rightarrow> BatchConfig \<Rightarrow> world \<Rightarrow> ((exn + unit) \<times> world) option" where
  "batch_main E cfg w =
     (case resolve_api_key E (b_api_key_path cfg) w of
        Inl e \<Rightarrow> Some (Inl e, w)
      | Inr api_key \<Rightarrow>
          (case group_folders w (b_input_root cfg) of
             Inl e \<Rightarrow> Some (Inl e, w)
           | Inr scenes \<Rightarrow>
               scenes_loop
                 (case api_key_env E of None \<Rightarrow> E\<lparr>api_key_env := Some api_key\<rparr> | Some k \<Rightarrow> E)
                 cfg scenes w))"


text \<open>
  Vocabulary for the second run of the batch. \<open>nrequests l\<close>: the requests to the video
  provider in the log \<open>l\<close> (jobs submitted, status queries, downloads). \<open>videos_outside cfg w\<close>:
  for every scene of \<open>w\<close> and every variant, the folder of the variant lies below the
  input root, and no directory that the batch creates for the pair and not its output path
  is the input root or lies below it. \<open>video_done E cfg scene variant w\<close>: in \<open>w\<close> the pair
  has no frames, or its prompt and its job can be built, its output directory exists and
  something exists at its output path.
\<close>

definition nrequests :: "event list \<Rightarrow> nat" where
  "nrequests l = length (filter (\<lambda>e. e = Submit \<or> e = Poll \<or> e = Fetch) l)"

definition videos_outside :: "BatchConfig \<Rightarrow> world \<Rightarrow> bool" where
  "videos_outside cfg w =
     (case group_folders w (b_input_root cfg) of
        Inl e \<Rightarrow> True
      | Inr scenes \<Rightarrow>
          list_all (\<lambda>scene.
            list_all (\<lambda>variant.
              strict_prefix (b_input_root cfg) (joinpath scene (v_name variant)) \<and>
              list_all (\<lambda>q. \<not> prefix (b_input_root cfg) q)
                (prefixes (output_dir cfg (path_name scene) variant)) \<and>
              list_all (\<lambda>q. \<not> prefix (b_input_root cfg) q)
                (prefixes (parent (job_output_path cfg (path_name scene) variant))) \<and>
              \<not> prefix (b_input_root cfg) (job_output_path cfg (path_name scene) variant))
            (b_variants cfg))
          scenes)"

definition video_done :: "env \<Rightarrow> BatchConfig \<Rightarrow> path \<Rightarrow> BatchVariantConfig \<Rightarrow> world \<Rightarrow> bool" where
  "video_done E cfg scene variant w =
     (\<not> path_exists w (joinpath scene (v_name variant)) \<or>
      (case list_variant_frames w (joinpath scene (v_name variant)) of
         Inl e \<Rightarrow> False
       | Inr frames \<Rightarrow>
           frames = [] \<or>
           (case pick_reference_frames frames of
              Inl e \<Rightarrow> False
            | Inr (first, lst) \<Rightarrow>
                (case fst (load_prompt_text E (v_prompt_path variant) w) of
                   Inl e \<Rightarrow> False
                 | Inr prompt_text \<Rightarrow>
                     (case fst (construct_job_config E cfg (b_api_key_path cfg) (path_name scene)
                                  variant first (Some lst) prompt_text w) of
                        Inl e \<Rightarrow> False
                      | Inr job_cfg \<Rightarrow>
                          list_all (is_dir w)
                            (prefixes (output_dir cfg (path_name scene) variant)) \<and>
                          path_exists w (output_path job_cfg))))))"

text \<open>
  \<open>has_frames w scene variant\<close>: the folder of the variant in the scene exists and lists
  at least one frame, so that \<^verbatim>\<open>process_scene_folder\<close> goes on to the prompt of the pair.
\<close>

definition has_frames :: "world \<Rightarrow> path \<Rightarrow> BatchVariantConfig \<Rightarrow> bool" where
  "has_frames w scene variant =
     (path_exists w (joinpath scene (v_name variant)) \<and>
      (case list_variant_frames w (joinpath scene (v_name variant)) of
         Inl e \<Rightarrow> False
       | Inr frames \<Rightarrow> frames \<noteq> []))"

section \<open>The run of the folder script (\<^verbatim>\<open>gemini_weather_pairs.py\<close>)\<close>

definition INPUT_ROOT :: path where
  "INPUT_ROOT = [''input'', ''imgsource'']"

text \<open>\<^verbatim>\<open>iter_subfolders\<close> yields nothing for a missing root.\<close>

definition iter_subfolders :: "world \<Rightarrow> path \<Rightarrow> exn + path list" where
  "iter_subfolders w r =
     (if \<not> path_exists w r then Inr []
      else ebind (iterdir w r) (\<lambda>entries. Inr (sort (filter (is_dir w) entries))))"

text \<open>
  The body of the loop over the images in \<^verbatim>\<open>process_folder\<close>: the image is read, the
  provider called and the answer written at the output path, over whatever is there. There
  is no test of the output path, no retry and no sleep.
\<close>

definition pairs_unit ::
  "env \<Rightarrow> AppConfig \<Rightarrow> path \<Rightarrow> VariantConfig \<Rightarrow> string \<Rightarrow> path \<Rightarrow> world
     \<Rightarrow> (exn + unit) \<times> world" where
  "pairs_unit E cfg folder variant prompt_text img_path w =
     (case read_bytes w img_path of
        Inl e \<Rightarrow> (Inl e, w)
      | Inr raw \<Rightarrow>
          sbind
            (call_gemini_edit E
               \<lparr>req_model = app_model_name cfg, req_prompt = prompt_text,
                req_image = raw, req_creativity = creativity variant,
                req_fidelity = fidelity variant, req_width = app_output_width cfg,
                req_height = app_output_height cfg\<rparr> w)
            (\<lambda>result_bytes. write_bytes (pairs_out_path folder variant img_path) result_bytes))"

fun pairs_images_loop ::
  "env \<Rightarrow> AppConfig \<Rightarrow> path \<Rightarrow> VariantConfig \<Rightarrow> string \<Rightarrow> path list \<Rightarrow> world
     \<Rightarrow> (exn + unit) \<times> world" where
  "pairs_images_loop E cfg folder variant prompt_text [] w = (Inr (), w)"
| "pairs_images_loop E cfg folder variant prompt_text (img_path # rest) w =
     (case pairs_unit E cfg folder variant prompt_text img_path w of
        (Inl e, w1) \<Rightarrow> (Inl e, w1)
      | (Inr u, w1) \<Rightarrow> pairs_images_loop E cfg folder variant prompt_text rest w1)"

text \<open>
  The loop over the variants in \<^verbatim>\<open>process_folder\<close>; the cache is the dictionary that
  \<^verbatim>\<open>main\<close> hands to every call, so the loop returns it.
\<close>

fun pairs_variants_loop ::
  "env \<Rightarrow> AppConfig \<Rightarrow> path \<Rightarrow> path list \<Rightarrow> VariantConfig list
     \<Rightarrow> (path \<rightharpoonup> PromptTemplate) \<Rightarrow> world
     \<Rightarrow> (exn + (path \<rightharpoonup> PromptTemplate)) \<times> world" where
  "pairs_variants_loop E cfg folder images [] prompt_cache w = (Inr prompt_cache, w)"
| "pairs_variants_loop E cfg folder images (variant # rest) prompt_cache w =
     (case get_template E prompt_cache (prompt_path variant) w of
        (Inl e, w1) \<Rightarrow> (Inl e, w1)
      | (Inr (template, cache1), w1) \<Rightarrow>
          (case mkdir_p (joinpath (joinpath OUTPUT_ROOT (path_name folder)) (name variant)) w1 of
             (Inl e, w2) \<Rightarrow> (Inl e, w2)
           | (Inr u, w2) \<Rightarrow>
               (case pairs_images_loop E cfg folder variant (build_prompt template) images w2 of
                  (Inl e, w3) \<Rightarrow> (Inl e, w3)
                | (Inr u, w3) \<Rightarrow> pairs_variants_loop E cfg folder images rest cache1 w3)))"

text \<open>\<^verbatim>\<open>process_folder\<close>: the images of the folder are listed and sorted once; a folder
  without images is left at once.\<close>

definition process_folder ::
  "env \<Rightarrow> AppConfig \<Rightarrow> path \<Rightarrow> (path \<rightharpoonup> PromptTemplate) \<Rightarrow> world
     \<Rightarrow> (exn + (path \<rightharpoonup> PromptTemplate)) \<times> world" where
  "process_folder E cfg folder prompt_cache w =
     (case iterdir w folder of
        Inl e \<Rightarrow> (Inl e, w)
      | Inr entries \<Rightarrow>
          (let images = sort (filter image_suffix entries)
           in if images = [] then (Inr prompt_cache, w)
              else pairs_variants_loop E cfg folder images (app_variants cfg) prompt_cache w))"

fun folders_loop ::
  "env \<Rightarrow> AppConfig \<Rightarrow> path list \<Rightarrow> (path \<rightharpoonup> PromptTemplate) \<Rightarrow> world
     \<Rightarrow> (exn + unit) \<times> world" where
  "folders_loop E cfg [] prompt_cache w = (Inr (), w)"
| "folders_loop E cfg (folder # rest) prompt_cache w =
     (case process_folder E cfg folder prompt_cache w of
        (Inl e, w1) \<Rightarrow> (Inl e, w1)
      | (Inr cache1, w1) \<Rightarrow> folders_loop E cfg rest cache1 w1)"

text \<open>\<^verbatim>\<open>main\<close> of the folder script, from the loaded configuration on.\<close>

definition pairs_main :: "env \<Rightarrow> AppConfig \<Rightarrow> world \<Rightarrow> (exn + unit) \<times> world" where
  "pairs_main E cfg w =
     (case resolve_api_key E (app_api_key_path cfg) w of
        Inl e \<Rightarrow> (Inl e, w)
      | Inr api_key \<Rightarrow>
          (case iter_subfolders w INPUT_ROOT of
             Inl e \<Rightarrow> (Inl e, w)
           | Inr folders \<Rightarrow> folders_loop E cfg folders Map.empty w))"

section \<open>Vocabulary for a run that raises\<close>

text \<open>
  \<open>kept w w'\<close>: every entry of \<open>w\<close> is an entry of \<open>w'\<close>, of the same kind and with the same
  content. \<open>cache_after E cfg delay vs cache w\<close>: the dictionary \<^verbatim>\<open>prompt_cache\<close> of
  \<^verbatim>\<open>process_images\<close> when its loop has gone through the variants \<open>vs\<close> from the cache
  \<open>cache\<close> and the world \<open>w\<close>.
\<close>

definition kept :: "world \<Rightarrow> world \<Rightarrow> bool" where
  "kept w w' = list_all (\<lambda>p. node_at w' p = node_at w p) (map fst (nodes w))"

fun cache_after ::
  "env \<Rightarrow> PipelineConfig \<Rightarrow> real \<Rightarrow> VariantConfig list \<Rightarrow> (path \<rightharpoonup> PromptTemplate) \<Rightarrow> world
     \<Rightarrow> (path \<rightharpoonup> PromptTemplate)" where
  "cache_after E cfg delay [] prompt_cache w = prompt_cache"
| "cache_after E cfg delay (variant # rest) prompt_cache w =
     (case get_template E prompt_cache (prompt_path variant) w of
        (Inl e, w1) \<Rightarrow> prompt_cache
      | (Inr (template, cache1), w1) \<Rightarrow>
          (case images_loop E cfg delay variant (build_prompt template)
                  (sort (rglob w1 (input_root cfg))) w1 of
             (Inl e, w2) \<Rightarrow> cache1
           | (Inr u, w2) \<Rightarrow> cache_after E cfg delay rest cache1 w2))"
section \<open>Example inputs\<close>

text \<open>
  A small input tree with two images in one group and one prompt document, a
  configuration with one variant, and four providers: one that answers every request,
  one that fails every request, one that fails the first two requests and one that fails
  the first request.
\<close>

definition demo_nodes :: "(path \<times> node) list" where
  "demo_nodes =
     [([''in''], Dir), ([''in'', ''g''], Dir),
      ([''in'', ''g'', ''b.png''], File ''B''), ([''in'', ''g'', ''a.png''], File ''A''),
      ([''cfg''], Dir), ([''cfg'', ''rain.yaml''], File ''RAIN'')]"

definition demo_world :: world where
  "demo_world = \<lparr>nodes = demo_nodes, log = []\<rparr>"

definition demo_variant :: VariantConfig where
  "demo_variant = \<lparr>name = ''rain'', prompt_path = [''cfg'', ''rain.yaml''],
                    creativity = 2 / 10, fidelity = 7 / 10\<rparr>"

definition demo_cfg :: PipelineConfig where
  "demo_cfg = \<lparr>input_root = [''in''], output_root = [''out''], api_key_path = None,
                model_name = YStr ''gemini-2.5-flash-image'', output_width = 1024,
                output_height = 1024, variants = [demo_variant]\<rparr>"

definition demo_doc :: yaml where
  "demo_doc = YMap [(''positive'', YStr '' rainy street ''), (''negative'', YStr ''blur'')]"

definition pending :: operation where
  "pending = \<lparr>op_name = ''op'', op_done = False, op_error = None, op_result = None\<rparr>"

definition good_env :: env where
  "good_env =
     \<lparr>api_key_env = Some ''key'',
      yaml_load = (\<lambda>b. Inr demo_doc),
      str_float = (\<lambda>s. None),
      str_int = (\<lambda>s. None),
      reference_types = [''ASSET'', ''STYLE''],
      edit = (\<lambda>k req. Inr (''PNG'' @ req_image req)),
      generate_videos = (\<lambda>k req. Inr pending),
      operations_get = (\<lambda>k operation.
         Inr (if k < 2 then operation
              else pending\<lparr>op_done := True,
                     op_result := Some [Some \<lparr>video_bytes = Some ''MP4'', uri = None\<rparr>]\<rparr>)),
      requests_get = (\<lambda>u k. Inl (ProviderError ''404''))\<rparr>"

definition failing_env :: env where
  "failing_env = good_env\<lparr>edit := (\<lambda>k req. Inl (ProviderError ''quota''))\<rparr>"

definition flaky_env :: env where
  "flaky_env =
     good_env\<lparr>edit := (\<lambda>k req. if k < 2 then Inl (ProviderError ''quota'') else Inr ''PNG'')\<rparr>"

definition hiccup_env :: env where
  "hiccup_env =
     good_env\<lparr>edit := (\<lambda>k req. if k < 1 then Inl (ProviderError ''quota'')
                              else Inr (''PNG'' @ req_image req))\<rparr>"

definition demo_request :: edit_request where
  "demo_request =
     \<lparr>req_model = YStr ''gemini-2.5-flash-image'', req_prompt = ''rainy street'',
      req_image = ''A'', req_creativity = 2 / 10, req_fidelity = 7 / 10,
      req_width = 1024, req_height = 1024\<rparr>"

text \<open>
  A configuration document that gives neither defaults nor any optional field, read from
  \<^verbatim>\<open>/cfg/run.yaml\<close>.
\<close>

definition cfg_doc :: yaml where
  "cfg_doc =
     YMap [(''input_root'', YStr ''in''), (''output_root'', YStr ''out''),
           (''output_path'', YStr ''out/clip.mp4''), (''prompt'', YStr ''a ride''),
           (''variants'',
            YList [YMap [(''name'', YStr ''rain''), (''prompt_file'', YStr ''rain.yaml'')]])]"

definition cfg_env :: env where
  "cfg_env = good_env\<lparr>yaml_load := (\<lambda>b. Inr cfg_doc)\<rparr>"

definition cfg_world :: world where
  "cfg_world = \<lparr>nodes = [([''cfg''], Dir), ([''cfg'', ''run.yaml''], File ''RUN'')], log = []\<rparr>"

text \<open>A scene with two frames of one variant, and a batch configuration without defaults.\<close>

definition video_nodes :: "(path \<times> node) list" where
  "video_nodes =
     [([''in''], Dir), ([''in'', ''s1''], Dir), ([''in'', ''s1'', ''rain''], Dir),
      ([''in'', ''s1'', ''rain'', ''0008.png''], File ''F8''),
      ([''in'', ''s1'', ''rain'', ''0000.png''], File ''F0''),
      ([''cfg''], Dir), ([''cfg'', ''rain.yaml''], File ''RAIN'')]"

definition video_world :: world where
  "video_world = \<lparr>nodes = video_nodes, log = []\<rparr>"

definition demo_batch_variant :: BatchVariantConfig where
  "demo_batch_variant =
     \<lparr>v_name = ''rain'', v_prompt_path = [''cfg'', ''rain.yaml''],
      v_duration_seconds = YNull, v_aspect_ratio = YNull, v_resolution = YNull,
      v_use_first_frame_reference = YNull, v_use_last_frame = YNull,
      v_reference_type = YNull\<rparr>"

definition demo_batch_cfg :: BatchConfig where
  "demo_batch_cfg =
     \<lparr>b_model_name = YStr ''models/veo-3.1-generate-preview'', b_api_key_path = None,
      b_input_root = [''in''], b_output_root = [''out''], defaults = YMap [],
      b_variants = [demo_batch_variant]\<rparr>"

text \<open>
  The job of the scene above, and a provider whose third status query reports a finished
  operation with an empty inline payload and no URI.
\<close>

definition demo_job :: VideoJobConfig where
  "demo_job =
     \<lparr>job_model_name = YStr ''models/veo-3.1-generate-preview'', job_api_key_path = None,
      first_frame = Some [''in'', ''s1'', ''rain'', ''0000.png''], last_frame = None,
      output_path = [''out'', ''s1'', ''rain'', ''s1_rain.mp4''], prompt = ''a ride'',
      negative_prompt = None, duration_seconds = 6, aspect_ratio = YNull, resolution = YNull,
      poll_interval_seconds = 10, reference_type = ''ASSET'',
      use_first_frame_reference = True, use_last_frame = False\<rparr>"

definition finished :: "bytes \<Rightarrow> operation" where
  "finished x =
     pending\<lparr>op_done := True, op_result := Some [Some \<lparr>video_bytes = Some x, uri = None\<rparr>]\<rparr>"

definition empty_payload_env :: env where
  "empty_payload_env =
     good_env\<lparr>operations_get := (\<lambda>k operation. Inr (if k < 2 then operation else finished []))\<rparr>"

text \<open>Two scenes whose videos exist already.\<close>

definition two_scene_nodes :: "(path \<times> node) list" where
  "two_scene_nodes =
     [([''in''], Dir),
      ([''in'', ''s1''], Dir), ([''in'', ''s1'', ''rain''], Dir),
      ([''in'', ''s1'', ''rain'', ''0000.png''], File ''F0''),
      ([''in'', ''s2''], Dir), ([''in'', ''s2'', ''rain''], Dir),
      ([''in'', ''s2'', ''rain'', ''0000.png''], File ''G0''),
      ([''cfg''], Dir), ([''cfg'', ''rain.yaml''], File ''RAIN''),
      ([''out''], Dir),
      ([''out'', ''s1''], Dir), ([''out'', ''s1'', ''rain''], Dir),
      ([''out'', ''s1'', ''rain'', ''s1_rain.mp4''], File ''V1''),
      ([''out'', ''s2''], Dir), ([''out'', ''s2'', ''rain''], Dir),
      ([''out'', ''s2'', ''rain'', ''s2_rain.mp4''], File ''V2'')]"

definition two_scene_world :: world where
  "two_scene_world = \<lparr>nodes = two_scene_nodes, log = []\<rparr>"

text \<open>A provider that refuses every video job.\<close>

definition down_env :: env where
  "down_env = good_env\<lparr>generate_videos := (\<lambda>k req. Inl (ProviderError ''503''))\<rparr>"

text \<open>The scene above as an operating system might list it in another order.\<close>

definition shuffled_world :: world where
  "shuffled_world = \<lparr>nodes = rev video_nodes, log = []\<rparr>"


text \<open>
  The two example worlds after a run with the provider that answers every request (the
  pipeline at half a request per second), and a video provider that is out of reach.
\<close>

definition demo_world_after :: world where
  "demo_world_after =
     \<lparr>nodes = demo_nodes @
        [([''out''], Dir), ([''out'', ''rain''], Dir), ([''out'', ''rain'', ''g''], Dir),
         ([''out'', ''rain'', ''g'', ''a_rain.png''], File ''PNGA''),
         ([''out'', ''rain'', ''g'', ''b_rain.png''], File ''PNGB'')],
      log = [Sleep 2, Call, Sleep 2, Call, Load [''cfg'', ''rain.yaml'']]\<rparr>"

definition video_world_after :: world where
  "video_world_after =
     \<lparr>nodes = video_nodes @
        [([''out''], Dir), ([''out'', ''s1''], Dir), ([''out'', ''s1'', ''rain''], Dir),
         ([''out'', ''s1'', ''rain'', ''s1_rain.mp4''], File ''MP4'')],
      log = [Poll, Sleep 10, Poll, Sleep 10, Poll, Sleep 10, Submit,
             Load [''cfg'', ''rain.yaml''], Pick 2]\<rparr>"

definition offline_env :: env where
  "offline_env =
     good_env\<lparr>generate_videos := (\<lambda>k req. Inl (ProviderError ''503'')),
              operations_get := (\<lambda>k operation. Inl (ProviderError ''503'')),
              requests_get := (\<lambda>u k. Inl (ProviderError ''503''))\<rparr>"

text \<open>An input of the folder script: one group with one image.\<close>

definition pairs_nodes :: "(path \<times> node) list" where
  "pairs_nodes =
     [([''input''], Dir), ([''input'', ''imgsource''], Dir),
      ([''input'', ''imgsource'', ''g''], Dir),
      ([''input'', ''imgsource'', ''g'', ''a.png''], File ''A''),
      ([''cfg''], Dir), ([''cfg'', ''rain.yaml''], File ''RAIN'')]"

definition pairs_world :: world where
  "pairs_world = \<lparr>nodes = pairs_nodes, log = []\<rparr>"

definition demo_app_cfg :: AppConfig where
  "demo_app_cfg =
     \<lparr>app_model_name = YStr ''gemini-2.5-flash-image'', app_output_width = 1344,
      app_output_height = 768, app_api_key_path = None, app_variants = [demo_variant]\<rparr>"

text \<open>
  A configuration of the pipeline with two variants that share the prompt document, and a
  provider that answers the first request and fails every later one.
\<close>

definition fog_variant :: VariantConfig where
  "fog_variant = \<lparr>name = ''fog'', prompt_path = [''cfg'', ''rain.yaml''],
                   creativity = 2 / 10, fidelity = 7 / 10\<rparr>"

definition two_variant_cfg :: PipelineConfig where
  "two_variant_cfg = \<lparr>input_root = [''in''], output_root = [''out''], api_key_path = None,
                model_name = YStr ''gemini-2.5-flash-image'', output_width = 1024,
                output_height = 1024, variants = [demo_variant, fog_variant]\<rparr>"

definition once_env :: env where
  "once_env =
     good_env\<lparr>edit := (\<lambda>k req. if k = 0 then Inr (''PNG'' @ req_image req)
                                else Inl (ProviderError ''quota''))\<rparr>"

text \<open>
  The worlds of the run of that configuration with that provider at two requests per
  second: after the prompt document is loaded, after the first image is written, and when
  the third attempt for the second image fails.
\<close>

definition rain_template :: PromptTemplate where
  "rain_template = \<lparr>positive = ''rainy street'', negative = ''blur''\<rparr>"

definition once_loaded :: world where
  "once_loaded = \<lparr>nodes = demo_nodes, log = [Load [''cfg'', ''rain.yaml'']]\<rparr>"

definition once_first :: world where
  "once_first =
     \<lparr>nodes = demo_nodes @
        [([''out''], Dir), ([''out'', ''rain''], Dir), ([''out'', ''rain'', ''g''], Dir),
         ([''out'', ''rain'', ''g'', ''a_rain.png''], File ''PNGA'')],
      log = [Sleep 2, Call, Load [''cfg'', ''rain.yaml'']]\<rparr>"

definition once_raised :: world where
  "once_raised =
     \<lparr>nodes = demo_nodes @
        [([''out''], Dir), ([''out'', ''rain''], Dir), ([''out'', ''rain'', ''g''], Dir),
         ([''out'', ''rain'', ''g'', ''a_rain.png''], File ''PNGA'')],
      log = [Call, Sleep 4, Call, Sleep 2, Call, Sleep 2, Call,
             Load [''cfg'', ''rain.yaml'']]\<rparr>"

text \<open>
  Three scenes with one frame of one variant each, and a video provider that accepts the
  first job and refuses every later one.
\<close>

definition three_scene_nodes :: "(path \<times> node) list" where
  "three_scene_nodes =
     [([''in''], Dir),
      ([''in'', ''s1''], Dir), ([''in'', ''s1'', ''rain''], Dir),
      ([''in'', ''s1'', ''rain'', ''0000.png''], File ''F0''),
      ([''in'', ''s2''], Dir), ([''in'', ''s2'', ''rain''], Dir),
      ([''in'', ''s2'', ''rain'', ''0000.png''], File ''G0''),
      ([''in'', ''s3''], Dir), ([''in'', ''s3'', ''rain''], Dir),
      ([''in'', ''s3'', ''rain'', ''0000.png''], File ''H0''),
      ([''cfg''], Dir), ([''cfg'', ''rain.yaml''], File ''RAIN'')]"

definition three_scene_world :: world where
  "three_scene_world = \<lparr>nodes = three_scene_nodes, log = []\<rparr>"

definition one_job_env :: env where
  "one_job_env =
     good_env\<lparr>generate_videos :=
                (\<lambda>k req. if k = 0 then Inr pending else Inl (ProviderError ''503''))\<rparr>"

text \<open>
  The worlds of the batch over the three scenes with that provider: after the video of the
  first scene is written, and when the job of the second scene is refused.
\<close>

definition one_job_first :: world where
  "one_job_first =
     \<lparr>nodes = three_scene_nodes @
        [([''out''], Dir), ([''out'', ''s1''], Dir), ([''out'', ''s1'', ''rain''], Dir),
         ([''out'', ''s1'', ''rain'', ''s1_rain.mp4''], File ''MP4'')],
      log = [Poll, Sleep 10, Poll, Sleep 10, Poll, Sleep 10, Submit,
             Load [''cfg'', ''rain.yaml''], Pick 1]\<rparr>"

definition one_job_raised :: world where
  "one_job_raised =
     \<lparr>nodes = three_scene_nodes @
        [([''out''], Dir), ([''out'', ''s1''], Dir), ([''out'', ''s1'', ''rain''], Dir),
         ([''out'', ''s1'', ''rain'', ''s1_rain.mp4''], File ''MP4''),
         ([''out'', ''s2''], Dir), ([''out'', ''s2'', ''rain''], Dir)],
      log = [Submit, Load [''cfg'', ''rain.yaml''], Pick 1,
             Poll, Sleep 10, Poll, Sleep 10, Poll, Sleep 10, Submit,
             Load [''cfg'', ''rain.yaml''], Pick 1]\<rparr>"

section \<open>Properties of the reference-frame selection\<close>

text \<open>\<open>contains\<close> is the substring test.\<close>

lemma contains_iff: "contains sub s \<longleftrightarrow> (\<exists>pre post. s = pre @ sub @ post)"
proof (induction s)
  case Nil
  then show ?case by auto
next
  case (Cons c cs)
  show ?case
  proof
    assume "contains sub (c # cs)"
    then consider "prefix sub (c # cs)" | "contains sub cs" by auto
    then show "\<exists>pre post. c # cs = pre @ sub @ post"
    proof cases
      case 1
      then obtain post where "c # cs = sub @ post" by (auto simp: prefix_def)
      then have "c # cs = [] @ sub @ post" by simp
      then show ?thesis by blast
    next
      case 2
      with Cons obtain pre post where "cs = pre @ sub @ post" by blast
      then have "c # cs = (c # pre) @ sub @ post" by simp
      then show ?thesis by blast
    qed
  next
    assume "\<exists>pre post. c # cs = pre @ sub @ post"
    then obtain pre post where e: "c # cs = pre @ sub @ post" by blast
    show "contains sub (c # cs)"
    proof (cases pre)
      case Nil
      with e have "prefix sub (c # cs)" by (simp add: prefix_def)
      then show ?thesis by simp
    next
      case (Cons a pre')
      with e have "cs = pre' @ sub @ post" by simp
      with Cons.IH have "contains sub cs" by blast
      then show ?thesis by simp
    qed
  qed
qed

lemma find_rev_Some:
  assumes "find P (rev xs) = Some x"
  shows "\<exists>i<length xs. x = xs ! i \<and> P (xs ! i) \<and> (\<forall>j. i < j \<and> j < length xs \<longrightarrow> \<not> P (xs ! j))"
proof -
  from assms obtain k where k: "k < length xs" "P (rev xs ! k)" "x = rev xs ! k"
    "\<forall>j<k. \<not> P (rev xs ! j)"
    by (auto simp: find_Some_iff)
  let ?i = "length xs - Suc k"
  have i: "?i < length xs" using k(1) by simp
  have xi: "rev xs ! k = xs ! ?i" using k(1) by (simp add: rev_nth)
  have "\<not> P (xs ! j)" if "?i < j" "j < length xs" for j
  proof -
    have "length xs - Suc j < k" using that k(1) by arith
    then have "\<not> P (rev xs ! (length xs - Suc j))" using k(4) by blast
    moreover have "rev xs ! (length xs - Suc j) = xs ! j"
      using that by (simp add: rev_nth)
    ultimately show ?thesis by simp
  qed
  with i xi k show ?thesis by auto
qed

lemma sorted_hd_Min: "xs \<noteq> [] \<Longrightarrow> sorted xs \<Longrightarrow> hd xs = Min (set xs)"
  by (cases xs) (auto intro!: Min_eqI [symmetric])

lemma sorted_last_Max: "xs \<noteq> [] \<Longrightarrow> sorted xs \<Longrightarrow> last xs = Max (set xs)"
proof (induction xs rule: rev_induct)
  case Nil then show ?case by simp
next
  case (snoc x xs)
  then have "\<forall>y\<in>set xs. y \<le> x" by (auto simp: sorted_append)
  then show ?case by (auto intro!: Max_eqI [symmetric])
qed

text \<open>
  C2. For a non-empty sorted list of frames, \<open>pick_reference_frames\<close> returns as first
  frame the earliest frame whose stem contains \<^verbatim>\<open>0000\<close>, else the least frame, and as last
  frame the latest frame whose stem contains \<^verbatim>\<open>0008\<close> or, in any case of letters,
  \<^verbatim>\<open>last\<close>, else the greatest frame; for a single frame both are that frame. The three
  examples of the specification are evaluated.
\<close>

theorem pick_reference_frames_policy:
  "(frames \<noteq> [] \<and> sorted frames \<longrightarrow>
      (\<exists>first lst.
         pick_reference_frames frames = Inr (first, lst) \<and>
         (if \<exists>c\<in>set frames. has_0000 c
          then \<exists>i<length frames. first = frames ! i \<and> has_0000 (frames ! i) \<and>
                 (\<forall>j<i. \<not> has_0000 (frames ! j))
          else first = Min (set frames)) \<and>
         (if \<exists>c\<in>set frames. has_0008_or_last c
          then \<exists>i<length frames. lst = frames ! i \<and> has_0008_or_last (frames ! i) \<and>
                 (\<forall>j. i < j \<and> j < length frames \<longrightarrow> \<not> has_0008_or_last (frames ! j))
          else lst = Max (set frames)) \<and>
         (length frames = 1 \<longrightarrow> first = hd frames \<and> lst = hd frames)))
   \<and> pick_reference_frames [[''0000.png''], [''0003.png''], [''0008.png'']]
        = Inr ([''0000.png''], [''0008.png''])
   \<and> pick_reference_frames [[''a.png''], [''b.png'']] = Inr ([''a.png''], [''b.png''])
   \<and> pick_reference_frames [[''x.png'']] = Inr ([''x.png''], [''x.png''])"
proof (intro conjI impI)
  assume a: "frames \<noteq> [] \<and> sorted frames"
  define first where "first = (case find has_0000 frames of Some c \<Rightarrow> c | None \<Rightarrow> hd frames)"
  define lst0 where
    "lst0 = (case find has_0008_or_last (rev frames) of Some c \<Rightarrow> c | None \<Rightarrow> last frames)"
  define lst where "lst = (if 1 < length frames then lst0 else first)"
  have pick: "pick_reference_frames frames = Inr (first, lst)"
    using a by (simp add: pick_reference_frames_def first_def lst0_def lst_def Let_def)
  have f: "if \<exists>c\<in>set frames. has_0000 c
          then \<exists>i<length frames. first = frames ! i \<and> has_0000 (frames ! i) \<and>
                 (\<forall>j<i. \<not> has_0000 (frames ! j))
          else first = Min (set frames)"
  proof (cases "find has_0000 frames")
    case None
    then have "\<not> (\<exists>c\<in>set frames. has_0000 c)" by (auto simp: find_None_iff)
    moreover have "first = Min (set frames)"
      using None a by (simp add: first_def sorted_hd_Min)
    ultimately show ?thesis by simp
  next
    case (Some c)
    then obtain i where "i < length frames" "has_0000 (frames ! i)" "c = frames ! i"
      "\<forall>j<i. \<not> has_0000 (frames ! j)"
      by (auto simp: find_Some_iff)
    moreover have "first = c" using Some by (simp add: first_def)
    moreover have "\<exists>c\<in>set frames. has_0000 c"
      using calculation(1,2) nth_mem by blast
    ultimately show ?thesis by auto
  qed
  have l0: "if \<exists>c\<in>set frames. has_0008_or_last c
          then \<exists>i<length frames. lst0 = frames ! i \<and> has_0008_or_last (frames ! i) \<and>
                 (\<forall>j. i < j \<and> j < length frames \<longrightarrow> \<not> has_0008_or_last (frames ! j))
          else lst0 = Max (set frames)"
  proof (cases "find has_0008_or_last (rev frames)")
    case None
    then have "\<not> (\<exists>c\<in>set frames. has_0008_or_last c)" by (auto simp: find_None_iff)
    moreover have "lst0 = Max (set frames)"
      using None a by (simp add: lst0_def sorted_last_Max)
    ultimately show ?thesis by simp
  next
    case (Some c)
    from find_rev_Some [OF Some] obtain i where i: "i < length frames" "c = frames ! i"
      "has_0008_or_last (frames ! i)"
      "\<forall>j. i < j \<and> j < length frames \<longrightarrow> \<not> has_0008_or_last (frames ! j)"
      by blast
    moreover have "lst0 = c" using Some by (simp add: lst0_def)
    moreover have "\<exists>c\<in>set frames. has_0008_or_last c"
      using i(1,3) nth_mem by blast
    ultimately show ?thesis by auto
  qed
  have one: "first = hd frames \<and> lst = hd frames \<and> lst0 = hd frames" if "length frames = 1"
  proof -
    from that obtain x where x: "frames = [x]" by (cases frames) auto
    then show ?thesis
      by (auto simp: first_def lst_def lst0_def split: option.splits)
  qed
  have l: "if \<exists>c\<in>set frames. has_0008_or_last c
          then \<exists>i<length frames. lst = frames ! i \<and> has_0008_or_last (frames ! i) \<and>
                 (\<forall>j. i < j \<and> j < length frames \<longrightarrow> \<not> has_0008_or_last (frames ! j))
          else lst = Max (set frames)"
  proof (cases "1 < length frames")
    case True
    then show ?thesis using l0 by (simp add: lst_def)
  next
    case False
    with a have "length frames = 1" by (cases frames) auto
    with one have "lst = lst0" by simp
    then show ?thesis using l0 by simp
  qed
  from pick f l one show "\<exists>first lst.
         pick_reference_frames frames = Inr (first, lst) \<and>
         (if \<exists>c\<in>set frames. has_0000 c
          then \<exists>i<length frames. first = frames ! i \<and> has_0000 (frames ! i) \<and>
                 (\<forall>j<i. \<not> has_0000 (frames ! j))
          else first = Min (set frames)) \<and>
         (if \<exists>c\<in>set frames. has_0008_or_last c
          then \<exists>i<length frames. lst = frames ! i \<and> has_0008_or_last (frames ! i) \<and>
                 (\<forall>j. i < j \<and> j < length frames \<longrightarrow> \<not> has_0008_or_last (frames ! j))
          else lst = Max (set frames)) \<and>
         (length frames = 1 \<longrightarrow> first = hd frames \<and> lst = hd frames)"
    by blast
qed (simp_all add: pick_reference_frames_def has_0000_def has_0008_or_last_def stem_def
       path_name_def rfind_dot_def lower_def lower_char_def Let_def)


theorem pick_reference_frames_policy_witness:
  "[[''a.png''], [''b.png'']] \<noteq> [] \<and> sorted [[''a.png''], [''b.png'']] \<and>
   (\<exists>first lst. pick_reference_frames [[''a.png''], [''b.png'']] = Inr (first, lst) \<and>
      first = Min (set [[''a.png''], [''b.png'']]) \<and>
      lst = Max (set [[''a.png''], [''b.png'']]))"
proof -
  let ?fs = "[[''a.png''], [''b.png'']]"
  have h: "?fs \<noteq> [] \<and> sorted ?fs" by simp
  have n0: "\<not> (\<exists>c\<in>set ?fs. has_0000 c)"
    by (simp add: has_0000_def stem_def path_name_def rfind_dot_def)
  have n8: "\<not> (\<exists>c\<in>set ?fs. has_0008_or_last c)"
    by (simp add: has_0008_or_last_def stem_def path_name_def rfind_dot_def lower_def
        lower_char_def)
  from pick_reference_frames_policy [of ?fs] h
  obtain first lst where p: "pick_reference_frames ?fs = Inr (first, lst)"
    and f: "if \<exists>c\<in>set ?fs. has_0000 c
          then \<exists>i<length ?fs. first = ?fs ! i \<and> has_0000 (?fs ! i) \<and>
                 (\<forall>j<i. \<not> has_0000 (?fs ! j))
          else first = Min (set ?fs)"
    and l: "if \<exists>c\<in>set ?fs. has_0008_or_last c
          then \<exists>i<length ?fs. lst = ?fs ! i \<and> has_0008_or_last (?fs ! i) \<and>
                 (\<forall>j. i < j \<and> j < length ?fs \<longrightarrow> \<not> has_0008_or_last (?fs ! j))
          else lst = Max (set ?fs)"
    by blast
  from f n0 have "first = Min (set ?fs)" by (simp only: if_False)
  moreover from l n8 have "lst = Max (set ?fs)" by (simp only: if_False)
  ultimately show ?thesis using h p by blast
qed

section \<open>Basic facts\<close>

lemma sbind_simps [simp]:
  "sbind (Inl e, w) f = (Inl e, w)"
  "sbind (Inr v, w) f = f v w"
  by (simp_all add: sbind_def)

lemma ebind_simps [simp]:
  "ebind (Inl e) f = Inl e"
  "ebind (Inr v) f = f v"
  by (simp_all add: ebind_def)

lemma delay_of_pos: "0 < delay_of q"
  by (simp add: delay_of_def max_def)

lemma delay_of_inverse: "1 / 10 ^ 6 \<le> q \<Longrightarrow> delay_of q = 1 / q"
  by (simp add: delay_of_def max_def)

lemma ncalls_simps [simp]:
  "ncalls [] = 0"
  "ncalls (Call # l) = Suc (ncalls l)"
  "ncalls (Sleep d # l) = ncalls l"
  "ncalls (Load p # l) = ncalls l"
  "ncalls (Submit # l) = ncalls l"
  "ncalls (Poll # l) = ncalls l"
  "ncalls (Fetch # l) = ncalls l"
  "ncalls (Pick n # l) = ncalls l"
  by (simp_all add: ncalls_def)

lemma retry_range: "[1..<MAX_RETRIES + 1] = [1, 2, 3]"
  by (simp add: MAX_RETRIES_def upt_rec)

lemma node_at_log [simp]: "node_at (w\<lparr>log := l\<rparr>) p = node_at w p"
  by (simp add: node_at_def)

lemma is_dir_log [simp]: "is_dir (w\<lparr>log := l\<rparr>) p = is_dir w p"
  by (simp add: is_dir_def)

lemma is_file_log [simp]: "is_file (w\<lparr>log := l\<rparr>) p = is_file w p"
  by (simp add: is_file_def)

lemma path_exists_log [simp]: "path_exists (w\<lparr>log := l\<rparr>) p = path_exists w p"
  by (simp add: path_exists_def)

lemma sleep_ok: "0 \<le> d \<Longrightarrow> sleep d w = (Inr (), w\<lparr>log := Sleep d # log w\<rparr>)"
  by (simp add: sleep_def)

text \<open>The \<^verbatim>\<open>try\<close> block of the retry loop.\<close>

lemma try_block_fails:
  "edit E (ncalls (log w)) req = Inl e \<Longrightarrow>
   sbind (call_gemini_edit E req w) (write_bytes out) = (Inl e, w\<lparr>log := Call # log w\<rparr>)"
  by (simp add: call_gemini_edit_def)

lemma try_block_succeeds:
  "edit E (ncalls (log w)) req = Inr b \<Longrightarrow> \<not> is_dir w out \<Longrightarrow> is_dir w (parent out) \<Longrightarrow>
   sbind (call_gemini_edit E req w) (write_bytes out) =
     (Inr (), w\<lparr>log := Call # log w, nodes := AList.update out (File b) (nodes w)\<rparr>)"
  by (simp add: call_gemini_edit_def write_bytes_def)

lemma attempts_fail_fail_succeed:
  assumes "edit E (ncalls (log w)) req = Inl e1"
    and "edit E (ncalls (log w) + 1) req = Inl e2"
    and "edit E (ncalls (log w) + 2) req = Inr b"
    and "\<not> is_dir w out" and "is_dir w (parent out)" and "0 \<le> d"
  shows "attempts E req out d [1..<MAX_RETRIES + 1] w =
           (Inr (), w\<lparr>log := Call # Sleep (d * 2) # Call # Sleep (d * 1) # Call # log w,
                        nodes := AList.update out (File b) (nodes w)\<rparr>)"
proof -
  let ?w1 = "w\<lparr>log := Call # log w\<rparr>"
  let ?w2 = "w\<lparr>log := Sleep d # Call # log w\<rparr>"
  let ?w3 = "w\<lparr>log := Call # Sleep d # Call # log w\<rparr>"
  let ?w4 = "w\<lparr>log := Sleep (d * 2) # Call # Sleep d # Call # log w\<rparr>"
  have 1: "sbind (call_gemini_edit E req w) (write_bytes out) = (Inl e1, ?w1)"
    using assms(1) by (rule try_block_fails)
  have 2: "sbind (call_gemini_edit E req ?w2) (write_bytes out) = (Inl e2, ?w3)"
    using try_block_fails [of E ?w2 req e2 out] assms(2) by simp
  have 3: "sbind (call_gemini_edit E req ?w4) (write_bytes out) =
             (Inr (), w\<lparr>log := Call # Sleep (d * 2) # Call # Sleep d # Call # log w,
                        nodes := AList.update out (File b) (nodes w)\<rparr>)"
    using try_block_succeeds [of E ?w4 req b out] assms(3,4,5) by simp
  show ?thesis
    unfolding retry_range using assms(6) by (simp add: 1 2 3 MAX_RETRIES_def sleep_def)
qed

lemma attempts_all_fail:
  assumes "edit E (ncalls (log w)) req = Inl e1"
    and "edit E (ncalls (log w) + 1) req = Inl e2"
    and "edit E (ncalls (log w) + 2) req = Inl e3"
    and "0 \<le> d"
  shows "attempts E req out d [1..<MAX_RETRIES + 1] w =
           (Inl e3, w\<lparr>log := Call # Sleep (d * 2) # Call # Sleep (d * 1) # Call # log w\<rparr>)"
proof -
  let ?w1 = "w\<lparr>log := Call # log w\<rparr>"
  let ?w2 = "w\<lparr>log := Sleep d # Call # log w\<rparr>"
  let ?w3 = "w\<lparr>log := Call # Sleep d # Call # log w\<rparr>"
  let ?w4 = "w\<lparr>log := Sleep (d * 2) # Call # Sleep d # Call # log w\<rparr>"
  have 1: "sbind (call_gemini_edit E req w) (write_bytes out) = (Inl e1, ?w1)"
    using assms(1) by (rule try_block_fails)
  have 2: "sbind (call_gemini_edit E req ?w2) (write_bytes out) = (Inl e2, ?w3)"
    using try_block_fails [of E ?w2 req e2 out] assms(2) by simp
  have 3: "sbind (call_gemini_edit E req ?w4) (write_bytes out) =
             (Inl e3, w\<lparr>log := Call # Sleep (d * 2) # Call # Sleep d # Call # log w\<rparr>)"
    using try_block_fails [of E ?w4 req e3 out] assms(3) by simp
  show ?thesis
    unfolding retry_range using assms(4) by (simp add: 1 2 3 MAX_RETRIES_def sleep_def)
qed

text \<open>Whatever the provider does, each attempt of the list makes at most one call.\<close>

lemma write_bytes_log: "log (snd (write_bytes p b w)) = log w"
  by (simp add: write_bytes_def)

lemma try_block_calls:
  "ncalls (log (snd (sbind (call_gemini_edit E req w) (write_bytes out)))) = Suc (ncalls (log w))"
  by (cases "edit E (ncalls (log w)) req") (simp_all add: call_gemini_edit_def write_bytes_log)

lemma attempts_calls_le:
  "ncalls (log (snd (attempts E req out d ns w))) \<le> ncalls (log w) + length ns"
proof (induction ns arbitrary: w)
  case Nil
  then show ?case by simp
next
  case (Cons a ns)
  obtain r w1 where t: "sbind (call_gemini_edit E req w) (write_bytes out) = (r, w1)"
    by (cases "sbind (call_gemini_edit E req w) (write_bytes out)")
  have c: "ncalls (log w1) = Suc (ncalls (log w))"
    using try_block_calls [of E req w out] t by simp
  show ?case
  proof (cases r)
    case (Inr u)
    then show ?thesis using t c by simp
  next
    case (Inl exc)
    show ?thesis
    proof (cases "a = MAX_RETRIES")
      case True
      then show ?thesis using t c Inl by simp
    next
      case False
      show ?thesis
      proof (cases "d * real a < 0")
        case True
        then show ?thesis using t c Inl False by (simp add: sleep_def)
      next
        case n: False
        have "ncalls (log (snd (attempts E req out d ns (w1\<lparr>log := Sleep (d * real a) # log w1\<rparr>))))
                \<le> ncalls (log (w1\<lparr>log := Sleep (d * real a) # log w1\<rparr>)) + length ns"
          by (rule Cons.IH)
        then show ?thesis using t c Inl False n by (simp add: sleep_def)
      qed
    qed
  qed
qed

section \<open>The retry budget\<close>

lemma written_file:
  "\<not> is_dir w out \<Longrightarrow>
   read_bytes (w\<lparr>log := l, nodes := AList.update out (File b) (nodes w)\<rparr>) out = Inr b"
  by (auto simp: read_bytes_def node_at_def is_dir_def update_conv')

section \<open>Defaults of the configuration\<close>

lemma load_variants_nth:
  "load_variants E d items = Inr vs \<Longrightarrow>
   length vs = length items \<and> (\<forall>i<length items. load_variant E d (items ! i) = Inr (vs ! i))"
proof (induction items arbitrary: vs)
  case Nil
  then show ?case by simp
next
  case (Cons item items)
  from Cons.prems obtain v vs' where v: "load_variant E d item = Inr v"
    and vs': "load_variants E d items = Inr vs'" and vs: "vs = v # vs'"
    by (auto split: sum.splits)
  from Cons.IH [OF vs'] have ih: "length vs' = length items"
    "\<forall>i<length items. load_variant E d (items ! i) = Inr (vs' ! i)" by simp_all
  show ?case
  proof (intro conjI allI impI)
    show "length vs = length (item # items)" using ih(1) vs by simp
    fix i assume "i < length (item # items)"
    then show "load_variant E d ((item # items) ! i) = Inr (vs ! i)"
      using v ih(2) vs by (cases i) simp_all
  qed
qed

lemma load_variant_defaults:
  assumes "load_variant E d (YMap m) = Inr v"
  shows "(map_of m ''creativity'' = None \<longrightarrow> creativity v = 2 / 10) \<and>
         (map_of m ''fidelity'' = None \<longrightarrow> fidelity v = 7 / 10)"
  using assms
  by (auto simp: load_variant_def ebind_def yget_def split: sum.splits yaml.splits)

lemma load_config_defaults:
  assumes "load_yaml E w p = Inr (YMap m)" and "load_config E w p = Inr cfg"
  shows "(map_of m ''output_width'' = None \<longrightarrow> output_width cfg = 1024) \<and>
         (map_of m ''output_height'' = None \<longrightarrow> output_height cfg = 1024)"
  using assms
  by (auto simp: load_config_def ebind_def yget_def split: sum.splits)

lemma load_config_variants:
  assumes "load_yaml E w p = Inr (YMap m)" and "load_config E w p = Inr cfg"
    and "items_of (yget m ''variants'' (YList [])) = Inr items"
  shows "load_variants E (parent p) items = Inr (variants cfg)"
  using assms
  by (auto simp: load_config_def ebind_def split: sum.splits)

lemma pairs_load_config_defaults:
  assumes "load_yaml E w p = Inr (YMap m)" and "pairs_load_config E w p = Inr cfg"
  shows "(map_of m ''output_width'' = None \<longrightarrow> app_output_width cfg = 1344) \<and>
         (map_of m ''output_height'' = None \<longrightarrow> app_output_height cfg = 768)"
  using assms
  by (auto simp: pairs_load_config_def ebind_def yget_def split: sum.splits)

lemma pairs_load_config_variants:
  assumes "load_yaml E w p = Inr (YMap m)" and "pairs_load_config E w p = Inr cfg"
    and "items_of (yget m ''variants'' (YList [])) = Inr items"
  shows "load_variants E (parent p) items = Inr (app_variants cfg)"
  using assms
  by (auto simp: pairs_load_config_def ebind_def split: sum.splits)

lemma video_load_config_defaults:
  assumes "load_yaml E w p = Inr (YMap m)" and "video_load_config E w p = Inr cfg"
  shows "map_of m ''duration_seconds'' = None \<longrightarrow> duration_seconds cfg = 6"
  using assms
  by (auto simp: video_load_config_def ebind_def yget_def split: sum.splits)

lemma construct_job_config_duration:
  assumes "construct_job_config E batch_cfg key_path scene_name variant_cfg first last_opt
             prompt_text w = (Inr job_cfg, w1)"
    and "v_duration_seconds variant_cfg = YNull" and "defaults batch_cfg = YMap dm"
    and "map_of dm ''duration_seconds'' = None"
  shows "duration_seconds job_cfg = 6"
  using assms
  by (auto simp: construct_job_config_def ebind_def sbind_def defaults_get_def yget_def
      split: sum.splits prod.splits if_splits)

lemmas cfg_eval = load_config_def pairs_load_config_def video_load_config_def load_yaml_def
  read_bytes_def node_at_def cfg_world_def cfg_env_def good_env_def cfg_doc_def
  load_variant_def yitem_def yget_def is_absolute_def path_parts_def resolve_def parent_def
  optional_path_def upper_of_def strip_of_def lookup_reference_type_def upper_def upper_char_def
  strip_def is_space_def

lemmas job_eval = construct_job_config_def demo_batch_cfg_def demo_batch_variant_def
  defaults_get_def yget_def upper_of_def lookup_reference_type_def good_env_def upper_def
  upper_char_def output_dir_def job_output_path_def joinpath_def is_absolute_def path_parts_def
  mkdir_p_def video_world_def video_nodes_def is_file_def node_at_def add_dir_def prefixes_snoc

text \<open>
  C6 (as amended). A variant entry without \<^verbatim>\<open>creativity\<close> resolves to 0.2 and one without
  \<^verbatim>\<open>fidelity\<close> to 0.7, in both image scripts; a document without \<^verbatim>\<open>output_width\<close> and
  \<^verbatim>\<open>output_height\<close> resolves to 1344 by 768 in the folder script and to 1024 by 1024 in the
  pipeline script; a video job without a duration resolves to 6 seconds, in the single-job
  script and in the batch when neither the variant nor the defaults give one. The decimal
  literals are read as the rationals they denote.
\<close>

theorem config_defaults:
  "(load_variant E d (YMap m) = Inr v \<longrightarrow>
      (map_of m ''creativity'' = None \<longrightarrow> creativity v = 2 / 10) \<and>
      (map_of m ''fidelity'' = None \<longrightarrow> fidelity v = 7 / 10))
   \<and> (load_yaml E w p = Inr (YMap cm) \<and> pairs_load_config E w p = Inr app \<longrightarrow>
        (map_of cm ''output_width'' = None \<longrightarrow> app_output_width app = 1344) \<and>
        (map_of cm ''output_height'' = None \<longrightarrow> app_output_height app = 768) \<and>
        (\<forall>items. items_of (yget cm ''variants'' (YList [])) = Inr items \<longrightarrow>
           length (app_variants app) = length items \<and>
           (\<forall>i<length items. load_variant E (parent p) (items ! i) = Inr (app_variants app ! i))))
   \<and> (load_yaml E w p = Inr (YMap cm) \<and> load_config E w p = Inr cfg \<longrightarrow>
        (map_of cm ''output_width'' = None \<longrightarrow> output_width cfg = 1024) \<and>
        (map_of cm ''output_height'' = None \<longrightarrow> output_height cfg = 1024) \<and>
        (\<forall>items. items_of (yget cm ''variants'' (YList [])) = Inr items \<longrightarrow>
           length (variants cfg) = length items \<and>
           (\<forall>i<length items. load_variant E (parent p) (items ! i) = Inr (variants cfg ! i))))
   \<and> (load_yaml E w p = Inr (YMap cm) \<and> video_load_config E w p = Inr job \<longrightarrow>
        (map_of cm ''duration_seconds'' = None \<longrightarrow> duration_seconds job = 6))
   \<and> (construct_job_config E batch_cfg key_path scene_name variant_cfg first last_opt
          prompt_text w = (Inr job_cfg, w1) \<and>
        v_duration_seconds variant_cfg = YNull \<and> defaults batch_cfg = YMap dm \<and>
        map_of dm ''duration_seconds'' = None \<longrightarrow> duration_seconds job_cfg = 6)"
proof (intro conjI impI allI)
  assume "load_variant E d (YMap m) = Inr v"
  from load_variant_defaults [OF this]
  show "map_of m ''creativity'' = None \<Longrightarrow> creativity v = 2 / 10"
    and "map_of m ''fidelity'' = None \<Longrightarrow> fidelity v = 7 / 10" by simp_all
next
  assume a: "load_yaml E w p = Inr (YMap cm) \<and> pairs_load_config E w p = Inr app"
  then have y: "load_yaml E w p = Inr (YMap cm)" and c: "pairs_load_config E w p = Inr app"
    by simp_all
  from pairs_load_config_defaults [OF y c]
  show "map_of cm ''output_width'' = None \<Longrightarrow> app_output_width app = 1344"
    and "map_of cm ''output_height'' = None \<Longrightarrow> app_output_height app = 768" by simp_all
  fix items assume i: "items_of (yget cm ''variants'' (YList [])) = Inr items"
  from load_variants_nth [OF pairs_load_config_variants [OF y c i]]
  show "length (app_variants app) = length items" by simp
  fix i assume "i < length items"
  with load_variants_nth [OF pairs_load_config_variants [OF y c i]]
  show "load_variant E (parent p) (items ! i) = Inr (app_variants app ! i)" by simp
next
  assume a: "load_yaml E w p = Inr (YMap cm) \<and> load_config E w p = Inr cfg"
  then have y: "load_yaml E w p = Inr (YMap cm)" and c: "load_config E w p = Inr cfg"
    by simp_all
  from load_config_defaults [OF y c]
  show "map_of cm ''output_width'' = None \<Longrightarrow> output_width cfg = 1024"
    and "map_of cm ''output_height'' = None \<Longrightarrow> output_height cfg = 1024" by simp_all
  fix items assume i: "items_of (yget cm ''variants'' (YList [])) = Inr items"
  from load_variants_nth [OF load_config_variants [OF y c i]]
  show "length (variants cfg) = length items" by simp
  fix i assume "i < length items"
  with load_variants_nth [OF load_config_variants [OF y c i]]
  show "load_variant E (parent p) (items ! i) = Inr (variants cfg ! i)" by simp
next
  assume a: "load_yaml E w p = Inr (YMap cm) \<and> video_load_config E w p = Inr job"
    and n: "map_of cm ''duration_seconds'' = None"
  from a have y: "load_yaml E w p = Inr (YMap cm)" and c: "video_load_config E w p = Inr job"
    by simp_all
  from video_load_config_defaults [OF y c] n show "duration_seconds job = 6" by simp
next
  assume "construct_job_config E batch_cfg key_path scene_name variant_cfg first last_opt
          prompt_text w = (Inr job_cfg, w1) \<and>
        v_duration_seconds variant_cfg = YNull \<and> defaults batch_cfg = YMap dm \<and>
        map_of dm ''duration_seconds'' = None"
  then show "duration_seconds job_cfg = 6"
    using construct_job_config_duration by blast
qed

theorem config_defaults_witness:
  "\<exists>v app cfg job job_cfg w1.
     load_variant cfg_env [''cfg'']
       (YMap [(''name'', YStr ''rain''), (''prompt_file'', YStr ''rain.yaml'')]) = Inr v \<and>
     creativity v = 2 / 10 \<and> fidelity v = 7 / 10 \<and>
     pairs_load_config cfg_env cfg_world [''cfg'', ''run.yaml''] = Inr app \<and>
     app_output_width app = 1344 \<and> app_output_height app = 768 \<and>
     load_config cfg_env cfg_world [''cfg'', ''run.yaml''] = Inr cfg \<and>
     output_width cfg = 1024 \<and> output_height cfg = 1024 \<and>
     video_load_config cfg_env cfg_world [''cfg'', ''run.yaml''] = Inr job \<and>
     duration_seconds job = 6 \<and>
     construct_job_config good_env demo_batch_cfg None ''s1'' demo_batch_variant
       [''in'', ''s1'', ''rain'', ''0000.png''] (Some [''in'', ''s1'', ''rain'', ''0008.png''])
       ''a ride'' video_world = (Inr job_cfg, w1) \<and>
     duration_seconds job_cfg = 6"
proof -
  let ?m = "[(''name'', YStr ''rain''), (''prompt_file'', YStr ''rain.yaml'')]"
  let ?p = "[''cfg'', ''run.yaml'']"
  let ?cm = "[(''input_root'', YStr ''in''), (''output_root'', YStr ''out''),
           (''output_path'', YStr ''out/clip.mp4''), (''prompt'', YStr ''a ride''),
           (''variants'',
            YList [YMap [(''name'', YStr ''rain''), (''prompt_file'', YStr ''rain.yaml'')]])]"
  obtain v where v: "load_variant cfg_env [''cfg''] (YMap ?m) = Inr v"
    by (simp add: cfg_eval)
  obtain app where app: "pairs_load_config cfg_env cfg_world ?p = Inr app"
    by (simp add: cfg_eval)
  obtain cfg where cfg: "load_config cfg_env cfg_world ?p = Inr cfg"
    by (simp add: cfg_eval)
  obtain job where job: "video_load_config cfg_env cfg_world ?p = Inr job"
    by (simp add: cfg_eval)
  obtain job_cfg w1 where j: "construct_job_config good_env demo_batch_cfg None ''s1''
       demo_batch_variant [''in'', ''s1'', ''rain'', ''0000.png'']
       (Some [''in'', ''s1'', ''rain'', ''0008.png'']) ''a ride'' video_world = (Inr job_cfg, w1)"
    by (simp add: job_eval)
  have y: "load_yaml cfg_env cfg_world ?p = Inr (YMap ?cm)"
    by (simp add: cfg_eval)
  have n: "map_of ?m ''creativity'' = None" "map_of ?m ''fidelity'' = None"
    "map_of ?cm ''output_width'' = None" "map_of ?cm ''output_height'' = None"
    "map_of ?cm ''duration_seconds'' = None"
    by simp_all
  have b: "v_duration_seconds demo_batch_variant = YNull" "defaults demo_batch_cfg = YMap []"
    "map_of ([] :: (string \<times> yaml) list) ''duration_seconds'' = None"
    by (simp_all add: demo_batch_variant_def demo_batch_cfg_def)
  from config_defaults [where E = cfg_env and d = "[''cfg'']" and m = ?m and v = v
      and w = cfg_world and p = ?p and cm = ?cm and app = app and cfg = cfg and job = job]
    v app cfg job y n
  have 1: "creativity v = 2 / 10" "fidelity v = 7 / 10" "app_output_width app = 1344"
    "app_output_height app = 768" "output_width cfg = 1024" "output_height cfg = 1024"
    "duration_seconds job = 6"
    by blast+
  from config_defaults [where E = good_env and batch_cfg = demo_batch_cfg and key_path = None
      and scene_name = "''s1''" and variant_cfg = demo_batch_variant
      and first = "[''in'', ''s1'', ''rain'', ''0000.png'']"
      and last_opt = "Some [''in'', ''s1'', ''rain'', ''0008.png'']" and prompt_text = "''a ride''"
      and w = video_world and job_cfg = job_cfg and ?w1.0 = w1 and dm = "[]"] j b
  have 2: "duration_seconds job_cfg = 6" by blast
  from v app cfg job j 1 2 show ?thesis by blast
qed

text \<open>
  The pipeline script resolves a document without \<^verbatim>\<open>output_width\<close> and
  \<^verbatim>\<open>output_height\<close> to 1024 by 1024, not to 1344 by 768.
\<close>

theorem pipeline_raster_counterexample:
  "load_config cfg_env cfg_world [''cfg'', ''run.yaml''] =
     Inr \<lparr>input_root = [''cfg'', ''in''], output_root = [''cfg'', ''out''],
          api_key_path = None, model_name = YStr ''gemini-2.5-flash-image'',
          output_width = 1024, output_height = 1024,
          variants = [\<lparr>name = ''rain'', prompt_path = [''cfg'', ''rain.yaml''],
                       creativity = 2 / 10, fidelity = 7 / 10\<rparr>]\<rparr>"
  by (simp add: cfg_eval)

section \<open>The layout of the output\<close>

lemma split_on_no_sep: "c \<notin> set s \<Longrightarrow> split_on c s = [s]"
  by (induction s) auto

lemma joinpath_plain: "plain s \<Longrightarrow> joinpath base s = base @ [s]"
  by (cases s) (auto simp: plain_def joinpath_def is_absolute_def path_parts_def split_on_no_sep)

lemma stem_no_slash: "CHR ''/'' \<notin> set (path_name p) \<Longrightarrow> CHR ''/'' \<notin> set (stem p)"
  by (auto simp: stem_def split: option.splits dest: in_set_takeD)

lemma output_name_plain:
  assumes "CHR ''/'' \<notin> set st" and "plain n" and "CHR ''/'' \<notin> set ext"
  shows "plain (st @ ''_'' @ n @ ext)"
proof -
  have u: "CHR ''_'' \<in> set (st @ ''_'' @ n @ ext)" by simp
  have "st @ ''_'' @ n @ ext \<noteq> []" by simp
  moreover have "st @ ''_'' @ n @ ext \<noteq> ''.''"
  proof
    assume "st @ ''_'' @ n @ ext = ''.''"
    with u have "CHR ''_'' \<in> set ''.''" by (simp only:)
    then show False by simp
  qed
  moreover have "st @ ''_'' @ n @ ext \<noteq> ''..''"
  proof
    assume "st @ ''_'' @ n @ ext = ''..''"
    with u have "CHR ''_'' \<in> set ''..''" by (simp only:)
    then show False by simp
  qed
  moreover have "CHR ''/'' \<notin> set (st @ ''_'' @ n @ ext)"
    using assms by (simp add: plain_def)
  ultimately show ?thesis by (simp only: plain_def) blast
qed

lemma out_path_layout:
  assumes "plain (name variant)" and "CHR ''/'' \<notin> set (path_name relative)"
  shows "out_path cfg variant relative =
           output_root cfg @ [name variant] @ parent relative @
             [stem relative @ ''_'' @ name variant @ ''.png'']"
proof -
  have "plain (stem relative @ ''_'' @ name variant @ ''.png'')"
    using assms by (intro output_name_plain stem_no_slash) simp_all
  then show ?thesis
    using assms(1) by (simp add: out_path_def out_dir_def joinpath_plain)
qed

lemma job_output_path_layout:
  assumes "plain scene_name" and "plain (v_name variant_cfg)"
  shows "job_output_path batch_cfg scene_name variant_cfg =
           b_output_root batch_cfg @
             [scene_name, v_name variant_cfg, scene_name @ ''_'' @ v_name variant_cfg @ ''.mp4'']"
proof -
  have "plain (scene_name @ ''_'' @ v_name variant_cfg @ ''.mp4'')"
    using assms by (intro output_name_plain) (simp_all add: plain_def)
  then show ?thesis
    using assms by (simp add: job_output_path_def output_dir_def joinpath_plain)
qed

lemma pairs_out_path_layout:
  assumes "plain (path_name folder)" and "plain (name variant)"
    and "CHR ''/'' \<notin> set (path_name img_path)"
  shows "pairs_out_path folder variant img_path =
           OUTPUT_ROOT @
             [path_name folder, name variant, stem img_path @ ''_'' @ name variant @ ''.png'']"
proof -
  have "plain (stem img_path @ ''_'' @ name variant @ ''.png'')"
    using assms by (intro output_name_plain stem_no_slash) simp_all
  then show ?thesis
    using assms by (simp add: pairs_out_path_def joinpath_plain)
qed

lemma construct_job_config_output_path:
  "construct_job_config E batch_cfg key_path scene_name variant_cfg first last_opt prompt_text w
     = (Inr job_cfg, w1) \<Longrightarrow>
   output_path job_cfg = job_output_path batch_cfg scene_name variant_cfg"
  by (auto simp: construct_job_config_def ebind_def sbind_def
      split: sum.splits prod.splits if_splits)

section \<open>Facts about the file system\<close>

lemma map_of_add_dir:
  "map_of (add_dir q ns) k =
     (case map_of ns k of Some n \<Rightarrow> Some n | None \<Rightarrow> if k = q \<and> q \<noteq> [] then Some Dir else None)"
  by (auto simp: add_dir_def map_add_def split: option.splits)

lemma map_of_fold_add_dir:
  "map_of (fold add_dir ps ns) k =
     (case map_of ns k of
        Some n \<Rightarrow> Some n
      | None \<Rightarrow> if k \<in> set ps \<and> k \<noteq> [] then Some Dir else None)"
proof (induction ps arbitrary: ns)
  case Nil
  then show ?case by (simp split: option.splits)
next
  case (Cons q ps)
  show ?case
    by (auto simp add: Cons.IH map_of_add_dir split: option.splits)
qed

lemma mkdir_p_Inr:
  "mkdir_p d w = (Inr u, w1) \<longleftrightarrow>
     \<not> list_ex (is_file w) (prefixes d) \<and> w1 = w\<lparr>nodes := fold add_dir (prefixes d) (nodes w)\<rparr>"
  by (auto simp: mkdir_p_def)

lemma node_at_mkdir:
  "node_at (w\<lparr>nodes := fold add_dir ps (nodes w)\<rparr>) k =
     (case node_at w k of Some n \<Rightarrow> Some n | None \<Rightarrow> if k \<in> set ps then Some Dir else None)"
  by (simp add: node_at_def map_of_fold_add_dir split: option.splits)

lemma mkdir_p_is_dir:
  assumes "mkdir_p d w = (Inr u, w1)" and "q \<in> set (prefixes d)"
  shows "is_dir w1 q"
proof -
  from assms(1) have nf: "\<not> list_ex (is_file w) (prefixes d)"
    and w1: "w1 = w\<lparr>nodes := fold add_dir (prefixes d) (nodes w)\<rparr>"
    by (simp_all add: mkdir_p_Inr)
  from nf assms(2) have "\<not> is_file w q" by (auto simp: list_ex_iff)
  then have "node_at w q = None \<or> node_at w q = Some Dir"
    by (auto simp: is_file_def split: option.splits node.splits)
  then show ?thesis
    using assms(2) by (auto simp: w1 is_dir_def node_at_mkdir)
qed

lemma mkdir_p_log: "log (snd (mkdir_p d w)) = log w"
  by (simp add: mkdir_p_def)

lemma mkdir_p_keeps:
  assumes "mkdir_p d w = (Inr u, w1)" and "k \<notin> set (prefixes d)"
  shows "node_at w1 k = node_at w k"
  using assms by (auto simp: mkdir_p_Inr node_at_mkdir split: option.splits)

lemma not_prefix_of_parent: "p \<noteq> [] \<Longrightarrow> p \<notin> set (prefixes (parent p))"
proof
  assume "p \<noteq> []" and "p \<in> set (prefixes (parent p))"
  then have "prefix p (butlast p)" by (simp add: parent_def in_set_prefixes)
  then have "length p \<le> length (butlast p)" by (rule prefix_length_le)
  with \<open>p \<noteq> []\<close> show False by (cases p rule: rev_cases) simp_all
qed

lemma parent_in_prefixes: "d \<in> set (prefixes d)"
  by (simp add: in_set_prefixes)

text \<open>Creating the parent directory and then writing the file.\<close>

lemma mkdir_then_write:
  assumes "\<not> list_ex (is_file w) (prefixes (parent p))" and "\<not> is_dir w p"
  shows "sbind (mkdir_p (parent p) w) (\<lambda>u. write_bytes p b) =
           (Inr (), w\<lparr>nodes := AList.update p (File b)
                                   (fold add_dir (prefixes (parent p)) (nodes w))\<rparr>)"
    and "read_bytes (w\<lparr>nodes := AList.update p (File b)
                                   (fold add_dir (prefixes (parent p)) (nodes w))\<rparr>) p = Inr b"
proof -
  let ?w1 = "w\<lparr>nodes := fold add_dir (prefixes (parent p)) (nodes w)\<rparr>"
  have m: "mkdir_p (parent p) w = (Inr (), ?w1)"
    using assms(1) by (simp add: mkdir_p_Inr)
  have pd: "is_dir ?w1 (parent p)"
    by (rule mkdir_p_is_dir [OF m parent_in_prefixes])
  have ne: "p \<noteq> []" using assms(2) by (auto simp: is_dir_def node_at_def)
  have "node_at ?w1 p = node_at w p"
    by (rule mkdir_p_keeps [OF m not_prefix_of_parent [OF ne]])
  then have nd: "\<not> is_dir ?w1 p" using assms(2) by (simp add: is_dir_def)
  show "sbind (mkdir_p (parent p) w) (\<lambda>u. write_bytes p b) =
           (Inr (), w\<lparr>nodes := AList.update p (File b)
                                   (fold add_dir (prefixes (parent p)) (nodes w))\<rparr>)"
    using pd nd by (simp add: m write_bytes_def)
  show "read_bytes (w\<lparr>nodes := AList.update p (File b)
                                   (fold add_dir (prefixes (parent p)) (nodes w))\<rparr>) p = Inr b"
    using ne by (simp add: read_bytes_def node_at_def update_conv')
qed

section \<open>The poller\<close>

lemma npolls_simps [simp]:
  "npolls [] = 0"
  "npolls (Poll # l) = Suc (npolls l)"
  "npolls (Call # l) = npolls l"
  "npolls (Sleep d # l) = npolls l"
  "npolls (Load p # l) = npolls l"
  "npolls (Submit # l) = npolls l"
  "npolls (Fetch # l) = npolls l"
  "npolls (Pick n # l) = npolls l"
  by (simp_all add: npolls_def)

lemma npolls_append [simp]: "npolls (l @ l') = npolls l + npolls l'"
  by (simp add: npolls_def)

lemma npolls_rounds [simp]: "npolls (concat (replicate n [Poll, Sleep d])) = n"
  by (induction n) simp_all

lemma rounds_shift:
  "concat (replicate n [Poll, Sleep d]) @ Poll # Sleep d # l =
   Poll # Sleep d # concat (replicate n [Poll, Sleep d]) @ l"
  by (induction n) simp_all

lemma poll_once_ok:
  "0 \<le> interval \<Longrightarrow> operations_get E (npolls (log w)) operation = Inr operation1 \<Longrightarrow>
   poll_once E interval operation w = (Inr operation1, w\<lparr>log := Poll # Sleep interval # log w\<rparr>)"
  by (simp add: poll_once_def sleep_def)

text \<open>
  The loop ends at the first answer that is done: after \<open>n\<close> rounds when the submitted
  operation and the first \<open>n - 1\<close> answers are not done and the \<open>n\<close>-th is. Each round is a
  sleep followed by one status query.
\<close>

lemma poll_loop_rounds:
  assumes "0 \<le> interval"
    and "\<forall>i<n. \<not> op_done (ops i) \<and>
           operations_get E (npolls (log w) + i) (ops i) = Inr (ops (Suc i))"
    and "op_done (ops n)"
  shows "poll_loop E interval (ops 0) w =
           Some (Inr (ops n), w\<lparr>log := concat (replicate n [Poll, Sleep interval]) @ log w\<rparr>)"
  using assms(2,3)
proof (induction n arbitrary: ops w)
  case 0
  then show ?case by (subst poll_loop.simps) simp
next
  case (Suc n)
  let ?w1 = "w\<lparr>log := Poll # Sleep interval # log w\<rparr>"
  from Suc.prems(1) have nd: "\<not> op_done (ops 0)"
    and g: "operations_get E (npolls (log w)) (ops 0) = Inr (ops (Suc 0))"
    by auto
  have step: "poll_once E interval (ops 0) w = (Inr (ops (Suc 0)), ?w1)"
    by (rule poll_once_ok [OF assms(1) g])
  have "\<forall>i<n. \<not> op_done ((ops \<circ> Suc) i) \<and>
           operations_get E (npolls (log ?w1) + i) ((ops \<circ> Suc) i) = Inr ((ops \<circ> Suc) (Suc i))"
    using Suc.prems(1) by auto
  moreover have "op_done ((ops \<circ> Suc) n)" using Suc.prems(2) by simp
  ultimately have ih: "poll_loop E interval ((ops \<circ> Suc) 0) ?w1 =
      Some (Inr ((ops \<circ> Suc) n),
            ?w1\<lparr>log := concat (replicate n [Poll, Sleep interval]) @ log ?w1\<rparr>)"
    by (rule Suc.IH)
  show ?case
    by (subst poll_loop.simps) (use nd step ih in \<open>simp add: rounds_shift\<close>)
qed

lemma three_rounds:
  assumes "0 \<le> interval"
    and "\<not> op_done op0" and "operations_get E (npolls (log w)) op0 = Inr op1"
    and "\<not> op_done op1" and "operations_get E (npolls (log w) + 1) op1 = Inr op2"
    and "\<not> op_done op2" and "operations_get E (npolls (log w) + 2) op2 = Inr op3"
    and "op_done op3"
  shows "poll_loop E interval op0 w =
           Some (Inr op3, w\<lparr>log := Poll # Sleep interval # Poll # Sleep interval #
                                   Poll # Sleep interval # log w\<rparr>)"
proof -
  define ops where "ops = (\<lambda>i::nat. if i = 0 then op0 else if i = 1 then op1
                                     else if i = 2 then op2 else op3)"
  have "\<forall>i<3. \<not> op_done (ops i) \<and>
           operations_get E (npolls (log w) + i) (ops i) = Inr (ops (Suc i))"
  proof (intro allI impI)
    fix i :: nat assume "i < 3"
    then consider "i = 0" | "i = 1" | "i = 2" by arith
    then show "\<not> op_done (ops i) \<and>
           operations_get E (npolls (log w) + i) (ops i) = Inr (ops (Suc i))"
      using assms by cases (simp_all add: ops_def)
  qed
  moreover have "op_done (ops 3)" using assms(8) by (simp add: ops_def)
  ultimately have "poll_loop E interval (ops 0) w =
           Some (Inr (ops 3), w\<lparr>log := concat (replicate 3 [Poll, Sleep interval]) @ log w\<rparr>)"
    by (rule poll_loop_rounds [OF assms(1)])
  then show ?thesis by (simp add: ops_def numeral_3_eq_3)
qed

lemma save_inline_bytes:
  assumes "op_error operation = None" and "op_result operation = Some (Some v # vs)"
    and "video_bytes v = Some x" and "x \<noteq> []"
    and "\<not> list_ex (is_file w) (prefixes (parent (output_path cfg)))"
    and "\<not> is_dir w (output_path cfg)"
  shows "save_result E cfg api_key operation w =
           (Inr (output_path cfg),
            w\<lparr>nodes := AList.update (output_path cfg) (File x)
                          (fold add_dir (prefixes (parent (output_path cfg))) (nodes w))\<rparr>)"
proof -
  have m: "mkdir_p (parent (output_path cfg)) w =
      (Inr (), w\<lparr>nodes := fold add_dir (prefixes (parent (output_path cfg))) (nodes w)\<rparr>)"
    using assms(5) by (simp add: mkdir_p_Inr)
  have "sbind (mkdir_p (parent (output_path cfg)) w) (\<lambda>u. write_bytes (output_path cfg) x) =
           (Inr (), w\<lparr>nodes := AList.update (output_path cfg) (File x)
                          (fold add_dir (prefixes (parent (output_path cfg))) (nodes w))\<rparr>)"
    by (rule mkdir_then_write(1) [OF assms(5,6)])
  then have "write_bytes (output_path cfg) x
      (w\<lparr>nodes := fold add_dir (prefixes (parent (output_path cfg))) (nodes w)\<rparr>) =
           (Inr (), w\<lparr>nodes := AList.update (output_path cfg) (File x)
                          (fold add_dir (prefixes (parent (output_path cfg))) (nodes w))\<rparr>)"
    by (simp add: m)
  then show ?thesis
    using assms(1-4) by (simp add: save_result_def m)
qed

text \<open>
  C8 (as amended). With a poll interval that is not negative, the poller sleeps and
  queries the status while the operation is not done and stops at the first answer that is
  done: \<open>n\<close> rounds when the first \<open>n - 1\<close> answers are not done and the \<open>n\<close>-th is. For an
  operation not done on the first two queries and done, without error, with inline bytes
  \<open>x\<close> that are not empty on the third, the job makes exactly three status queries and the
  output file holds \<open>x\<close>.
\<close>

theorem poller_terminates:
  "(0 \<le> interval \<and>
    (\<forall>i<n. \<not> op_done (ops i) \<and>
       operations_get E (npolls (log w) + i) (ops i) = Inr (ops (Suc i))) \<and>
    op_done (ops n) \<longrightarrow>
      poll_loop E interval (ops 0) w =
        Some (Inr (ops n), w\<lparr>log := concat (replicate n [Poll, Sleep interval]) @ log w\<rparr>))
   \<and> (0 \<le> poll_interval_seconds cfg \<and>
      prepare_job E cfg w = Inr (api_key, request) \<and>
      generate_videos E (nsubmits (log w)) request = Inr op0 \<and>
      \<not> op_done op0 \<and> operations_get E (npolls (log w)) op0 = Inr op1 \<and>
      \<not> op_done op1 \<and> operations_get E (npolls (log w) + 1) op1 = Inr op2 \<and>
      \<not> op_done op2 \<and> operations_get E (npolls (log w) + 2) op2 = Inr op3 \<and>
      op_done op3 \<and> op_error op3 = None \<and> op_result op3 = Some (Some v # vs) \<and>
      video_bytes v = Some x \<and> x \<noteq> [] \<and>
      \<not> list_ex (is_file w) (prefixes (parent (output_path cfg))) \<and>
      \<not> is_dir w (output_path cfg) \<longrightarrow>
        (\<exists>w1. run_generation E cfg w = Some (Inr (output_path cfg), w1) \<and>
              npolls (log w1) = npolls (log w) + 3 \<and>
              log w1 = Poll # Sleep (poll_interval_seconds cfg) #
                       Poll # Sleep (poll_interval_seconds cfg) #
                       Poll # Sleep (poll_interval_seconds cfg) # Submit # log w \<and>
              read_bytes w1 (output_path cfg) = Inr x))"
proof (intro conjI impI)
  assume "0 \<le> interval \<and>
    (\<forall>i<n. \<not> op_done (ops i) \<and>
       operations_get E (npolls (log w) + i) (ops i) = Inr (ops (Suc i))) \<and>
    op_done (ops n)"
  then show "poll_loop E interval (ops 0) w =
        Some (Inr (ops n), w\<lparr>log := concat (replicate n [Poll, Sleep interval]) @ log w\<rparr>)"
    using poll_loop_rounds by blast
next
  assume a: "0 \<le> poll_interval_seconds cfg \<and>
      prepare_job E cfg w = Inr (api_key, request) \<and>
      generate_videos E (nsubmits (log w)) request = Inr op0 \<and>
      \<not> op_done op0 \<and> operations_get E (npolls (log w)) op0 = Inr op1 \<and>
      \<not> op_done op1 \<and> operations_get E (npolls (log w) + 1) op1 = Inr op2 \<and>
      \<not> op_done op2 \<and> operations_get E (npolls (log w) + 2) op2 = Inr op3 \<and>
      op_done op3 \<and> op_error op3 = None \<and> op_result op3 = Some (Some v # vs) \<and>
      video_bytes v = Some x \<and> x \<noteq> [] \<and>
      \<not> list_ex (is_file w) (prefixes (parent (output_path cfg))) \<and>
      \<not> is_dir w (output_path cfg)"
  let ?i = "poll_interval_seconds cfg"
  let ?w0 = "w\<lparr>log := Submit # log w\<rparr>"
  let ?w1 = "w\<lparr>log := Poll # Sleep ?i # Poll # Sleep ?i # Poll # Sleep ?i # Submit # log w\<rparr>"
  let ?w2 = "w\<lparr>log := Poll # Sleep ?i # Poll # Sleep ?i # Poll # Sleep ?i # Submit # log w,
               nodes := AList.update (output_path cfg) (File x)
                          (fold add_dir (prefixes (parent (output_path cfg))) (nodes w))\<rparr>"
  from a have i: "0 \<le> ?i"
    and p0: "\<not> op_done op0" "operations_get E (npolls (log ?w0)) op0 = Inr op1"
    and p1: "\<not> op_done op1" "operations_get E (npolls (log ?w0) + 1) op1 = Inr op2"
    and p2: "\<not> op_done op2" "operations_get E (npolls (log ?w0) + 2) op2 = Inr op3"
    and p3: "op_done op3"
    and r: "op_error op3 = None" "op_result op3 = Some (Some v # vs)"
      "video_bytes v = Some x" "x \<noteq> []"
    and f: "\<not> list_ex (is_file ?w1) (prefixes (parent (output_path cfg)))"
      "\<not> is_dir ?w1 (output_path cfg)"
    and pg: "prepare_job E cfg w = Inr (api_key, request)"
      "generate_videos E (nsubmits (log w)) request = Inr op0"
    by (simp_all add: list_ex_iff)
  have loop: "poll_loop E ?i op0 ?w0 = Some (Inr op3, ?w1)"
    using three_rounds [OF i p0 p1 p2 p3] by simp
  have save: "save_result E cfg api_key op3 ?w1 = (Inr (output_path cfg), ?w2)"
    using save_inline_bytes [OF r f] by simp
  have run: "run_generation E cfg w = Some (Inr (output_path cfg), ?w2)"
    by (simp add: run_generation_def pg loop save)
  have rd: "read_bytes ?w2 (output_path cfg) = Inr x"
    using mkdir_then_write(2) [OF f, of x] by simp
  show "\<exists>w1. run_generation E cfg w = Some (Inr (output_path cfg), w1) \<and>
              npolls (log w1) = npolls (log w) + 3 \<and>
              log w1 = Poll # Sleep ?i # Poll # Sleep ?i # Poll # Sleep ?i # Submit # log w \<and>
              read_bytes w1 (output_path cfg) = Inr x"
    using run rd by (intro exI [of _ ?w2]) simp
qed

lemmas job_prep = prepare_job_def resolve_api_key_def read_optional_def read_image_bytes_def
  read_bytes_def path_exists_def node_at_def demo_job_def video_world_def video_nodes_def
  build_request_def

theorem poller_terminates_witness:
  "\<exists>w1. run_generation good_env demo_job video_world
          = Some (Inr [''out'', ''s1'', ''rain'', ''s1_rain.mp4''], w1) \<and>
        npolls (log w1) = 3 \<and>
        log w1 = [Poll, Sleep 10, Poll, Sleep 10, Poll, Sleep 10, Submit] \<and>
        read_bytes w1 [''out'', ''s1'', ''rain'', ''s1_rain.mp4''] = Inr ''MP4''"
proof -
  obtain api_key request where p: "prepare_job good_env demo_job video_world = Inr (api_key, request)"
    by (simp add: job_prep good_env_def)
  have h: "0 \<le> poll_interval_seconds demo_job \<and>
      prepare_job good_env demo_job video_world = Inr (api_key, request) \<and>
      generate_videos good_env (nsubmits (log video_world)) request = Inr pending \<and>
      \<not> op_done pending \<and> operations_get good_env (npolls (log video_world)) pending = Inr pending \<and>
      \<not> op_done pending \<and>
      operations_get good_env (npolls (log video_world) + 1) pending = Inr pending \<and>
      \<not> op_done pending \<and>
      operations_get good_env (npolls (log video_world) + 2) pending = Inr (finished ''MP4'') \<and>
      op_done (finished ''MP4'') \<and> op_error (finished ''MP4'') = None \<and>
      op_result (finished ''MP4'') = Some (Some \<lparr>video_bytes = Some ''MP4'', uri = None\<rparr> # []) \<and>
      video_bytes \<lparr>video_bytes = Some ''MP4'', uri = None\<rparr> = Some ''MP4'' \<and> ''MP4'' \<noteq> [] \<and>
      \<not> list_ex (is_file video_world) (prefixes (parent (output_path demo_job))) \<and>
      \<not> is_dir video_world (output_path demo_job)"
    using p
    by (simp add: good_env_def pending_def finished_def demo_job_def video_world_def
        video_nodes_def is_file_def is_dir_def node_at_def parent_def prefixes_snoc)
  from poller_terminates [where cfg = demo_job and E = good_env and w = video_world
      and api_key = api_key and request = request and ?op0.0 = pending and ?op1.0 = pending
      and ?op2.0 = pending and ?op3.0 = "finished ''MP4''"
      and v = "\<lparr>video_bytes = Some ''MP4'', uri = None\<rparr>" and vs = "[]" and x = "''MP4''"] h
  obtain w1 where "run_generation good_env demo_job video_world
          = Some (Inr (output_path demo_job), w1)"
    "npolls (log w1) = npolls (log video_world) + 3"
    "log w1 = Poll # Sleep (poll_interval_seconds demo_job) #
                       Poll # Sleep (poll_interval_seconds demo_job) #
                       Poll # Sleep (poll_interval_seconds demo_job) # Submit # log video_world"
    "read_bytes w1 (output_path demo_job) = Inr ''MP4''"
    by blast
  then show ?thesis
    by (intro exI [of _ w1]) (simp add: demo_job_def video_world_def)
qed

text \<open>
  A third answer that is done with an empty inline payload and no URI: three status
  queries are made, the job raises and no output file is written.
\<close>

theorem empty_payload_counterexample:
  "run_generation empty_payload_env demo_job video_world =
     Some (Inl (RuntimeError ''Video response missing data and URI''),
           \<lparr>nodes = video_nodes,
            log = [Poll, Sleep 10, Poll, Sleep 10, Poll, Sleep 10, Submit]\<rparr>)"
proof -
  obtain api_key request where p:
    "prepare_job empty_payload_env demo_job video_world = Inr (api_key, request)"
    by (simp add: job_prep empty_payload_env_def good_env_def)
  have g: "generate_videos empty_payload_env (nsubmits (log video_world)) request = Inr pending"
    by (simp add: empty_payload_env_def good_env_def)
  have i: "poll_interval_seconds demo_job = 10" by (simp add: demo_job_def)
  let ?w0 = "video_world\<lparr>log := Submit # log video_world\<rparr>"
  let ?w1 = "video_world\<lparr>log := Poll # Sleep 10 # Poll # Sleep 10 # Poll # Sleep 10 #
                                   Submit # log video_world\<rparr>"
  have "poll_loop empty_payload_env 10 pending ?w0 =
      Some (Inr (finished []),
            ?w0\<lparr>log := Poll # Sleep 10 # Poll # Sleep 10 # Poll # Sleep 10 # log ?w0\<rparr>)"
    by (rule three_rounds [where ?op1.0 = pending and ?op2.0 = pending])
      (simp_all add: empty_payload_env_def good_env_def pending_def finished_def
        video_world_def)
  then have loop: "poll_loop empty_payload_env 10 pending ?w0 = Some (Inr (finished []), ?w1)"
    by simp
  have save: "save_result empty_payload_env demo_job api_key (finished []) ?w1 =
      (Inl (RuntimeError ''Video response missing data and URI''), ?w1)"
    by (simp add: save_result_def finished_def pending_def)
  have "run_generation empty_payload_env demo_job video_world =
      Some (Inl (RuntimeError ''Video response missing data and URI''), ?w1)"
    by (simp add: run_generation_def p g i loop save)
  then show ?thesis by (simp add: video_world_def)
qed

section \<open>Runs of the pipeline on the example inputs\<close>

lemma retry_list: "[Suc 0..<4] = [Suc 0, 2, 3]"
  by (simp add: upt_rec)

lemma good_env_fields:
  "api_key_env good_env = Some ''key''"
  "yaml_load good_env b = Inr demo_doc"
  "edit good_env k req = Inr (''PNG'' @ req_image req)"
  by (simp_all add: good_env_def)

lemma failing_env_fields:
  "api_key_env failing_env = Some ''key''"
  "yaml_load failing_env b = Inr demo_doc"
  "edit failing_env k req = Inl (ProviderError ''quota'')"
  by (simp_all add: failing_env_def good_env_def)

lemmas run_eval = process_images_def resolve_api_key_def get_template_def
  load_prompt_template_def load_yaml_def str_field_def yitem_def build_prompt_def
  process_image_def relative_to_def out_dir_def out_path_def call_gemini_edit_def
  MAX_RETRIES_def retry_list
  node_at_def path_exists_def is_dir_def is_file_def read_bytes_def write_bytes_def
  mkdir_p_def add_dir_def rglob_def sleep_def parent_def prefixes_snoc
  stem_def suffix_of_def path_name_def rfind_dot_def lower_def lower_char_def image_suffix_def
  strip_def is_space_def joinpath_def path_parts_def is_absolute_def
  demo_world_def demo_nodes_def demo_cfg_def demo_variant_def demo_doc_def

lemma demo_run:
  "0 < q \<Longrightarrow>
   process_images good_env demo_cfg q demo_world =
     (Inr (),
      \<lparr>nodes = demo_nodes @
         [([''out''], Dir), ([''out'', ''rain''], Dir), ([''out'', ''rain'', ''g''], Dir),
          ([''out'', ''rain'', ''g'', ''a_rain.png''], File ''PNGA''),
          ([''out'', ''rain'', ''g'', ''b_rain.png''], File ''PNGB'')],
       log = [Sleep (delay_of q), Call, Sleep (delay_of q), Call,
              Load [''cfg'', ''rain.yaml'']]\<rparr>)"
  using delay_of_pos [of q] by (simp add: run_eval good_env_fields)

lemma demo_run_failing:
  "process_images failing_env demo_cfg q demo_world =
     (Inl (ProviderError ''quota''),
      \<lparr>nodes = demo_nodes @
         [([''out''], Dir), ([''out'', ''rain''], Dir), ([''out'', ''rain'', ''g''], Dir)],
       log = [Call, Sleep (delay_of q * 2), Call, Sleep (delay_of q), Call,
              Load [''cfg'', ''rain.yaml'']]\<rparr>)"
  using delay_of_pos [of q] by (simp add: run_eval failing_env_fields)

section \<open>The loops of the pipeline\<close>

lemma images_loop_append:
  "images_loop E cfg d v pr (ps1 @ ps2) w =
     (case images_loop E cfg d v pr ps1 w of
        (Inl e, w1) \<Rightarrow> (Inl e, w1)
      | (Inr u, w1) \<Rightarrow> images_loop E cfg d v pr ps2 w1)"
  by (induction ps1 arbitrary: w) (auto split: prod.splits sum.splits)

lemma scene_loop_append:
  "scene_loop E cfg s (vs1 @ vs2) w =
     (case scene_loop E cfg s vs1 w of
        None \<Rightarrow> None
      | Some (Inl e, w1) \<Rightarrow> Some (Inl e, w1)
      | Some (Inr u, w1) \<Rightarrow> scene_loop E cfg s vs2 w1)"
  by (induction vs1 arbitrary: w) (auto split: prod.splits sum.splits option.splits)

lemma scenes_loop_append:
  "scenes_loop E cfg (ss1 @ ss2) w =
     (case scenes_loop E cfg ss1 w of
        None \<Rightarrow> None
      | Some (Inl e, w1) \<Rightarrow> Some (Inl e, w1)
      | Some (Inr u, w1) \<Rightarrow> scenes_loop E cfg ss2 w1)"
  by (induction ss1 arbitrary: w) (auto split: prod.splits sum.splits option.splits)

lemma process_image_exhausted:
  assumes "relative_to p (input_root cfg) = Inr rel"
    and "mkdir_p (out_dir cfg v rel) w = (Inr (), w1)"
    and "\<not> path_exists w1 (out_path cfg v rel)"
    and "read_bytes w1 p = Inr b"
    and "attempts E
           \<lparr>req_model = model_name cfg, req_prompt = pr, req_image = b,
            req_creativity = creativity v, req_fidelity = fidelity v,
            req_width = output_width cfg, req_height = output_height cfg\<rparr>
           (out_path cfg v rel) d [1..<MAX_RETRIES + 1] w1 = (Inl e, w2)"
  shows "process_image E cfg d v pr p w = (Inl e, w2)"
  using assms by (simp add: process_image_def)

section \<open>A failing unit\<close>

lemmas batch_eval = scene_step_def list_variant_frames_def iterdir_def
  pick_reference_frames_def has_0000_def has_0008_or_last_def
  load_prompt_text_def load_yaml_def strip_of_def yget_def
  construct_job_config_def defaults_get_def upper_of_def lookup_reference_type_def
  upper_def upper_char_def output_dir_def job_output_path_def
  run_generation_def prepare_job_def resolve_api_key_def read_optional_def
  read_image_bytes_def build_request_def
  node_at_def path_exists_def is_dir_def is_file_def read_bytes_def
  mkdir_p_def add_dir_def parent_def prefixes_snoc
  stem_def suffix_of_def path_name_def rfind_dot_def lower_def lower_char_def image_suffix_def
  strip_def is_space_def joinpath_def path_parts_def is_absolute_def
  demo_batch_cfg_def demo_batch_variant_def demo_doc_def

lemma down_env_fields:
  "api_key_env down_env = Some ''key''"
  "yaml_load down_env b = Inr demo_doc"
  "reference_types down_env = [''ASSET'', ''STYLE'']"
  "generate_videos down_env k req = Inl (ProviderError ''503'')"
  by (simp_all add: down_env_def good_env_def)

lemma refused_scene_step:
  "scene_step down_env demo_batch_cfg [''in'', ''s1''] demo_batch_variant video_world =
     Some (Inl (ProviderError ''503''),
           \<lparr>nodes = video_nodes @
              [([''out''], Dir), ([''out'', ''s1''], Dir), ([''out'', ''s1'', ''rain''], Dir)],
            log = [Submit, Load [''cfg'', ''rain.yaml''], Pick 2]\<rparr>)"
  by (simp add: batch_eval down_env_fields video_world_def video_nodes_def Let_def)

section \<open>The spacing of provider calls\<close>

lemma ready_Nil [simp]: "ready d []"
  by (simp add: ready_def)

lemma ready_Load [simp]: "ready d (Load p # l) = ready d l"
  by (simp add: ready_def)

lemma ready_Sleep: "ready d l \<Longrightarrow> 0 \<le> s \<Longrightarrow> ready d (Sleep s # l)"
  by (auto simp: ready_def split: option.splits)

lemma ready_Sleep_Call: "ready d l \<Longrightarrow> d \<le> s \<Longrightarrow> ready d (Sleep s # Call # l)"
  by (auto simp: ready_def split: option.splits)

lemma spaced_Call: "ready d l \<Longrightarrow> spaced d (Call # l)"
  by (auto simp: ready_def split: option.splits)

lemma ready_spaced: "ready d l \<Longrightarrow> spaced d l"
  by (simp add: ready_def)

lemma try_block_log:
  "log (snd (sbind (call_gemini_edit E req w) (write_bytes out))) = Call # log w"
  by (cases "edit E (ncalls (log w)) req") (simp_all add: call_gemini_edit_def write_bytes_log)

lemma attempts_spaced:
  assumes "0 \<le> d" and "\<forall>a\<in>set ns. 1 \<le> a" and "ready d (log w)"
    and "attempts E req out d ns w = (r, w')"
  shows "spaced d (log w') \<and> (r = Inr () \<longrightarrow> ready d (Sleep d # log w'))"
  using assms(2-4)
proof (induction ns arbitrary: w)
  case Nil
  then have "r = Inr ()" "w' = w" by simp_all
  moreover have "ready d (Sleep d # log w)" using Nil.prems(2) assms(1) by (rule ready_Sleep)
  moreover have "spaced d (log w)" using Nil.prems(2) by (rule ready_spaced)
  ultimately show ?case by simp
next
  case (Cons a ns)
  obtain res w1 where t: "sbind (call_gemini_edit E req w) (write_bytes out) = (res, w1)"
    by (cases "sbind (call_gemini_edit E req w) (write_bytes out)")
  have l1: "log w1 = Call # log w" using try_block_log [of E req w out] t by simp
  have s1: "spaced d (log w1)" using spaced_Call [OF Cons.prems(2)] by (simp only: l1)
  show ?case
  proof (cases res)
    case (Inr u)
    then have "r = Inr ()" "w' = w1" using Cons.prems(3) t by simp_all
    moreover have "ready d (Sleep d # log w1)"
      using ready_Sleep_Call [OF Cons.prems(2), of d] by (simp add: l1)
    ultimately show ?thesis using s1 by simp
  next
    case (Inl exc)
    show ?thesis
    proof (cases "a = MAX_RETRIES")
      case True
      then have "r = Inl exc" "w' = w1" using Cons.prems(3) t Inl by simp_all
      then show ?thesis using s1 by simp
    next
      case False
      have a1: "1 \<le> real a" using Cons.prems(1) by simp
      have "d * 1 \<le> d * real a" using assms(1) a1 by (rule mult_left_mono [OF _ _, rotated]) 
      then have da: "d \<le> d * real a" by simp
      then have nn: "\<not> d * real a < 0" using assms(1) by simp
      let ?w2 = "w1\<lparr>log := Sleep (d * real a) # log w1\<rparr>"
      have rec: "attempts E req out d ns ?w2 = (r, w')"
        using Cons.prems(3) t Inl False nn by (simp add: sleep_def)
      have "ready d (log ?w2)"
        using ready_Sleep_Call [OF Cons.prems(2) da] by (simp add: l1)
      moreover have "\<forall>a\<in>set ns. 1 \<le> a" using Cons.prems(1) by simp
      ultimately show ?thesis using Cons.IH [OF _ _ rec] by blast
    qed
  qed
qed

lemma retry_range_ge: "\<forall>a\<in>set [1..<MAX_RETRIES + 1]. 1 \<le> a"
  unfolding retry_range by simp

lemma process_image_spaced:
  assumes "0 \<le> d" and "ready d (log w)" and "process_image E cfg d v pr p w = (r, w')"
  shows "spaced d (log w') \<and> (r = Inr () \<longrightarrow> ready d (log w'))"
proof (cases "relative_to p (input_root cfg)")
  case (Inl e)
  then show ?thesis using assms by (auto simp: process_image_def ready_spaced)
next
  case (Inr rel)
  obtain m w1 where m: "mkdir_p (out_dir cfg v rel) w = (m, w1)"
    by (cases "mkdir_p (out_dir cfg v rel) w")
  have l1: "log w1 = log w" using mkdir_p_log [of "out_dir cfg v rel" w] m by simp
  show ?thesis
  proof (cases m)
    case (Inl e)
    then show ?thesis using assms Inr m l1 by (auto simp: process_image_def ready_spaced)
  next
    case mr: (Inr u)
    show ?thesis
    proof (cases "path_exists w1 (out_path cfg v rel)")
      case True
      then show ?thesis using assms Inr m mr l1 by (auto simp: process_image_def ready_spaced)
    next
      case False
      show ?thesis
      proof (cases "read_bytes w1 p")
        case (Inl e)
        then show ?thesis
          using assms Inr m mr l1 False by (auto simp: process_image_def ready_spaced)
      next
        case rb: (Inr b)
        let ?req = "\<lparr>req_model = model_name cfg, req_prompt = pr, req_image = b,
            req_creativity = creativity v, req_fidelity = fidelity v,
            req_width = output_width cfg, req_height = output_height cfg\<rparr>"
        obtain ra w2 where a: "attempts E ?req (out_path cfg v rel) d [1..<MAX_RETRIES + 1] w1
                                 = (ra, w2)"
          by (cases "attempts E ?req (out_path cfg v rel) d [1..<MAX_RETRIES + 1] w1")
        have r1: "ready d (log w1)" using assms(2) l1 by simp
        from attempts_spaced [OF assms(1) retry_range_ge r1 a]
        have s2: "spaced d (log w2)" and r2: "ra = Inr () \<longrightarrow> ready d (Sleep d # log w2)"
          by simp_all
        have pi: "process_image E cfg d v pr p w = sbind (ra, w2) (\<lambda>u. sleep d)"
          using Inr m mr False rb a by (simp add: process_image_def)
        show ?thesis
        proof (cases ra)
          case (Inl e)
          then show ?thesis using pi assms(3) s2 by simp
        next
          case (Inr u)
          then have "ready d (Sleep d # log w2)" using r2 by simp
          moreover have "r = Inr ()" "w' = w2\<lparr>log := Sleep d # log w2\<rparr>"
            using pi assms(1,3) Inr by (simp_all add: sleep_def)
          ultimately show ?thesis using s2 by simp
        qed
      qed
    qed
  qed
qed

lemma images_loop_spaced:
  assumes "0 \<le> d"
  shows "ready d (log w) \<Longrightarrow> images_loop E cfg d v pr ps w = (r, w') \<Longrightarrow>
         spaced d (log w') \<and> (r = Inr () \<longrightarrow> ready d (log w'))"
proof (induction ps arbitrary: w)
  case Nil
  then show ?case by (auto simp: ready_spaced)
next
  case (Cons p ps)
  show ?case
  proof (cases "is_file w p \<and> image_suffix p")
    case False
    then have "images_loop E cfg d v pr ps w = (r, w')" using Cons.prems(2) by auto
    then show ?thesis using Cons.IH [OF Cons.prems(1)] by blast
  next
    case True
    obtain r1 w1 where p: "process_image E cfg d v pr p w = (r1, w1)"
      by (cases "process_image E cfg d v pr p w")
    from process_image_spaced [OF assms Cons.prems(1) p]
    have s1: "spaced d (log w1)" and rd: "r1 = Inr () \<longrightarrow> ready d (log w1)" by simp_all
    show ?thesis
    proof (cases r1)
      case (Inl e)
      then have "r = Inl e" "w' = w1" using Cons.prems(2) True p by simp_all
      then show ?thesis using s1 by simp
    next
      case (Inr u)
      then have "images_loop E cfg d v pr ps w1 = (r, w')"
        using Cons.prems(2) True p by simp
      moreover have "ready d (log w1)" using rd Inr by simp
      ultimately show ?thesis using Cons.IH by blast
    qed
  qed
qed

lemma get_template_ready:
  "get_template E cache p w = (r, w1) \<Longrightarrow> ready d (log w1) = ready d (log w)"
  by (auto simp: get_template_def load_prompt_template_def sbind_def
      split: option.splits sum.splits)

lemma variants_loop_spaced:
  assumes "0 \<le> d"
  shows "ready d (log w) \<Longrightarrow> variants_loop E cfg d vs cache w = (r, w') \<Longrightarrow>
         spaced d (log w')"
proof (induction vs arbitrary: w cache)
  case Nil
  then show ?case by (auto simp: ready_spaced)
next
  case (Cons v vs)
  obtain g w1 where g: "get_template E cache (prompt_path v) w = (g, w1)"
    by (cases "get_template E cache (prompt_path v) w")
  have r1: "ready d (log w1)" using get_template_ready [OF g] Cons.prems(1) by simp
  show ?case
  proof (cases g)
    case (Inl e)
    then show ?thesis using Cons.prems(2) g r1 by (auto simp: ready_spaced)
  next
    case (Inr tc)
    obtain t cache1 where tc: "tc = (t, cache1)" by (cases tc)
    obtain r2 w2 where i: "images_loop E cfg d v (build_prompt t)
                              (sort (rglob w1 (input_root cfg))) w1 = (r2, w2)"
      by (cases "images_loop E cfg d v (build_prompt t) (sort (rglob w1 (input_root cfg))) w1")
    from images_loop_spaced [OF assms r1 i]
    have s2: "spaced d (log w2)" and rd: "r2 = Inr () \<longrightarrow> ready d (log w2)" by simp_all
    show ?thesis
    proof (cases r2)
      case (Inl e)
      then show ?thesis using Cons.prems(2) g Inr tc i s2 by simp
    next
      case ok: (Inr u)
      then have "variants_loop E cfg d vs cache1 w2 = (r, w')"
        using Cons.prems(2) g Inr tc i by simp
      moreover have "ready d (log w2)" using rd ok by simp
      ultimately show ?thesis using Cons.IH by blast
    qed
  qed
qed

lemma process_images_spaced:
  assumes "log w = []"
  shows "spaced (delay_of q) (log (snd (process_images E cfg q w)))"
proof (cases "resolve_api_key E (api_key_path cfg) w")
  case (Inl e)
  then show ?thesis using assms by (simp add: process_images_def)
next
  case (Inr k)
  obtain r w' where v: "variants_loop E cfg (delay_of q) (variants cfg) Map.empty w = (r, w')"
    by (cases "variants_loop E cfg (delay_of q) (variants cfg) Map.empty w")
  have "0 \<le> delay_of q" using delay_of_pos [of q] by simp
  moreover have "ready (delay_of q) (log w)" using assms by simp
  ultimately have "spaced (delay_of q) (log w')" using v by (rule variants_loop_spaced)
  then show ?thesis using Inr v by (simp add: process_images_def)
qed

text \<open>The time between the first and the last of \<open>n\<close> spaced calls.\<close>

lemma spaced_span_aux:
  assumes "0 \<le> d"
  shows "spaced d l \<Longrightarrow>
     (case (since_first_call l, since_call l) of
        (Some a, Some b) \<Rightarrow> 1 \<le> ncalls l \<and> (real (ncalls l) - 1) * d \<le> a - b
      | (None, None) \<Rightarrow> ncalls l = 0
      | _ \<Rightarrow> False)"
proof (induction l)
  case Nil
  then show ?case by simp
next
  case (Cons e l)
  show ?case
  proof (cases e)
    case Call
    then have sp: "spaced d l" and gap: "case since_call l of None \<Rightarrow> True | Some b \<Rightarrow> d \<le> b"
      using Cons.prems by simp_all
    from Cons.IH [OF sp] gap show ?thesis
      by (auto simp: Call algebra_simps split: option.splits)
  next
    case (Sleep s)
    then have "spaced d l" using Cons.prems by simp
    from Cons.IH [OF this] show ?thesis
      by (auto simp: Sleep split: option.splits)
  qed (use Cons in \<open>auto split: option.splits\<close>)
qed

lemma spaced_span:
  assumes "0 \<le> d" and "spaced d l" and "1 \<le> ncalls l"
  shows "(real (ncalls l) - 1) * d \<le> span l"
  using spaced_span_aux [OF assms(1,2)] assms(3)
  by (auto simp: span_def split: option.splits)

text \<open>
  C9 (as amended). In every run of the pipeline, started with an empty log, each provider
  call but the first starts at least \<open>1 / max(rateLimitQps, 1e-6)\<close> seconds of sleep after
  the call before it, so that \<open>n\<close> calls span at least \<open>(n - 1)\<close> times that delay; the
  delay is \<open>1 / rateLimitQps\<close> when \<open>rateLimitQps\<close> is at least \<open>1e-6\<close>, and 2 seconds at
  \<open>rateLimitQps = 0.5\<close>. Time is the sum of the sleeps: a call takes no time in the model
  and a sleep exactly the time asked for.
\<close>

theorem call_spacing:
  "(log w = [] \<longrightarrow>
      spaced (delay_of q) (log (snd (process_images E cfg q w))) \<and>
      (1 \<le> ncalls (log (snd (process_images E cfg q w))) \<longrightarrow>
         (real (ncalls (log (snd (process_images E cfg q w)))) - 1) * delay_of q
           \<le> span (log (snd (process_images E cfg q w)))))
   \<and> (log w = [] \<and> 1 \<le> ncalls (log (snd (process_images E cfg (1 / 2) w))) \<longrightarrow>
         (real (ncalls (log (snd (process_images E cfg (1 / 2) w)))) - 1) * 2
           \<le> span (log (snd (process_images E cfg (1 / 2) w))))
   \<and> delay_of q = 1 / max q (1 / 10 ^ 6)
   \<and> (1 / 10 ^ 6 \<le> q \<longrightarrow> delay_of q = 1 / q)"
proof -
  have d: "0 \<le> delay_of r" for r using delay_of_pos [of r] by simp
  have a: "spaced (delay_of r) (log (snd (process_images E cfg r w)))" if "log w = []" for r
    using that by (rule process_images_spaced)
  have b: "(real (ncalls (log (snd (process_images E cfg r w)))) - 1) * delay_of r
           \<le> span (log (snd (process_images E cfg r w)))"
    if "log w = []" "1 \<le> ncalls (log (snd (process_images E cfg r w)))" for r
    using d a [OF that(1)] that(2) by (rule spaced_span)
  have h: "delay_of (1 / 2) = 2" by (simp add: delay_of_def)
  have c: "(real (ncalls (log (snd (process_images E cfg (1 / 2) w)))) - 1) * 2
           \<le> span (log (snd (process_images E cfg (1 / 2) w)))"
    if "log w = []" "1 \<le> ncalls (log (snd (process_images E cfg (1 / 2) w)))"
    using b [OF that] by (simp only: h)
  show ?thesis
    using a b c delay_of_inverse [of q] by (simp add: delay_of_def)
qed

theorem call_spacing_witness:
  "log demo_world = [] \<and>
   spaced (delay_of (1 / 2)) (log (snd (process_images good_env demo_cfg (1 / 2) demo_world))) \<and>
   ncalls (log (snd (process_images good_env demo_cfg (1 / 2) demo_world))) = 2 \<and>
   (real 2 - 1) * 2 \<le> span (log (snd (process_images good_env demo_cfg (1 / 2) demo_world)))"
proof -
  have e: "log demo_world = []" by (simp add: demo_world_def)
  have n: "ncalls (log (snd (process_images good_env demo_cfg (1 / 2) demo_world))) = 2"
    by (simp add: demo_run)
  from call_spacing [where w = demo_world and q = "1 / 2" and E = good_env and cfg = demo_cfg] e
  have "spaced (delay_of (1 / 2)) (log (snd (process_images good_env demo_cfg (1 / 2) demo_world)))"
    and "1 \<le> ncalls (log (snd (process_images good_env demo_cfg (1 / 2) demo_world))) \<longrightarrow>
         (real (ncalls (log (snd (process_images good_env demo_cfg (1 / 2) demo_world)))) - 1) * 2
           \<le> span (log (snd (process_images good_env demo_cfg (1 / 2) demo_world)))"
    by blast+
  then show ?thesis using e n by simp
qed

text \<open>
  At \<open>rateLimitQps = 1e-7\<close> two successive calls start 1000000 seconds apart, less than
  \<open>1 / rateLimitQps\<close>, which is 10000000.
\<close>

theorem call_spacing_counterexample:
  "process_images good_env demo_cfg (1 / 10 ^ 7) demo_world =
     (Inr (),
      \<lparr>nodes = demo_nodes @
         [([''out''], Dir), ([''out'', ''rain''], Dir), ([''out'', ''rain'', ''g''], Dir),
          ([''out'', ''rain'', ''g'', ''a_rain.png''], File ''PNGA''),
          ([''out'', ''rain'', ''g'', ''b_rain.png''], File ''PNGB'')],
       log = [Sleep 1000000, Call, Sleep 1000000, Call, Load [''cfg'', ''rain.yaml'']]\<rparr>)
   \<and> \<not> spaced (1 / (1 / 10 ^ 7))
         [Sleep 1000000, Call, Sleep 1000000, Call, Load [''cfg'', ''rain.yaml'']]"
proof -
  have d: "delay_of (1 / 10000000) = 1000000" by (simp add: delay_of_def)
  show ?thesis using demo_run [of "1 / 10 ^ 7"] by (simp add: d)
qed

section \<open>The prompt cache\<close>

lemma nloads_simps [simp]:
  "nloads p [] = 0"
  "nloads p (Load q # l) = (if q = p then Suc (nloads p l) else nloads p l)"
  "nloads p (Call # l) = nloads p l"
  "nloads p (Sleep d # l) = nloads p l"
  "nloads p (Submit # l) = nloads p l"
  "nloads p (Poll # l) = nloads p l"
  "nloads p (Fetch # l) = nloads p l"
  "nloads p (Pick n # l) = nloads p l"
  by (auto simp: nloads_def)

lemma attempts_nloads:
  "nloads p (log (snd (attempts E req out d ns w))) = nloads p (log w)"
proof (induction ns arbitrary: w)
  case Nil
  then show ?case by simp
next
  case (Cons a ns)
  obtain res w1 where t: "sbind (call_gemini_edit E req w) (write_bytes out) = (res, w1)"
    by (cases "sbind (call_gemini_edit E req w) (write_bytes out)")
  have l1: "log w1 = Call # log w" using try_block_log [of E req w out] t by simp
  have "nloads p (log (snd (attempts E req out d ns (w1\<lparr>log := Sleep (d * real a) # log w1\<rparr>))))
          = nloads p (log (w1\<lparr>log := Sleep (d * real a) # log w1\<rparr>))"
    by (rule Cons.IH)
  then show ?case
    using t l1 by (cases res) (simp_all add: sleep_def)
qed

lemma sleep_nloads: "nloads p (log (snd (sleep d w))) = nloads p (log w)"
  by (simp add: sleep_def)

lemma process_image_nloads:
  "nloads p (log (snd (process_image E cfg d v pr img w))) = nloads p (log w)"
proof (cases "relative_to img (input_root cfg)")
  case (Inl e)
  then show ?thesis by (simp add: process_image_def)
next
  case (Inr rel)
  obtain m w1 where m: "mkdir_p (out_dir cfg v rel) w = (m, w1)"
    by (cases "mkdir_p (out_dir cfg v rel) w")
  have l1: "log w1 = log w" using mkdir_p_log [of "out_dir cfg v rel" w] m by simp
  show ?thesis
  proof (cases m)
    case (Inl e)
    then show ?thesis using Inr m l1 by (simp add: process_image_def)
  next
    case mr: (Inr u)
    show ?thesis
    proof (cases "read_bytes w1 img")
      case (Inl e)
      then show ?thesis using Inr m mr l1 by (simp add: process_image_def)
    next
      case rb: (Inr b)
      let ?req = "\<lparr>req_model = model_name cfg, req_prompt = pr, req_image = b,
            req_creativity = creativity v, req_fidelity = fidelity v,
            req_width = output_width cfg, req_height = output_height cfg\<rparr>"
      obtain ra w2 where a: "attempts E ?req (out_path cfg v rel) d [1..<MAX_RETRIES + 1] w1
                                 = (ra, w2)"
        by (cases "attempts E ?req (out_path cfg v rel) d [1..<MAX_RETRIES + 1] w1")
      have l2: "nloads p (log w2) = nloads p (log w)"
        using attempts_nloads [of p E ?req "out_path cfg v rel" d "[1..<MAX_RETRIES + 1]" w1]
          a l1 by simp
      show ?thesis
        using Inr m mr rb a l1 l2 sleep_nloads [of p d w2]
        by (cases ra) (simp_all add: process_image_def)
    qed
  qed
qed

lemma images_loop_nloads:
  "nloads p (log (snd (images_loop E cfg d v pr ps w))) = nloads p (log w)"
proof (induction ps arbitrary: w)
  case Nil
  then show ?case by simp
next
  case (Cons img ps)
  obtain r1 w1 where pi: "process_image E cfg d v pr img w = (r1, w1)"
    by (cases "process_image E cfg d v pr img w")
  have "nloads p (log w1) = nloads p (log w)"
    using process_image_nloads [of p E cfg d v pr img w] pi by simp
  then show ?case
    using pi Cons.IH by (cases r1) simp_all
qed

lemma get_template_hit:
  "cache p = Some t \<Longrightarrow> get_template E cache p w = (Inr (t, cache), w)"
  by (simp add: get_template_def)

lemma get_template_miss:
  "cache p = None \<Longrightarrow> fst (load_prompt_template E p w) = Inr t \<Longrightarrow>
   get_template E cache p w = (Inr (t, cache(p \<mapsto> t)), w\<lparr>log := Load p # log w\<rparr>)"
  by (simp add: get_template_def load_prompt_template_def)

lemma get_template_fail:
  "cache p = None \<Longrightarrow> fst (load_prompt_template E p w) = Inl e \<Longrightarrow>
   get_template E cache p w = (Inl e, w\<lparr>log := Load p # log w\<rparr>)"
  by (simp add: get_template_def load_prompt_template_def)

lemma variants_loop_loads:
  "nloads p (log (snd (variants_loop E cfg d vs cache w)))
     \<le> nloads p (log w) + (if p \<in> dom cache then 0 else 1)"
proof (induction vs arbitrary: cache w)
  case Nil
  then show ?case by simp
next
  case (Cons v vs)
  let ?pp = "prompt_path v"
  show ?case
  proof (cases "cache ?pp")
    case (Some t)
    let ?il = "images_loop E cfg d v (build_prompt t) (sort (rglob w (input_root cfg))) w"
    obtain r2 w2 where i: "?il = (r2, w2)" by (cases ?il)
    have l2: "nloads p (log w2) = nloads p (log w)"
      using images_loop_nloads [of p E cfg d v "build_prompt t"
          "sort (rglob w (input_root cfg))" w] i by simp
    show ?thesis
    proof (cases r2)
      case (Inl e)
      then show ?thesis using Some i l2 by (simp add: get_template_hit)
    next
      case (Inr u)
      have "nloads p (log (snd (variants_loop E cfg d vs cache w2)))
              \<le> nloads p (log w2) + (if p \<in> dom cache then 0 else 1)"
        by (rule Cons.IH)
      then show ?thesis using Some i l2 Inr by (simp add: get_template_hit)
    qed
  next
    case None
    let ?w1 = "w\<lparr>log := Load ?pp # log w\<rparr>"
    show ?thesis
    proof (cases "fst (load_prompt_template E ?pp w)")
      case (Inl e)
      then show ?thesis
        using None by (cases "p = ?pp") (auto simp: get_template_fail split: if_splits)
    next
      case (Inr t)
      let ?il = "images_loop E cfg d v (build_prompt t) (sort (rglob ?w1 (input_root cfg))) ?w1"
      obtain r2 w2 where i: "?il = (r2, w2)" by (cases ?il)
      have l2: "nloads p (log w2) = nloads p (log ?w1)"
        using images_loop_nloads [of p E cfg d v "build_prompt t"
            "sort (rglob ?w1 (input_root cfg))" ?w1] i by simp
      show ?thesis
      proof (cases r2)
        case (Inl e)
        then show ?thesis
          using None Inr i l2
          by (cases "p = ?pp") (auto simp: get_template_miss split: if_splits)
      next
        case ok: (Inr u)
        have "nloads p (log (snd (variants_loop E cfg d vs (cache(?pp \<mapsto> t)) w2)))
                \<le> nloads p (log w2) + (if p \<in> dom (cache(?pp \<mapsto> t)) then 0 else 1)"
          by (rule Cons.IH)
        then show ?thesis
          using None Inr i l2 ok
          by (cases "p = ?pp") (auto simp: get_template_miss split: if_splits)
      qed
    qed
  qed
qed

lemma process_images_loads:
  "nloads p (log (snd (process_images E cfg q w))) \<le> nloads p (log w) + 1"
proof (cases "resolve_api_key E (api_key_path cfg) w")
  case (Inl e)
  then show ?thesis by (simp add: process_images_def)
next
  case (Inr k)
  then show ?thesis
    using variants_loop_loads [of p E cfg "delay_of q" "variants cfg" Map.empty w]
    by (simp add: process_images_def)
qed

lemma load_prompt_template_trims:
  "load_yaml E w p = Inr (YMap m) \<Longrightarrow> map_of m ''positive'' = Some (YStr a) \<Longrightarrow>
   map_of m ''negative'' = Some (YStr b) \<Longrightarrow>
   fst (load_prompt_template E p w) = Inr \<lparr>positive = strip a, negative = strip b\<rparr>"
  by (simp add: load_prompt_template_def str_field_def yitem_def)

lemma good_env_video_fields:
  "reference_types good_env = [''ASSET'', ''STYLE'']"
  "generate_videos good_env k req = Inr pending"
  by (simp_all add: good_env_def)

lemmas scene_eval = batch_main_def group_folders_def process_scene_folder_def
  two_scene_world_def two_scene_nodes_def

lemma two_scene_run:
  "batch_main good_env demo_batch_cfg two_scene_world =
     Some (Inr (),
           \<lparr>nodes = two_scene_nodes,
            log = [Load [''cfg'', ''rain.yaml''], Pick 1,
                   Load [''cfg'', ''rain.yaml''], Pick 1]\<rparr>)"
  by (simp add: scene_eval batch_eval good_env_fields good_env_video_fields Let_def)

section \<open>Enumeration\<close>

lemma sort_mset_eq: "mset xs = mset ys \<Longrightarrow> sort xs = sort ys"
  by (rule properties_for_sort) simp_all

lemma same_entries_node_at:
  assumes "mset (nodes w) = mset (nodes w')" and "distinct (map fst (nodes w))"
  shows "node_at w p = node_at w' p"
proof -
  have "mset (map fst (nodes w)) = mset (map fst (nodes w'))"
    using assms(1) by simp
  then have "distinct (map fst (nodes w'))"
    using assms(2) mset_eq_imp_distinct_iff by blast
  moreover have "set (nodes w) = set (nodes w')" using assms(1) by (rule mset_eq_setD)
  ultimately have "map_of (nodes w) = map_of (nodes w')"
    using assms(2) by (simp add: map_of_inject_set)
  then show ?thesis by (simp add: node_at_def)
qed

lemma same_entries_tests:
  assumes "mset (nodes w) = mset (nodes w')" and "distinct (map fst (nodes w))"
  shows "is_file w = is_file w'" and "is_dir w = is_dir w'" and "path_exists w = path_exists w'"
  using same_entries_node_at [OF assms]
  by (auto simp: is_file_def is_dir_def path_exists_def fun_eq_iff)

lemma same_entries_keys:
  assumes "mset (nodes w) = mset (nodes w')"
  shows "mset (filter P (map fst (nodes w))) = mset (filter P (map fst (nodes w')))"
  using assms by simp

lemma iter_images_same:
  assumes "mset (nodes w) = mset (nodes w')" and "distinct (map fst (nodes w))"
  shows "iter_images w r = iter_images w' r"
proof -
  have "sort (rglob w r) = sort (rglob w' r)"
    unfolding rglob_def by (rule sort_mset_eq) (rule same_entries_keys [OF assms(1)])
  then show ?thesis
    by (simp add: iter_images_def same_entries_tests(1) [OF assms])
qed

lemma list_variant_frames_same:
  assumes "mset (nodes w) = mset (nodes w')" and "distinct (map fst (nodes w))"
  shows "list_variant_frames w folder = list_variant_frames w' folder"
proof -
  let ?P = "\<lambda>p. (p \<noteq> [] \<and> parent p = folder) \<and> image_suffix p"
  have "mset (filter ?P (map fst (nodes w))) = mset (filter ?P (map fst (nodes w')))"
    by (rule same_entries_keys [OF assms(1)])
  then have "sort (filter ?P (map fst (nodes w))) = sort (filter ?P (map fst (nodes w')))"
    by (rule sort_mset_eq)
  then show ?thesis
    by (simp add: list_variant_frames_def iterdir_def same_entries_tests [OF assms]
        conj_commute)
qed

lemma group_folders_same:
  assumes "mset (nodes w) = mset (nodes w')" and "distinct (map fst (nodes w))"
  shows "group_folders w r = group_folders w' r"
proof -
  let ?P = "\<lambda>p. (p \<noteq> [] \<and> parent p = r) \<and> is_dir w p"
  have "mset (filter ?P (map fst (nodes w))) = mset (filter ?P (map fst (nodes w')))"
    by (rule same_entries_keys [OF assms(1)])
  then have "sort (filter ?P (map fst (nodes w))) = sort (filter ?P (map fst (nodes w')))"
    by (rule sort_mset_eq)
  then show ?thesis
    by (simp add: group_folders_def iterdir_def same_entries_tests [OF assms, symmetric]
        conj_commute)
qed

lemma sorted_filter_sort: "sorted (filter P (sort xs))"
  by (rule sorted_wrt_filter) simp

lemma listings_sorted:
  "sorted (iter_images w r)"
  "list_variant_frames w folder = Inr frames \<Longrightarrow> sorted frames"
  "group_folders w r = Inr scenes \<Longrightarrow> sorted scenes"
  by (auto simp: iter_images_def list_variant_frames_def group_folders_def iterdir_def
      sorted_filter_sort split: if_splits)

text \<open>The loop over the images visits the images that \<open>iter_images\<close> lists, in that order,
  as long as the tests of the generator do not change.\<close>

lemma pick_never_fails:
  "frames \<noteq> [] \<Longrightarrow> \<exists>first lst. pick_reference_frames frames = Inr (first, lst)"
  by (simp add: pick_reference_frames_def Let_def)

lemma pick_fails_iff: "(\<exists>e. pick_reference_frames frames = Inl e) \<longleftrightarrow> frames = []"
  by (simp add: pick_reference_frames_def Let_def)

text \<open>What the steps of a video job add to the log.\<close>

lemma poll_once_picks:
  "Pick n \<in> set (log (snd (poll_once E i operation w))) \<longleftrightarrow> Pick n \<in> set (log w)"
  by (cases "operations_get E (npolls (log (w\<lparr>log := Sleep i # log w\<rparr>))) operation")
    (auto simp: poll_once_def sleep_def)

lemma poll_loop_picks:
  assumes "poll_loop E i operation w = Some y"
  shows "Pick n \<in> set (log (snd y)) \<longleftrightarrow> Pick n \<in> set (log w)"
proof (rule poll_loop.raw_induct
    [where P = "\<lambda>E i operation w y. Pick n \<in> set (log (snd y)) \<longleftrightarrow> Pick n \<in> set (log w)",
      OF _ assms])
  fix pl E i operation w y
  assume ih: "\<And>E i operation w y. pl E i operation w = Some y \<Longrightarrow>
                (Pick n \<in> set (log (snd y))) = (Pick n \<in> set (log w))"
    and body: "(if op_done operation then Some (Inr operation, w)
                else case poll_once E i operation w of
                       (Inl e, w1) \<Rightarrow> Some (Inl e, w1)
                     | (Inr operation1, w1) \<Rightarrow> pl E i operation1 w1) = Some y"
  show "(Pick n \<in> set (log (snd y))) = (Pick n \<in> set (log w))"
  proof (cases "op_done operation")
    case True
    then show ?thesis using body by auto
  next
    case False
    obtain r w1 where p: "poll_once E i operation w = (r, w1)"
      by (cases "poll_once E i operation w")
    have l1: "Pick n \<in> set (log w1) \<longleftrightarrow> Pick n \<in> set (log w)"
      using poll_once_picks [of n E i operation w] p by simp
    show ?thesis
    proof (cases r)
      case (Inl e)
      then show ?thesis using body False p l1 by auto
    next
      case (Inr operation1)
      then have "pl E i operation1 w1 = Some y" using body False p by simp
      from ih [OF this] l1 show ?thesis by simp
    qed
  qed
qed

lemma save_result_picks:
  "Pick n \<in> set (log (snd (save_result E cfg k operation w))) \<longleftrightarrow> Pick n \<in> set (log w)"
  by (auto simp: save_result_def sbind_def mkdir_p_def write_bytes_def
      split: option.splits list.splits sum.splits prod.splits if_splits)

lemma run_generation_picks:
  assumes "run_generation E cfg w = Some y"
  shows "Pick n \<in> set (log (snd y)) \<longleftrightarrow> Pick n \<in> set (log w)"
proof (cases "prepare_job E cfg w")
  case (Inl e)
  then show ?thesis using assms by (auto simp: run_generation_def)
next
  case (Inr kr)
  obtain k request where kr: "kr = (k, request)" by (cases kr)
  let ?w0 = "w\<lparr>log := Submit # log w\<rparr>"
  show ?thesis
  proof (cases "generate_videos E (nsubmits (log w)) request")
    case (Inl e)
    then show ?thesis using assms Inr kr by (auto simp: run_generation_def)
  next
    case op: (Inr operation)
    show ?thesis
    proof (cases "poll_loop E (poll_interval_seconds cfg) operation ?w0")
      case None
      then show ?thesis using assms Inr kr op by (simp add: run_generation_def)
    next
      case (Some z)
      obtain r w1 where z: "z = (r, w1)" by (cases z)
      have l1: "Pick n \<in> set (log w1) \<longleftrightarrow> Pick n \<in> set (log w)"
        using poll_loop_picks [OF Some, of n] z by simp
      show ?thesis
      proof (cases r)
        case (Inl e)
        then show ?thesis using assms Inr kr op Some z l1 by (auto simp: run_generation_def)
      next
        case ok: (Inr operation1)
        then have "y = save_result E cfg k operation1 w1"
          using assms Inr kr op Some z by (simp add: run_generation_def)
        then show ?thesis using save_result_picks [of n E cfg k operation1 w1] l1 by simp
      qed
    qed
  qed
qed

lemma load_prompt_text_log: "log (snd (load_prompt_text E p w)) = Load p # log w"
  by (simp add: load_prompt_text_def)

lemma case_mkdir_log:
  "log (snd (case x of Inl e \<Rightarrow> (Inl e, w)
             | Inr (j :: VideoJobConfig) \<Rightarrow> sbind (mkdir_p d w) (\<lambda>u w1. (Inr j, w1)))) = log w"
  by (cases x) (simp_all add: sbind_def mkdir_p_def)

lemma construct_job_config_log:
  "log (snd (construct_job_config E bcfg kp sn v first lst pt w)) = log w"
  unfolding construct_job_config_def by (rule case_mkdir_log)

lemma scene_step_picks:
  assumes "scene_step E bcfg scene v w = Some (r, w')" and "Pick 0 \<notin> set (log w)"
  shows "Pick 0 \<notin> set (log w')"
proof (cases "path_exists w (joinpath scene (v_name v))")
  case False
  then show ?thesis using assms by (simp add: scene_step_def)
next
  case True
  show ?thesis
  proof (cases "list_variant_frames w (joinpath scene (v_name v))")
    case (Inl e)
    then show ?thesis using assms True by (simp add: scene_step_def)
  next
    case (Inr frames)
    show ?thesis
    proof (cases "frames = []")
      case True
      then show ?thesis using assms \<open>path_exists w (joinpath scene (v_name v))\<close> Inr
        by (simp add: scene_step_def)
    next
      case ne: False
      let ?w0 = "w\<lparr>log := Pick (length frames) # log w\<rparr>"
      have p0: "Pick 0 \<notin> set (log ?w0)" using assms(2) ne by simp
      from pick_never_fails [OF ne] obtain first lst
        where pk: "pick_reference_frames frames = Inr (first, lst)" by blast
      obtain lr w1 where lp: "load_prompt_text E (v_prompt_path v) ?w0 = (lr, w1)"
        by (cases "load_prompt_text E (v_prompt_path v) ?w0")
      have p1: "Pick 0 \<notin> set (log w1)"
        using load_prompt_text_log [of E "v_prompt_path v" ?w0] lp p0 by simp
      show ?thesis
      proof (cases lr)
        case (Inl e)
        then show ?thesis using assms(1) True Inr ne pk lp p1 by (simp add: scene_step_def)
      next
        case pt: (Inr prompt_text)
        obtain cr w2 where cj: "construct_job_config E bcfg (b_api_key_path bcfg)
            (path_name scene) v first (Some lst) prompt_text w1 = (cr, w2)"
          by (cases "construct_job_config E bcfg (b_api_key_path bcfg)
            (path_name scene) v first (Some lst) prompt_text w1")
        have p2: "Pick 0 \<notin> set (log w2)"
          using construct_job_config_log [of E bcfg "b_api_key_path bcfg" "path_name scene" v
              first "Some lst" prompt_text w1] cj p1 by simp
        show ?thesis
        proof (cases cr)
          case (Inl e)
          then show ?thesis
            using assms(1) True Inr ne pk lp pt cj p2 by (simp add: scene_step_def)
        next
          case jc: (Inr job_cfg)
          show ?thesis
          proof (cases "path_exists w2 (output_path job_cfg)")
            case True
            then show ?thesis
              using assms(1) \<open>path_exists w (joinpath scene (v_name v))\<close> Inr ne pk lp pt cj jc p2
              by (simp add: scene_step_def)
          next
            case False
            show ?thesis
            proof (cases "run_generation E job_cfg w2")
              case None
              then show ?thesis
                using assms(1) True Inr ne pk lp pt cj jc False by (simp add: scene_step_def)
            next
              case (Some y)
              obtain gr w3 where y: "y = (gr, w3)" by (cases y)
              have "Pick 0 \<notin> set (log w3)"
                using run_generation_picks [OF Some, of 0] y p2 by simp
              moreover have "w' = w3"
                using assms(1) True Inr ne pk lp pt cj jc False Some y
                by (cases gr) (simp_all add: scene_step_def)
              ultimately show ?thesis by simp
            qed
          qed
        qed
      qed
    qed
  qed
qed

lemma scene_loop_picks:
  "scene_loop E bcfg scene vs w = Some (r, w') \<Longrightarrow> Pick 0 \<notin> set (log w) \<Longrightarrow>
   Pick 0 \<notin> set (log w')"
proof (induction vs arbitrary: w)
  case Nil
  then show ?case by simp
next
  case (Cons v vs)
  from Cons.prems(1) obtain r1 w1 where s: "scene_step E bcfg scene v w = Some (r1, w1)"
    by (auto split: option.splits)
  have p1: "Pick 0 \<notin> set (log w1)" by (rule scene_step_picks [OF s Cons.prems(2)])
  show ?case
  proof (cases r1)
    case (Inl e)
    then show ?thesis using Cons.prems(1) s p1 by simp
  next
    case (Inr u)
    then have "scene_loop E bcfg scene vs w1 = Some (r, w')" using Cons.prems(1) s by simp
    then show ?thesis using p1 by (rule Cons.IH)
  qed
qed

lemma scenes_loop_picks:
  "scenes_loop E bcfg ss w = Some (r, w') \<Longrightarrow> Pick 0 \<notin> set (log w) \<Longrightarrow>
   Pick 0 \<notin> set (log w')"
proof (induction ss arbitrary: w)
  case Nil
  then show ?case by simp
next
  case (Cons sc ss)
  from Cons.prems(1) obtain r1 w1 where s: "scene_loop E bcfg sc (b_variants bcfg) w = Some (r1, w1)"
    by (auto simp: process_scene_folder_def split: option.splits)
  have p1: "Pick 0 \<notin> set (log w1)" by (rule scene_loop_picks [OF s Cons.prems(2)])
  show ?case
  proof (cases r1)
    case (Inl e)
    then show ?thesis using Cons.prems(1) s p1 by (simp add: process_scene_folder_def)
  next
    case (Inr u)
    then have "scenes_loop E bcfg ss w1 = Some (r, w')"
      using Cons.prems(1) s by (simp add: process_scene_folder_def)
    then show ?thesis using p1 by (rule Cons.IH)
  qed
qed

lemma batch_main_picks:
  assumes "batch_main E bcfg w = Some (r, w')" and "Pick 0 \<notin> set (log w)"
  shows "Pick 0 \<notin> set (log w')"
  using assms
  by (auto simp: batch_main_def split: sum.splits dest: scenes_loop_picks)

text \<open>
  C10. The listings of the scripts are sorted and do not depend on the order in which the
  operating system lists the entries: two file systems with the same entries give the same
  sorted walk of the input tree, the same images, the same scene folders and the same
  frames of a variant. The frame selection succeeds on every non-empty list, and in a run
  of the batch it is never called on an empty list.
\<close>

theorem enumeration_deterministic:
  "(mset (nodes w) = mset (nodes w') \<and> distinct (map fst (nodes w)) \<longrightarrow>
      sort (rglob w r) = sort (rglob w' r) \<and>
      iter_images w r = iter_images w' r \<and>
      group_folders w r = group_folders w' r \<and>
      list_variant_frames w folder = list_variant_frames w' folder)
   \<and> sorted (sort (rglob w r)) \<and> sorted (iter_images w r)
   \<and> (group_folders w r = Inr scenes \<longrightarrow> sorted scenes)
   \<and> (list_variant_frames w folder = Inr frames \<longrightarrow> sorted frames)
   \<and> (fs \<noteq> [] \<longrightarrow> (\<exists>first lst. pick_reference_frames fs = Inr (first, lst)))
   \<and> (batch_main E bcfg w = Some (res, w2) \<and> Pick 0 \<notin> set (log w) \<longrightarrow>
        Pick 0 \<notin> set (log w2))"
proof (intro conjI impI)
  assume a: "mset (nodes w) = mset (nodes w') \<and> distinct (map fst (nodes w))"
  then have m: "mset (nodes w) = mset (nodes w')" and d: "distinct (map fst (nodes w))"
    by simp_all
  show "sort (rglob w r) = sort (rglob w' r)"
    unfolding rglob_def by (rule sort_mset_eq) (rule same_entries_keys [OF m])
  show "iter_images w r = iter_images w' r" by (rule iter_images_same [OF m d])
  show "group_folders w r = group_folders w' r" by (rule group_folders_same [OF m d])
  show "list_variant_frames w folder = list_variant_frames w' folder"
    by (rule list_variant_frames_same [OF m d])
next
  show "sorted (sort (rglob w r))" by simp
  show "sorted (iter_images w r)" by (rule listings_sorted)
next
  assume "group_folders w r = Inr scenes"
  then show "sorted scenes" by (rule listings_sorted)
next
  assume "list_variant_frames w folder = Inr frames"
  then show "sorted frames" by (rule listings_sorted)
next
  assume "fs \<noteq> []"
  then show "\<exists>first lst. pick_reference_frames fs = Inr (first, lst)"
    by (rule pick_never_fails)
next
  assume "batch_main E bcfg w = Some (res, w2) \<and> Pick 0 \<notin> set (log w)"
  then show "Pick 0 \<notin> set (log w2)" using batch_main_picks by blast
qed

lemmas listing_eval = list_variant_frames_def group_folders_def iterdir_def
  node_at_def path_exists_def is_dir_def is_file_def parent_def
  suffix_of_def path_name_def rfind_dot_def lower_def lower_char_def image_suffix_def
  video_world_def video_nodes_def

theorem enumeration_deterministic_witness:
  "list_variant_frames shuffled_world [''in'', ''s1'', ''rain''] =
     Inr [[''in'', ''s1'', ''rain'', ''0000.png''], [''in'', ''s1'', ''rain'', ''0008.png'']]
   \<and> group_folders shuffled_world [''in''] = Inr [[''in'', ''s1'']]
   \<and> sorted [[''in'', ''s1'', ''rain'', ''0000.png''], [''in'', ''s1'', ''rain'', ''0008.png'']]
   \<and> (\<exists>first lst.
        pick_reference_frames
          [[''in'', ''s1'', ''rain'', ''0000.png''], [''in'', ''s1'', ''rain'', ''0008.png'']]
          = Inr (first, lst))
   \<and> Pick 0 \<notin> set [Load [''cfg'', ''rain.yaml''], Pick 1, Load [''cfg'', ''rain.yaml''], Pick 1]"
proof -
  let ?fs = "[[''in'', ''s1'', ''rain'', ''0000.png''], [''in'', ''s1'', ''rain'', ''0008.png'']]"
  have h: "mset (nodes video_world) = mset (nodes shuffled_world) \<and>
           distinct (map fst (nodes video_world))"
    by (simp add: shuffled_world_def video_world_def video_nodes_def)
  have f: "list_variant_frames video_world [''in'', ''s1'', ''rain''] = Inr ?fs"
    by (simp add: listing_eval)
  have g: "group_folders video_world [''in''] = Inr [[''in'', ''s1'']]"
    by (simp add: listing_eval)
  have ne: "?fs \<noteq> []" by simp
  note t = enumeration_deterministic [where w = video_world and w' = shuffled_world
      and r = "[''in'']" and folder = "[''in'', ''s1'', ''rain'']" and frames = ?fs
      and scenes = "[[''in'', ''s1'']]" and fs = ?fs]
  from t h have "list_variant_frames video_world [''in'', ''s1'', ''rain'']
                   = list_variant_frames shuffled_world [''in'', ''s1'', ''rain'']"
    and "group_folders video_world [''in''] = group_folders shuffled_world [''in'']"
    by blast+
  moreover from t f have "sorted ?fs" by blast
  moreover from t ne have "\<exists>first lst. pick_reference_frames ?fs = Inr (first, lst)" by blast
  moreover have "Pick 0 \<notin> set [Load [''cfg'', ''rain.yaml''], Pick 1,
                                 Load [''cfg'', ''rain.yaml''], Pick 1]"
  proof -
    let ?w2 = "\<lparr>nodes = two_scene_nodes,
                log = [Load [''cfg'', ''rain.yaml''], Pick 1,
                       Load [''cfg'', ''rain.yaml''], Pick 1]\<rparr>"
    have "batch_main good_env demo_batch_cfg two_scene_world = Some (Inr (), ?w2) \<and>
          Pick 0 \<notin> set (log two_scene_world)"
      using two_scene_run by (simp add: two_scene_world_def)
    with enumeration_deterministic [where E = good_env and bcfg = demo_batch_cfg
        and w = two_scene_world and res = "Inr ()" and ?w2.0 = ?w2]
    have "Pick 0 \<notin> set (log ?w2)" by blast
    then show ?thesis by simp
  qed
  ultimately show ?thesis using f g by simp
qed

section \<open>A second run of the pipeline\<close>

lemma grown_refl [simp]: "grown r w w"
  by (simp add: grown_def)

lemma grown_trans: "grown r w w1 \<Longrightarrow> grown r w1 w2 \<Longrightarrow> grown r w w2"
  by (fastforce simp: grown_def)

lemma grown_log [simp]:
  "grown r w (w'\<lparr>log := l\<rparr>) = grown r w w'"
  "grown r (w\<lparr>log := l\<rparr>) w' = grown r w w'"
  by (simp_all add: grown_def)

lemma grown_rglob: "grown r w w' \<Longrightarrow> rglob w' r = rglob w r"
  by (auto simp: grown_def rglob_def filter_empty_conv strict_prefix_def)

lemma grown_node_at: "grown r w w' \<Longrightarrow> node_at w p = Some n \<Longrightarrow> node_at w' p = Some n"
  by (auto simp: grown_def node_at_def map_add_def split: if_splits)

lemma grown_at:
  assumes "grown r w w'" and "prefix r p"
  shows "node_at w' p = node_at w p"
proof -
  from assms(1) obtain new where n: "nodes w' = nodes w @ new"
    and o: "\<forall>k \<in> fst ` set new. \<not> prefix r k"
    by (auto simp: grown_def)
  from o assms(2) have "p \<notin> fst ` set new" by blast
  then have "map_of new p = None" by (simp add: map_of_eq_None_iff)
  then show ?thesis by (simp add: node_at_def n map_add_def split: option.splits)
qed

lemma grown_below: "grown r w w' \<Longrightarrow> strict_prefix r p \<Longrightarrow> node_at w' p = node_at w p"
  by (simp add: grown_at strict_prefix_def)

lemma grown_is_file: "grown r w w' \<Longrightarrow> is_file w p \<Longrightarrow> is_file w' p"
  by (auto simp: is_file_def split: option.splits node.splits dest: grown_node_at)

lemma grown_is_dir: "grown r w w' \<Longrightarrow> is_dir w p \<Longrightarrow> is_dir w' p"
  by (auto simp: is_dir_def dest: grown_node_at)

lemma grown_path_exists: "grown r w w' \<Longrightarrow> path_exists w p \<Longrightarrow> path_exists w' p"
  by (auto simp: path_exists_def dest: grown_node_at)

lemma grown_read_bytes: "grown r w w' \<Longrightarrow> read_bytes w p = Inr b \<Longrightarrow> read_bytes w' p = Inr b"
  by (auto simp: read_bytes_def split: option.splits node.splits dest: grown_node_at)

lemma grown_is_file_below:
  "grown r w w' \<Longrightarrow> strict_prefix r p \<Longrightarrow> is_file w' p = is_file w p"
  by (simp add: is_file_def grown_below)

lemma fold_add_dir_append:
  "\<exists>new. fold add_dir ps ns = ns @ new \<and> fst ` set new \<subseteq> set ps"
proof (induction ps arbitrary: ns)
  case Nil
  then show ?case by simp
next
  case (Cons q ps)
  obtain new where n: "fold add_dir ps (add_dir q ns) = add_dir q ns @ new"
    and s: "fst ` set new \<subseteq> set ps"
    using Cons.IH [of "add_dir q ns"] by blast
  show ?case
  proof (cases "q = [] \<or> map_of ns q \<noteq> None")
    case True
    then have "add_dir q ns = ns" by (auto simp: add_dir_def)
    then show ?thesis using n s by (intro exI [of _ new]) auto
  next
    case False
    then have "add_dir q ns = ns @ [(q, Dir)]" by (auto simp: add_dir_def)
    then show ?thesis using n s by (intro exI [of _ "(q, Dir) # new"]) auto
  qed
qed

lemma fold_add_dir_id:
  "\<forall>q\<in>set ps. q = [] \<or> map_of ns q \<noteq> None \<Longrightarrow> fold add_dir ps ns = ns"
  by (induction ps) (auto simp: add_dir_def)

lemma mkdir_p_grown:
  assumes "mkdir_p d w = (Inr u, w1)" and "\<forall>q\<in>set (prefixes d). \<not> prefix r q"
  shows "grown r w w1"
proof -
  from assms(1) have w1: "w1 = w\<lparr>nodes := fold add_dir (prefixes d) (nodes w)\<rparr>"
    by (simp add: mkdir_p_Inr)
  obtain new where "fold add_dir (prefixes d) (nodes w) = nodes w @ new"
    and "fst ` set new \<subseteq> set (prefixes d)"
    using fold_add_dir_append by blast
  then show ?thesis using assms(2) by (auto simp: grown_def w1)
qed

lemma mkdir_p_again:
  assumes "\<forall>q\<in>set (prefixes d). is_dir w q"
  shows "mkdir_p d w = (Inr (), w)"
proof -
  have "\<not> list_ex (is_file w) (prefixes d)"
    using assms by (auto simp: list_ex_iff is_dir_def is_file_def)
  moreover have "fold add_dir (prefixes d) (nodes w) = nodes w"
    using assms by (intro fold_add_dir_id) (auto simp: is_dir_def node_at_def split: if_splits)
  ultimately show ?thesis by (simp add: mkdir_p_def)
qed

lemma update_absent: "map_of ns k = None \<Longrightarrow> AList.update k v ns = ns @ [(k, v)]"
  by (induction ns) (auto split: if_splits)

lemma write_bytes_grown:
  assumes "write_bytes p b w = (Inr u, w1)" and "\<not> path_exists w p" and "\<not> prefix r p"
  shows "grown r w w1 \<and> path_exists w1 p \<and> log w1 = log w"
proof -
  from assms(2) have ne: "p \<noteq> []" and ab: "map_of (nodes w) p = None"
    by (auto simp: path_exists_def node_at_def split: if_splits)
  from assms(1) have w1: "w1 = w\<lparr>nodes := AList.update p (File b) (nodes w)\<rparr>"
    by (auto simp: write_bytes_def split: if_splits)
  have "nodes w1 = nodes w @ [(p, File b)]" by (simp add: w1 update_absent [OF ab])
  then have "grown r w w1" using assms(3) by (simp add: grown_def)
  moreover have "path_exists w1 p"
    using ne by (simp add: path_exists_def node_at_def w1 update_conv')
  ultimately show ?thesis by (simp add: w1)
qed

lemma write_bytes_fails: "write_bytes p b w = (Inl e, w1) \<Longrightarrow> w1 = w"
  by (auto simp: write_bytes_def split: if_splits)

lemma try_block_cases:
  assumes "sbind (call_gemini_edit E req w) (write_bytes out) = (res, w1)"
  shows "(\<exists>e. res = Inl e \<and> w1 = w\<lparr>log := Call # log w\<rparr>) \<or>
         (\<exists>b. res = Inr () \<and> write_bytes out b (w\<lparr>log := Call # log w\<rparr>) = (Inr (), w1))"
proof (cases "edit E (ncalls (log w)) req")
  case (Inl e)
  then show ?thesis using assms by (auto simp: call_gemini_edit_def)
next
  case (Inr b)
  then have wr: "write_bytes out b (w\<lparr>log := Call # log w\<rparr>) = (res, w1)"
    using assms by (simp add: call_gemini_edit_def)
  show ?thesis
  proof (cases res)
    case (Inl e)
    then show ?thesis using wr write_bytes_fails [of out b "w\<lparr>log := Call # log w\<rparr>" e w1]
      by simp
  next
    case ok: (Inr u)
    then show ?thesis using wr by auto
  qed
qed

lemma attempts_grown:
  assumes "\<not> prefix r out"
  shows "attempts E req out d ns w = (Inr (), w') \<Longrightarrow> MAX_RETRIES \<in> set ns \<Longrightarrow>
         \<not> path_exists w out \<Longrightarrow> grown r w w' \<and> path_exists w' out"
proof (induction ns arbitrary: w)
  case Nil
  then show ?case by simp
next
  case (Cons a ns)
  obtain res w1 where t: "sbind (call_gemini_edit E req w) (write_bytes out) = (res, w1)"
    by (cases "sbind (call_gemini_edit E req w) (write_bytes out)")
  from try_block_cases [OF t] show ?case
  proof
    assume "\<exists>e. res = Inl e \<and> w1 = w\<lparr>log := Call # log w\<rparr>"
    then obtain e where res: "res = Inl e" and w1: "w1 = w\<lparr>log := Call # log w\<rparr>" by blast
    have na: "a \<noteq> MAX_RETRIES" using Cons.prems(1) t res by auto
    then have m: "MAX_RETRIES \<in> set ns" using Cons.prems(2) by auto
    obtain sr w2 where s: "sleep (d * real a) w1 = (sr, w2)" by (cases "sleep (d * real a) w1")
    have w2: "nodes w2 = nodes w1" using s by (auto simp: sleep_def split: if_splits)
    have ok: "sr = Inr ()" using Cons.prems(1) t res na s by (cases sr) auto
    then have rec: "attempts E req out d ns w2 = (Inr (), w')"
      using Cons.prems(1) t res na s by simp
    have ne: "\<not> path_exists w2 out"
      using Cons.prems(3) w2 w1 by (auto simp: path_exists_def node_at_def split: if_splits)
    from Cons.IH [OF rec m ne] have "grown r w2 w'" and pe: "path_exists w' out" by simp_all
    then have "grown r w w'" using w2 w1 by (simp add: grown_def)
    then show ?thesis using pe by simp
  next
    assume "\<exists>b. res = Inr () \<and> write_bytes out b (w\<lparr>log := Call # log w\<rparr>) = (Inr (), w1)"
    then obtain b where res: "res = Inr ()"
      and wr: "write_bytes out b (w\<lparr>log := Call # log w\<rparr>) = (Inr (), w1)" by blast
    have "w' = w1" using Cons.prems(1) t res by simp
    moreover have "\<not> path_exists (w\<lparr>log := Call # log w\<rparr>) out" using Cons.prems(3) by simp
    from write_bytes_grown [OF wr this assms]
    have "grown r w w1 \<and> path_exists w1 out" by simp
    ultimately show ?thesis by simp
  qed
qed

lemma max_in_range: "MAX_RETRIES \<in> set [1..<MAX_RETRIES + 1]"
  unfolding retry_range by (simp add: MAX_RETRIES_def)

lemma unit_done_grown: "grown r w w' \<Longrightarrow> unit_done cfg v w p \<Longrightarrow> unit_done cfg v w' p"
  by (auto simp: unit_done_def list_all_iff dest: grown_is_dir grown_path_exists)

lemma unit_done_log [simp]: "unit_done cfg v (w\<lparr>log := l\<rparr>) p = unit_done cfg v w p"
  by (simp add: unit_done_def list_all_iff)

text \<open>A unit that goes through leaves its output behind and does not touch the input
  tree.\<close>

lemma process_image_done:
  assumes "process_image E cfg d v pr p w = (Inr (), w')"
    and "prefix (input_root cfg) p"
    and "\<forall>q\<in>set (prefixes (out_dir cfg v (drop (length (input_root cfg)) p))).
           \<not> prefix (input_root cfg) q"
    and "\<not> prefix (input_root cfg) (out_path cfg v (drop (length (input_root cfg)) p))"
  shows "grown (input_root cfg) w w' \<and> unit_done cfg v w' p"
proof -
  let ?r = "input_root cfg"
  let ?rel = "drop (length ?r) p"
  let ?od = "out_dir cfg v ?rel"
  let ?op = "out_path cfg v ?rel"
  have rel: "relative_to p ?r = Inr ?rel" using assms(2) by (simp add: relative_to_def)
  obtain m w1 where mk: "mkdir_p ?od w = (m, w1)" by (cases "mkdir_p ?od w")
  have m: "m = Inr ()" using assms(1) rel mk by (cases m) (simp_all add: process_image_def)
  have g1: "grown ?r w w1" using mkdir_p_grown [OF mk [unfolded m] assms(3)] .
  have d1: "\<forall>q\<in>set (prefixes ?od). is_dir w1 q"
    using mkdir_p_is_dir [OF mk [unfolded m]] by blast
  show ?thesis
  proof (cases "path_exists w1 ?op")
    case True
    then have "w' = w1" using assms(1) rel mk m by (simp add: process_image_def)
    then show ?thesis using g1 d1 True by (simp add: unit_done_def list_all_iff)
  next
    case False
    obtain b where rb: "read_bytes w1 p = Inr b"
      using assms(1) rel mk m False
      by (cases "read_bytes w1 p") (simp_all add: process_image_def)
    let ?req = "\<lparr>req_model = model_name cfg, req_prompt = pr, req_image = b,
            req_creativity = creativity v, req_fidelity = fidelity v,
            req_width = output_width cfg, req_height = output_height cfg\<rparr>"
    obtain ra w2 where a: "attempts E ?req ?op d [1..<MAX_RETRIES + 1] w1 = (ra, w2)"
      by (cases "attempts E ?req ?op d [1..<MAX_RETRIES + 1] w1")
    have pi: "process_image E cfg d v pr p w = sbind (ra, w2) (\<lambda>u. sleep d)"
      using rel mk m False rb a by (simp add: process_image_def)
    have ra: "ra = Inr ()" using assms(1) pi by (cases ra) simp_all
    have sl: "sleep d w2 = (Inr (), w')" using assms(1) pi ra by simp
    then have w': "nodes w' = nodes w2" by (auto simp: sleep_def split: if_splits)
    from attempts_grown [OF assms(4) a [unfolded ra] max_in_range False]
    have g2: "grown ?r w1 w2" and pe: "path_exists w2 ?op" by simp_all
    have g3: "grown ?r w2 w'" using w' by (simp add: grown_def)
    have g: "grown ?r w w'" using g1 g2 g3 grown_trans by blast
    have "grown ?r w1 w'" using g2 g3 grown_trans by blast
    then have "\<forall>q\<in>set (prefixes ?od). is_dir w' q" using d1 grown_is_dir by blast
    moreover have "path_exists w' ?op" using pe g3 grown_path_exists by blast
    ultimately show ?thesis using g by (simp add: unit_done_def list_all_iff)
  qed
qed

text \<open>A unit whose output is there is skipped: nothing changes.\<close>

lemma process_image_skip:
  assumes "prefix (input_root cfg) p" and "unit_done cfg v w p"
  shows "process_image E cfg d v pr p w = (Inr (), w)"
proof -
  let ?rel = "drop (length (input_root cfg)) p"
  have "relative_to p (input_root cfg) = Inr ?rel" using assms(1) by (simp add: relative_to_def)
  moreover have "mkdir_p (out_dir cfg v ?rel) w = (Inr (), w)"
    using assms(2) by (intro mkdir_p_again) (simp add: unit_done_def list_all_iff)
  moreover have "path_exists w (out_path cfg v ?rel)" using assms(2) by (simp add: unit_done_def)
  ultimately show ?thesis by (simp add: process_image_def)
qed

lemma images_loop_skip:
  "\<forall>p\<in>set ps. is_file w p \<and> image_suffix p \<longrightarrow> prefix (input_root cfg) p \<and> unit_done cfg v w p
   \<Longrightarrow> images_loop E cfg d v pr ps w = (Inr (), w)"
  by (induction ps) (auto simp: process_image_skip)

lemma images_loop_done:
  "images_loop E cfg d v pr ps w = (Inr (), w') \<Longrightarrow>
   \<forall>p\<in>set ps. strict_prefix (input_root cfg) p \<and>
     (\<forall>q\<in>set (prefixes (out_dir cfg v (drop (length (input_root cfg)) p))).
        \<not> prefix (input_root cfg) q) \<and>
     \<not> prefix (input_root cfg) (out_path cfg v (drop (length (input_root cfg)) p)) \<Longrightarrow>
   grown (input_root cfg) w w' \<and>
   (\<forall>p\<in>set ps. is_file w p \<and> image_suffix p \<longrightarrow> unit_done cfg v w' p)"
proof (induction ps arbitrary: w)
  case Nil
  then show ?case by simp
next
  case (Cons p ps)
  let ?r = "input_root cfg"
  have rest: "\<forall>p\<in>set ps. strict_prefix ?r p \<and>
     (\<forall>q\<in>set (prefixes (out_dir cfg v (drop (length ?r) p))). \<not> prefix ?r q) \<and>
     \<not> prefix ?r (out_path cfg v (drop (length ?r) p))"
    using Cons.prems(2) by simp
  show ?case
  proof (cases "is_file w p \<and> image_suffix p")
    case False
    then have "images_loop E cfg d v pr ps w = (Inr (), w')" using Cons.prems(1) by auto
    from Cons.IH [OF this rest] False show ?thesis by auto
  next
    case True
    obtain r1 w1 where pi: "process_image E cfg d v pr p w = (r1, w1)"
      by (cases "process_image E cfg d v pr p w")
    have r1: "r1 = Inr ()" using Cons.prems(1) True pi by (cases r1) simp_all
    have rec: "images_loop E cfg d v pr ps w1 = (Inr (), w')"
      using Cons.prems(1) True pi r1 by simp
    have pp: "prefix ?r p" using Cons.prems(2) by (simp add: strict_prefix_def)
    from process_image_done [OF pi [unfolded r1] pp] Cons.prems(2)
    have g1: "grown ?r w w1" and d1: "unit_done cfg v w1 p" by simp_all
    from Cons.IH [OF rec rest]
    have g2: "grown ?r w1 w'"
      and d2: "\<forall>p\<in>set ps. is_file w1 p \<and> image_suffix p \<longrightarrow> unit_done cfg v w' p"
      by simp_all
    have "grown ?r w w'" using g1 g2 by (rule grown_trans)
    moreover have "unit_done cfg v w' p" using g2 d1 by (rule unit_done_grown)
    moreover have "\<forall>p\<in>set ps. is_file w p \<and> image_suffix p \<longrightarrow> unit_done cfg v w' p"
      using d2 g1 grown_is_file by blast
    ultimately show ?thesis by simp
  qed
qed

text \<open>The prompt of a variant is read from a file that a run does not change.\<close>

lemma load_prompt_template_fst:
  "fst (load_prompt_template E p w) =
     ebind (ebind (read_bytes w p) (yaml_load E)) (\<lambda>data.
        case data of
          YMap m \<Rightarrow>
            ebind (str_field m ''positive'') (\<lambda>pos.
            ebind (str_field m ''negative'') (\<lambda>neg.
              Inr \<lparr>positive = pos, negative = neg\<rparr>))
        | _ \<Rightarrow> Inl TypeError)"
  by (cases "read_bytes w p") (simp_all add: load_prompt_template_def load_yaml_def)

lemma load_prompt_template_grown:
  assumes "grown r w w'" and "fst (load_prompt_template E p w) = Inr t"
  shows "fst (load_prompt_template E p w') = Inr t"
proof (cases "read_bytes w p")
  case (Inl e)
  then show ?thesis using assms(2) by (simp add: load_prompt_template_fst)
next
  case (Inr b)
  then have "read_bytes w' p = Inr b" using assms(1) grown_read_bytes by blast
  then show ?thesis using assms(2) Inr by (simp add: load_prompt_template_fst)
qed

lemma load_prompt_template_world:
  "snd (load_prompt_template E p w) = w\<lparr>log := Load p # log w\<rparr>"
  by (simp add: load_prompt_template_def)

lemma load_prompt_template_edit [simp]:
  "load_prompt_template (E\<lparr>edit := f\<rparr>) p w = load_prompt_template E p w"
  by (cases "read_bytes w p") (simp_all add: load_prompt_template_def load_yaml_def)

lemma load_prompt_template_log [simp]:
  "fst (load_prompt_template E p (w\<lparr>log := l\<rparr>)) = fst (load_prompt_template E p w)"
  by (simp add: load_prompt_template_fst read_bytes_def)

lemma get_template_cases:
  assumes "get_template E cache p w = (Inr (t, cache1), w1)"
  shows "(cache p = Some t \<and> cache1 = cache \<and> w1 = w) \<or>
         (cache p = None \<and> fst (load_prompt_template E p w) = Inr t \<and>
          cache1 = cache(p \<mapsto> t) \<and> w1 = w\<lparr>log := Load p # log w\<rparr>)"
proof (cases "cache p")
  case (Some t')
  then show ?thesis using assms by (simp add: get_template_def)
next
  case None
  obtain lr lw where l: "load_prompt_template E p w = (lr, lw)"
    by (cases "load_prompt_template E p w")
  have lw: "lw = w\<lparr>log := Load p # log w\<rparr>"
    using load_prompt_template_world [of E p w] l by simp
  show ?thesis using assms None l lw by (cases lr) (auto simp: get_template_def)
qed

lemma rglob_log [simp]: "rglob (w\<lparr>log := l\<rparr>) r = rglob w r"
  by (simp add: rglob_def)

lemma rglob_below: "p \<in> set (rglob w r) \<Longrightarrow> strict_prefix r p"
  by (simp add: rglob_def)

text \<open>
  After a run that went through, every unit of every variant is done and every prompt can
  be read.
\<close>

lemma variants_loop_done:
  "variants_loop E cfg d vs cache w = (Inr (), w') \<Longrightarrow>
   \<forall>v\<in>set vs. \<forall>p\<in>set (rglob w (input_root cfg)).
     (\<forall>q\<in>set (prefixes (out_dir cfg v (drop (length (input_root cfg)) p))).
        \<not> prefix (input_root cfg) q) \<and>
     \<not> prefix (input_root cfg) (out_path cfg v (drop (length (input_root cfg)) p)) \<Longrightarrow>
   grown (input_root cfg) w w' \<and>
   (\<forall>v\<in>set vs.
      (cache (prompt_path v) \<noteq> None \<or>
       (\<exists>t. fst (load_prompt_template E (prompt_path v) w') = Inr t)) \<and>
      (\<forall>p\<in>set (rglob w (input_root cfg)).
         is_file w p \<and> image_suffix p \<longrightarrow> unit_done cfg v w' p))"
proof (induction vs arbitrary: cache w)
  case Nil
  then show ?case by simp
next
  case (Cons v vs)
  let ?r = "input_root cfg"
  let ?pp = "prompt_path v"
  obtain g w1 where gt: "get_template E cache ?pp w = (g, w1)"
    by (cases "get_template E cache ?pp w")
  obtain t cache1 where g: "g = Inr (t, cache1)"
    using Cons.prems(1) gt by (cases g) auto
  from get_template_cases [OF gt [unfolded g]]
  have n1: "nodes w1 = nodes w"
    and c1: "cache1 = cache \<or> cache1 = cache(?pp \<mapsto> t)"
    and ld: "cache ?pp \<noteq> None \<or> fst (load_prompt_template E ?pp w) = Inr t"
    by auto
  have g01: "grown ?r w w1" using n1 by (simp add: grown_def)
  have rg1: "rglob w1 ?r = rglob w ?r" using n1 by (simp add: rglob_def)
  have f1: "is_file w1 = is_file w" using n1 by (simp add: is_file_def node_at_def fun_eq_iff)
  let ?il = "images_loop E cfg d v (build_prompt t) (sort (rglob w1 ?r)) w1"
  obtain r2 w2 where il: "?il = (r2, w2)" by (cases ?il)
  have r2: "r2 = Inr ()" using Cons.prems(1) gt g il by (cases r2) simp_all
  have rec: "variants_loop E cfg d vs cache1 w2 = (Inr (), w')"
    using Cons.prems(1) gt g il r2 by simp
  have cond: "\<forall>p\<in>set (sort (rglob w1 ?r)). strict_prefix ?r p \<and>
     (\<forall>q\<in>set (prefixes (out_dir cfg v (drop (length ?r) p))). \<not> prefix ?r q) \<and>
     \<not> prefix ?r (out_path cfg v (drop (length ?r) p))"
    using Cons.prems(2) rg1 rglob_below by auto
  from images_loop_done [OF il [unfolded r2] cond]
  have g12: "grown ?r w1 w2"
    and d2: "\<forall>p\<in>set (rglob w ?r). is_file w p \<and> image_suffix p \<longrightarrow> unit_done cfg v w2 p"
    using rg1 f1 by simp_all
  have g02: "grown ?r w w2" using g01 g12 by (rule grown_trans)
  have rg2: "rglob w2 ?r = rglob w ?r" using g02 by (rule grown_rglob)
  have cond2: "\<forall>v\<in>set vs. \<forall>p\<in>set (rglob w2 ?r).
     (\<forall>q\<in>set (prefixes (out_dir cfg v (drop (length ?r) p))). \<not> prefix ?r q) \<and>
     \<not> prefix ?r (out_path cfg v (drop (length ?r) p))"
    using Cons.prems(2) rg2 by simp
  from Cons.IH [OF rec cond2]
  have g2': "grown ?r w2 w'"
    and rest: "\<forall>v\<in>set vs.
      (cache1 (prompt_path v) \<noteq> None \<or>
       (\<exists>t. fst (load_prompt_template E (prompt_path v) w') = Inr t)) \<and>
      (\<forall>p\<in>set (rglob w2 ?r). is_file w2 p \<and> image_suffix p \<longrightarrow> unit_done cfg v w' p)"
    by simp_all
  have g: "grown ?r w w'" using g02 g2' by (rule grown_trans)
  have lv: "cache ?pp \<noteq> None \<or> (\<exists>t. fst (load_prompt_template E ?pp w') = Inr t)"
    using ld load_prompt_template_grown [OF g] by blast
  have dv: "\<forall>p\<in>set (rglob w ?r). is_file w p \<and> image_suffix p \<longrightarrow> unit_done cfg v w' p"
    using d2 unit_done_grown [OF g2'] by blast
  have "(cache (prompt_path v') \<noteq> None \<or>
         (\<exists>t. fst (load_prompt_template E (prompt_path v') w') = Inr t)) \<and>
        (\<forall>p\<in>set (rglob w ?r). is_file w p \<and> image_suffix p \<longrightarrow> unit_done cfg v' w' p)"
    if "v' \<in> set vs" for v'
  proof
    from rest that have "cache1 (prompt_path v') \<noteq> None \<or>
       (\<exists>t. fst (load_prompt_template E (prompt_path v') w') = Inr t)" by blast
    then show "cache (prompt_path v') \<noteq> None \<or>
         (\<exists>t. fst (load_prompt_template E (prompt_path v') w') = Inr t)"
      using c1 lv by (cases "prompt_path v' = ?pp") auto
    show "\<forall>p\<in>set (rglob w ?r). is_file w p \<and> image_suffix p \<longrightarrow> unit_done cfg v' w' p"
    proof (intro ballI impI)
      fix p assume p: "p \<in> set (rglob w ?r)" and f: "is_file w p \<and> image_suffix p"
      have "is_file w2 p" using f g02 grown_is_file by blast
      then show "unit_done cfg v' w' p" using rest that p rg2 f by auto
    qed
  qed
  then show ?case using g lv dv by simp
qed

text \<open>In a world where every unit is done the loops only read the prompts.\<close>

lemma variants_loop_skip:
  "\<forall>v\<in>set vs.
      (cache (prompt_path v) \<noteq> None \<or>
       (\<exists>t. fst (load_prompt_template E (prompt_path v) w) = Inr t)) \<and>
      (\<forall>p\<in>set (rglob w (input_root cfg)).
         is_file w p \<and> image_suffix p \<longrightarrow> unit_done cfg v w p) \<Longrightarrow>
   \<exists>w'. variants_loop E cfg d vs cache w = (Inr (), w') \<and> nodes w' = nodes w \<and>
        ncalls (log w') = ncalls (log w)"
proof (induction vs arbitrary: cache w)
  case Nil
  then show ?case by simp
next
  case (Cons v vs)
  let ?r = "input_root cfg"
  let ?pp = "prompt_path v"
  have "\<exists>t cache1 w1. get_template E cache ?pp w = (Inr (t, cache1), w1) \<and>
          (w1 = w \<or> w1 = w\<lparr>log := Load ?pp # log w\<rparr>) \<and>
          (\<forall>x. cache x \<noteq> None \<longrightarrow> cache1 x \<noteq> None)"
  proof (cases "cache ?pp")
    case (Some t)
    then show ?thesis by (simp add: get_template_hit)
  next
    case None
    then obtain t where "fst (load_prompt_template E ?pp w) = Inr t"
      using Cons.prems by auto
    then show ?thesis using None by (auto simp: get_template_miss)
  qed
  then obtain t cache1 w1 where gt: "get_template E cache ?pp w = (Inr (t, cache1), w1)"
    and w1: "w1 = w \<or> w1 = w\<lparr>log := Load ?pp # log w\<rparr>"
    and mono: "\<forall>x. cache x \<noteq> None \<longrightarrow> cache1 x \<noteq> None"
    by blast
  have n1: "nodes w1 = nodes w" and c1: "ncalls (log w1) = ncalls (log w)"
    using w1 by auto
  have same: "rglob w1 ?r = rglob w ?r" "is_file w1 = is_file w"
    "\<And>v p. unit_done cfg v w1 p = unit_done cfg v w p"
    "\<And>p. fst (load_prompt_template E p w1) = fst (load_prompt_template E p w)"
    using w1 by auto
  have "\<forall>p\<in>set (sort (rglob w1 ?r)). is_file w1 p \<and> image_suffix p \<longrightarrow>
          prefix ?r p \<and> unit_done cfg v w1 p"
    using Cons.prems same rglob_below by (auto simp: strict_prefix_def)
  then have il: "images_loop E cfg d v (build_prompt t) (sort (rglob w1 ?r)) w1 = (Inr (), w1)"
    by (rule images_loop_skip)
  have "\<forall>v\<in>set vs.
      (cache1 (prompt_path v) \<noteq> None \<or>
       (\<exists>t. fst (load_prompt_template E (prompt_path v) w1) = Inr t)) \<and>
      (\<forall>p\<in>set (rglob w1 ?r). is_file w1 p \<and> image_suffix p \<longrightarrow> unit_done cfg v w1 p)"
    using Cons.prems same mono by auto
  from Cons.IH [OF this] obtain w' where "variants_loop E cfg d vs cache1 w1 = (Inr (), w')"
    and "nodes w' = nodes w1" and "ncalls (log w') = ncalls (log w1)" by blast
  then show ?case using gt il n1 c1 by simp
qed

lemma resolve_api_key_grown:
  assumes "grown r w w'" and "resolve_api_key E kp w = Inr k"
  shows "resolve_api_key E kp w' = Inr k"
proof (cases "(case api_key_env E of Some k \<Rightarrow> k | None \<Rightarrow> []) = [] \<and>
              (case kp of Some p \<Rightarrow> path_exists w p | None \<Rightarrow> False)")
  case True
  then obtain p where kp: "kp = Some p" and ex: "path_exists w p" by (cases kp) auto
  from assms(2) True kp obtain b where rb: "read_bytes w p = Inr b"
    by (cases "read_bytes w p") (auto simp: resolve_api_key_def Let_def)
  have "path_exists w' p" using assms(1) ex by (rule grown_path_exists)
  moreover have "read_bytes w' p = Inr b" using assms(1) rb by (rule grown_read_bytes)
  ultimately show ?thesis using assms(2) True kp rb by (simp add: resolve_api_key_def Let_def)
next
  case False
  then have ne: "(case api_key_env E of Some k \<Rightarrow> k | None \<Rightarrow> []) \<noteq> []"
    using assms(2) by (auto simp: resolve_api_key_def Let_def split: if_splits)
  then show ?thesis using assms(2) by (simp add: resolve_api_key_def Let_def)
qed

lemma resolve_api_key_edit [simp]:
  "resolve_api_key (E\<lparr>edit := f\<rparr>) kp w = resolve_api_key E kp w"
  by (simp add: resolve_api_key_def)

lemma outputs_outsideD:
  "outputs_outside cfg w \<Longrightarrow> v \<in> set (variants cfg) \<Longrightarrow> p \<in> set (rglob w (input_root cfg)) \<Longrightarrow>
   (\<forall>q\<in>set (prefixes (out_dir cfg v (drop (length (input_root cfg)) p))).
      \<not> prefix (input_root cfg) q) \<and>
   \<not> prefix (input_root cfg) (out_path cfg v (drop (length (input_root cfg)) p))"
  by (simp add: outputs_outside_def list_all_iff)

lemma process_images_again:
  assumes "process_images E cfg q w = (Inr (), w1)" and "outputs_outside cfg w"
  shows "\<exists>w2. process_images (E\<lparr>edit := f\<rparr>) cfg q' w1 = (Inr (), w2) \<and>
              nodes w2 = nodes w1 \<and> ncalls (log w2) = ncalls (log w1)"
proof -
  let ?r = "input_root cfg"
  obtain k where key: "resolve_api_key E (api_key_path cfg) w = Inr k"
    using assms(1) by (cases "resolve_api_key E (api_key_path cfg) w")
      (simp_all add: process_images_def)
  have vl: "variants_loop E cfg (delay_of q) (variants cfg) Map.empty w = (Inr (), w1)"
    using assms(1) key by (simp add: process_images_def)
  have cond: "\<forall>v\<in>set (variants cfg). \<forall>p\<in>set (rglob w ?r).
     (\<forall>q\<in>set (prefixes (out_dir cfg v (drop (length ?r) p))). \<not> prefix ?r q) \<and>
     \<not> prefix ?r (out_path cfg v (drop (length ?r) p))"
    using outputs_outsideD [OF assms(2)] by blast
  from variants_loop_done [OF vl cond]
  have g: "grown ?r w w1"
    and dn: "\<forall>v\<in>set (variants cfg).
      (\<exists>t. fst (load_prompt_template E (prompt_path v) w1) = Inr t) \<and>
      (\<forall>p\<in>set (rglob w ?r). is_file w p \<and> image_suffix p \<longrightarrow> unit_done cfg v w1 p)"
    by simp_all
  have rg: "rglob w1 ?r = rglob w ?r" using g by (rule grown_rglob)
  have "\<forall>v\<in>set (variants cfg).
      (Map.empty (prompt_path v) \<noteq> None \<or>
       (\<exists>t. fst (load_prompt_template (E\<lparr>edit := f\<rparr>) (prompt_path v) w1) = Inr t)) \<and>
      (\<forall>p\<in>set (rglob w1 ?r). is_file w1 p \<and> image_suffix p \<longrightarrow> unit_done cfg v w1 p)"
  proof (intro ballI conjI impI)
    fix v assume v: "v \<in> set (variants cfg)"
    show "Map.empty (prompt_path v) \<noteq> None \<or>
       (\<exists>t. fst (load_prompt_template (E\<lparr>edit := f\<rparr>) (prompt_path v) w1) = Inr t)"
      using dn v by simp
    fix p assume p: "p \<in> set (rglob w1 ?r)" and fl: "is_file w1 p \<and> image_suffix p"
    have "strict_prefix ?r p" using p by (rule rglob_below)
    then have "is_file w p" using fl grown_is_file_below [OF g] by simp
    then show "unit_done cfg v w1 p" using dn v p rg fl by simp
  qed
  from variants_loop_skip [OF this, of "delay_of q'"]
  obtain w2 where "variants_loop (E\<lparr>edit := f\<rparr>) cfg (delay_of q') (variants cfg) Map.empty w1
                     = (Inr (), w2)"
    and "nodes w2 = nodes w1" and "ncalls (log w2) = ncalls (log w1)" by blast
  moreover have "resolve_api_key (E\<lparr>edit := f\<rparr>) (api_key_path cfg) w1 = Inr k"
    using resolve_api_key_grown [OF g key] by simp
  ultimately show ?thesis by (simp add: process_images_def)
qed

section \<open>A second run of the video batch\<close>

lemma nrequests_simps [simp]:
  "nrequests [] = 0"
  "nrequests (Submit # l) = Suc (nrequests l)"
  "nrequests (Poll # l) = Suc (nrequests l)"
  "nrequests (Fetch # l) = Suc (nrequests l)"
  "nrequests (Sleep d # l) = nrequests l"
  "nrequests (Load p # l) = nrequests l"
  "nrequests (Pick n # l) = nrequests l"
  "nrequests (Call # l) = nrequests l"
  by (simp_all add: nrequests_def)

lemma grown_iterdir:
  assumes "grown r w w'" and "prefix r d"
  shows "iterdir w' d = iterdir w d"
proof -
  from assms(1) obtain new where n: "nodes w' = nodes w @ new"
    and o: "\<forall>k \<in> fst ` set new. \<not> prefix r k"
    by (auto simp: grown_def)
  have at: "node_at w' d = node_at w d" using assms by (rule grown_at)
  have "\<not> (p \<noteq> [] \<and> parent p = d)" if "p \<in> fst ` set new" for p
  proof
    assume "p \<noteq> [] \<and> parent p = d"
    then have "p = d @ [last p]"
      using append_butlast_last_id [of p] by (auto simp: parent_def)
    then have "prefix d p" by (metis prefixI)
    then have "prefix r p" using assms(2) by (rule prefix_order.trans [rotated])
    then show False using o that by blast
  qed
  then have "filter (\<lambda>p. p \<noteq> [] \<and> parent p = d) (map fst new) = []"
    by (auto simp: filter_empty_conv)
  then show ?thesis by (simp add: iterdir_def is_dir_def path_exists_def at n)
qed

lemma iterdir_children:
  "iterdir w d = Inr entries \<Longrightarrow> p \<in> set entries \<Longrightarrow> strict_prefix d p"
proof -
  assume a: "iterdir w d = Inr entries" and p: "p \<in> set entries"
  from a have "entries = filter (\<lambda>p. p \<noteq> [] \<and> parent p = d) (map fst (nodes w))"
    by (auto simp: iterdir_def split: if_splits)
  then have "p \<noteq> []" and "parent p = d" using p by auto
  then have "p = d @ [last p]"
    using append_butlast_last_id [of p] by (auto simp: parent_def)
  then show ?thesis by (metis strict_prefixI')
qed

lemma grown_list_variant_frames:
  "grown r w w' \<Longrightarrow> prefix r d \<Longrightarrow> list_variant_frames w' d = list_variant_frames w d"
  by (simp add: list_variant_frames_def grown_iterdir)

lemma grown_group_folders:
  assumes "grown r w w'"
  shows "group_folders w' r = group_folders w r"
proof -
  have ex: "path_exists w' r = path_exists w r"
    using assms by (simp add: path_exists_def grown_at)
  have it: "iterdir w' r = iterdir w r" using assms by (simp add: grown_iterdir)
  show ?thesis
  proof (cases "iterdir w r")
    case (Inl e)
    then show ?thesis by (simp add: group_folders_def ex it)
  next
    case (Inr entries)
    have "filter (is_dir w') entries = filter (is_dir w) entries"
    proof (rule filter_cong [OF refl])
      fix p assume "p \<in> set entries"
      then have "strict_prefix r p" using Inr iterdir_children by blast
      then show "is_dir w' p = is_dir w p" using assms by (simp add: is_dir_def grown_below)
    qed
    then show ?thesis by (simp add: group_folders_def ex it Inr)
  qed
qed

lemma group_folders_children:
  "group_folders w r = Inr scenes \<Longrightarrow> scene \<in> set scenes \<Longrightarrow> strict_prefix r scene"
  by (cases "iterdir w r") (auto simp: group_folders_def split: if_splits dest: iterdir_children)

text \<open>A video job changes the files only when it saves its result.\<close>

lemma poll_once_nodes:
  "nodes (snd (poll_once E i operation w)) = nodes w"
  by (cases "operations_get E (npolls (log (w\<lparr>log := Sleep i # log w\<rparr>))) operation")
    (auto simp: poll_once_def sleep_def sbind_def)

lemma poll_loop_nodes:
  assumes "poll_loop E i operation w = Some y"
  shows "nodes (snd y) = nodes w"
proof (rule poll_loop.raw_induct
    [where P = "\<lambda>E i operation w y. nodes (snd y) = nodes w", OF _ assms])
  fix pl E i operation w y
  assume ih: "\<And>E i operation w y. pl E i operation w = Some y \<Longrightarrow> nodes (snd y) = nodes w"
    and body: "(if op_done operation then Some (Inr operation, w)
                else case poll_once E i operation w of
                       (Inl e, w1) \<Rightarrow> Some (Inl e, w1)
                     | (Inr operation1, w1) \<Rightarrow> pl E i operation1 w1) = Some y"
  show "nodes (snd y) = nodes w"
  proof (cases "op_done operation")
    case True
    then show ?thesis using body by auto
  next
    case False
    obtain r w1 where p: "poll_once E i operation w = (r, w1)"
      by (cases "poll_once E i operation w")
    have l1: "nodes w1 = nodes w"
      using poll_once_nodes [of E i operation w] p by simp
    show ?thesis
    proof (cases r)
      case (Inl e)
      then show ?thesis using body False p l1 by auto
    next
      case (Inr operation1)
      then have "pl E i operation1 w1 = Some y" using body False p by simp
      from ih [OF this] l1 show ?thesis by simp
    qed
  qed
qed

lemma nrequests_mono_cons: "nrequests l \<le> nrequests (e # l)"
  by (simp add: nrequests_def)

lemma poll_once_requests:
  "nrequests (log w) \<le> nrequests (log (snd (poll_once E i operation w)))"
  by (cases "operations_get E (npolls (log (w\<lparr>log := Sleep i # log w\<rparr>))) operation")
    (auto simp: poll_once_def sleep_def sbind_def)

lemma poll_loop_requests:
  assumes "poll_loop E i operation w = Some y"
  shows "nrequests (log w) \<le> nrequests (log (snd y))"
proof (rule poll_loop.raw_induct
    [where P = "\<lambda>E i operation w y. nrequests (log w) \<le> nrequests (log (snd y))", OF _ assms])
  fix pl E i operation w y
  assume ih: "\<And>E i operation w y. pl E i operation w = Some y \<Longrightarrow>
                 nrequests (log w) \<le> nrequests (log (snd y))"
    and body: "(if op_done operation then Some (Inr operation, w)
                else case poll_once E i operation w of
                       (Inl e, w1) \<Rightarrow> Some (Inl e, w1)
                     | (Inr operation1, w1) \<Rightarrow> pl E i operation1 w1) = Some y"
  show "nrequests (log w) \<le> nrequests (log (snd y))"
  proof (cases "op_done operation")
    case True
    then show ?thesis using body by auto
  next
    case False
    obtain r w1 where p: "poll_once E i operation w = (r, w1)"
      by (cases "poll_once E i operation w")
    have l1: "nrequests (log w) \<le> nrequests (log w1)"
      using poll_once_requests [of w E i operation] p by simp
    show ?thesis
    proof (cases r)
      case (Inl e)
      then show ?thesis using body False p l1 by auto
    next
      case (Inr operation1)
      then have "pl E i operation1 w1 = Some y" using body False p by simp
      from ih [OF this] l1 show ?thesis by simp
    qed
  qed
qed

text \<open>A result that is saved is saved at the output path, which was free.\<close>

lemma save_result_done:
  assumes "save_result E cfg k operation w = (Inr out, w')"
    and "\<not> path_exists w (output_path cfg)"
    and "\<forall>q\<in>set (prefixes (parent (output_path cfg))). \<not> prefix r q"
    and "\<not> prefix r (output_path cfg)"
  shows "grown r w w' \<and> path_exists w' (output_path cfg) \<and>
         nrequests (log w) \<le> nrequests (log w')"
proof -
  let ?o = "output_path cfg"
  have ne: "?o \<noteq> []" using assms(2) by (auto simp: path_exists_def node_at_def)
  obtain m w1 where m: "mkdir_p (parent ?o) w = (m, w1)" by (cases "mkdir_p (parent ?o) w")
  have step: "grown r w w' \<and> path_exists w' ?o \<and> nrequests (log w) \<le> nrequests (log w')"
    if mk: "mkdir_p (parent ?o) w = (Inr (), w1)"
      and wr: "write_bytes ?o b (w1\<lparr>log := l\<rparr>) = (Inr (), w')"
      and l: "nrequests (log w) \<le> nrequests l" for b l
  proof -
    have g1: "grown r w w1" using mk assms(3) by (rule mkdir_p_grown)
    have "node_at w1 ?o = node_at w ?o"
      by (rule mkdir_p_keeps [OF mk not_prefix_of_parent [OF ne]])
    then have "\<not> path_exists (w1\<lparr>log := l\<rparr>) ?o" using assms(2) by (simp add: path_exists_def)
    from write_bytes_grown [OF wr this assms(4)]
    have "grown r w1 w'" and "path_exists w' ?o" and "log w' = l" by simp_all
    then show ?thesis using g1 l grown_trans by auto
  qed
  have l0: "log w1 = log w" using mkdir_p_log [of "parent ?o" w] m by simp
  show ?thesis
  proof (cases "op_error operation \<noteq> None \<and> op_error operation \<noteq> Some []")
    case True
    then show ?thesis using assms(1) by (simp add: save_result_def)
  next
    case False
    then obtain v vs where r: "op_result operation = Some (Some v # vs)"
      using assms(1)
      by (auto simp: save_result_def split: option.splits list.splits if_splits)
    show ?thesis
    proof (cases "video_bytes v \<noteq> None \<and> video_bytes v \<noteq> Some []")
      case True
      have "save_result E cfg k operation w =
              sbind (mkdir_p (parent ?o) w) (\<lambda>u w1.
                  sbind (write_bytes ?o (the (video_bytes v)) w1) (\<lambda>u w2. (Inr ?o, w2)))"
        unfolding save_result_def
        by (simp only: if_not_P [OF False] r option.case list.case if_P [OF True])
      then have "sbind (mkdir_p (parent ?o) w) (\<lambda>u w1.
                  sbind (write_bytes ?o (the (video_bytes v)) w1) (\<lambda>u w2. (Inr ?o, w2)))
                 = (Inr out, w')"
        using assms(1) by simp
      then have mk: "mkdir_p (parent ?o) w = (Inr (), w1)"
        and wr: "write_bytes ?o (the (video_bytes v)) w1 = (Inr (), w')"
        using m by (auto simp: sbind_def split: sum.splits prod.splits)
      have "w1 = w1\<lparr>log := log w1\<rparr>" by simp
      then have "write_bytes ?o (the (video_bytes v)) (w1\<lparr>log := log w1\<rparr>) = (Inr (), w')"
        using wr by simp
      from step [OF mk this] l0 show ?thesis by simp
    next
      case nb: False
      have u: "uri v \<noteq> None \<and> uri v \<noteq> Some []"
      proof (rule ccontr)
        assume nu: "\<not> (uri v \<noteq> None \<and> uri v \<noteq> Some [])"
        have "save_result E cfg k operation w =
                (Inl (RuntimeError ''Video response missing data and URI''), w)"
          unfolding save_result_def
          by (simp only: if_not_P [OF False] r option.case list.case if_not_P [OF nb]
              if_not_P [OF nu])
        then show False using assms(1) by simp
      qed
      have "save_result E cfg k operation w =
               sbind (mkdir_p (parent ?o) w) (\<lambda>u w1.
                    (case requests_get E (the (uri v)) k of
                       Inl e \<Rightarrow> (Inl e, w1\<lparr>log := Fetch # log w1\<rparr>)
                     | Inr content \<Rightarrow>
                         sbind (write_bytes ?o content (w1\<lparr>log := Fetch # log w1\<rparr>))
                           (\<lambda>u w2. (Inr ?o, w2))))"
        unfolding save_result_def
        by (simp only: if_not_P [OF False] r option.case list.case if_not_P [OF nb]
            if_P [OF u])
      then have "sbind (mkdir_p (parent ?o) w) (\<lambda>u w1.
                    (case requests_get E (the (uri v)) k of
                       Inl e \<Rightarrow> (Inl e, w1\<lparr>log := Fetch # log w1\<rparr>)
                     | Inr content \<Rightarrow>
                         sbind (write_bytes ?o content (w1\<lparr>log := Fetch # log w1\<rparr>))
                           (\<lambda>u w2. (Inr ?o, w2)))) = (Inr out, w')"
        using assms(1) by simp
      then obtain content where mk: "mkdir_p (parent ?o) w = (Inr (), w1)"
        and wr: "write_bytes ?o content (w1\<lparr>log := Fetch # log w1\<rparr>) = (Inr (), w')"
        using m by (auto simp: sbind_def split: sum.splits prod.splits)
      from step [OF mk wr] l0 show ?thesis by simp
    qed
  qed
qed

lemma run_generation_done:
  assumes "run_generation E cfg w = Some (Inr out, w')"
    and "\<not> path_exists w (output_path cfg)"
    and "\<forall>q\<in>set (prefixes (parent (output_path cfg))). \<not> prefix r q"
    and "\<not> prefix r (output_path cfg)"
  shows "grown r w w' \<and> path_exists w' (output_path cfg) \<and>
         nrequests (log w) < nrequests (log w')"
proof (cases "prepare_job E cfg w")
  case (Inl e)
  then show ?thesis using assms(1) by (auto simp: run_generation_def)
next
  case (Inr kr)
  obtain k request where kr: "kr = (k, request)" by (cases kr)
  let ?w0 = "w\<lparr>log := Submit # log w\<rparr>"
  show ?thesis
  proof (cases "generate_videos E (nsubmits (log w)) request")
    case (Inl e)
    then show ?thesis using assms(1) Inr kr by (auto simp: run_generation_def)
  next
    case op: (Inr operation)
    show ?thesis
    proof (cases "poll_loop E (poll_interval_seconds cfg) operation ?w0")
      case None
      then show ?thesis using assms(1) Inr kr op by (simp add: run_generation_def)
    next
      case (Some z)
      obtain r1 w1 where z: "z = (r1, w1)" by (cases z)
      have n1: "nodes w1 = nodes w" using poll_loop_nodes [OF Some] z by simp
      have q1: "Suc (nrequests (log w)) \<le> nrequests (log w1)"
        using poll_loop_requests [OF Some] z by simp
      show ?thesis
      proof (cases r1)
        case (Inl e)
        then show ?thesis using assms(1) Inr kr op Some z by (auto simp: run_generation_def)
      next
        case ok: (Inr operation1)
        then have s: "save_result E cfg k operation1 w1 = (Inr out, w')"
          using assms(1) Inr kr op Some z by (simp add: run_generation_def)
        have "\<not> path_exists w1 (output_path cfg)"
          using assms(2) n1 by (auto simp: path_exists_def node_at_def split: if_splits)
        from save_result_done [OF s this assms(3,4)]
        have "grown r w1 w'" and "path_exists w' (output_path cfg)"
          and "nrequests (log w1) \<le> nrequests (log w')" by simp_all
        moreover have "grown r w w1" using n1 by (simp add: grown_def)
        ultimately show ?thesis using q1 grown_trans by fastforce
      qed
    qed
  qed
qed

text \<open>What the steps of the batch read of the provider and of the world.\<close>

lemma py_int_env: "str_int E2 = str_int E \<Longrightarrow> py_int E2 v = py_int E v"
  by (cases v) simp_all

lemma py_float_env: "str_float E2 = str_float E \<Longrightarrow> py_float E2 v = py_float E v"
  by (cases v) simp_all

lemma construct_job_config_env:
  assumes "str_int E2 = str_int E" and "str_float E2 = str_float E"
    and "reference_types E2 = reference_types E"
  shows "construct_job_config E2 cfg kp sn v first lst t w =
         construct_job_config E cfg kp sn v first lst t w"
  by (simp add: construct_job_config_def lookup_reference_type_def
      py_int_env [OF assms(1)] py_float_env [OF assms(2)] assms(3))

lemma load_prompt_text_env:
  "yaml_load E2 = yaml_load E \<Longrightarrow> load_prompt_text E2 p w = load_prompt_text E p w"
  by (cases "read_bytes w p") (simp_all add: load_prompt_text_def load_yaml_def)

lemma load_prompt_text_world: "snd (load_prompt_text E p w) = w\<lparr>log := Load p # log w\<rparr>"
  by (simp add: load_prompt_text_def)

lemma load_prompt_text_fst_log [simp]:
  "fst (load_prompt_text E p (w\<lparr>log := l\<rparr>)) = fst (load_prompt_text E p w)"
  by (simp add: load_prompt_text_def load_yaml_def read_bytes_def)

lemma load_prompt_text_grown:
  assumes "grown r w w'" and "fst (load_prompt_text E p w) = Inr t"
  shows "fst (load_prompt_text E p w') = Inr t"
proof (cases "read_bytes w p")
  case (Inl e)
  then show ?thesis using assms(2) by (simp add: load_prompt_text_def load_yaml_def)
next
  case (Inr b)
  then have "read_bytes w' p = Inr b" using assms(1) grown_read_bytes by blast
  then show ?thesis using assms(2) Inr by (simp add: load_prompt_text_def load_yaml_def)
qed

lemma case_mkdir_Inr:
  assumes "(case x of Inl e \<Rightarrow> (Inl e, w)
            | Inr (j :: VideoJobConfig) \<Rightarrow> sbind (mkdir_p d w) (\<lambda>u w1. (Inr j, w1)))
           = (Inr job, w1)"
  shows "x = Inr job \<and> mkdir_p d w = (Inr (), w1)"
  using assms by (cases x) (auto simp: sbind_def split: sum.splits prod.splits)

lemma case_mkdir_move:
  assumes "x = Inr job \<and> mkdir_p d w = (Inr (), w1)" and "mkdir_p d w' = (Inr (), w1')"
  shows "(case x of Inl e \<Rightarrow> (Inl e, w')
          | Inr (j :: VideoJobConfig) \<Rightarrow> sbind (mkdir_p d w') (\<lambda>u w1. (Inr j, w1)))
         = (Inr job, w1')"
  using assms by (simp add: sbind_def)

lemma is_file_log_fun [simp]: "is_file (w\<lparr>log := l\<rparr>) = is_file w"
  by (simp add: fun_eq_iff)

lemma is_dir_log_fun [simp]: "is_dir (w\<lparr>log := l\<rparr>) = is_dir w"
  by (simp add: fun_eq_iff)

lemma case_mkdir_fst_log:
  "fst (case x of Inl e \<Rightarrow> (Inl e, w\<lparr>log := l\<rparr>)
        | Inr (j :: VideoJobConfig) \<Rightarrow> sbind (mkdir_p d (w\<lparr>log := l\<rparr>)) (\<lambda>u w1. (Inr j, w1)))
   = fst (case x of Inl e \<Rightarrow> (Inl e, w)
        | Inr (j :: VideoJobConfig) \<Rightarrow> sbind (mkdir_p d w) (\<lambda>u w1. (Inr j, w1)))"
  by (cases x) (simp_all add: sbind_def mkdir_p_def)

lemma construct_job_config_mkdir:
  assumes "construct_job_config E cfg kp sn v first lst t w = (Inr job, w1)"
  shows "mkdir_p (output_dir cfg sn v) w = (Inr (), w1)"
  using case_mkdir_Inr [OF assms [unfolded construct_job_config_def]] by simp

lemma construct_job_config_move:
  assumes "construct_job_config E cfg kp sn v first lst t w = (Inr job, w1)"
    and "mkdir_p (output_dir cfg sn v) w' = (Inr (), w1')"
  shows "construct_job_config E cfg kp sn v first lst t w' = (Inr job, w1')"
  unfolding construct_job_config_def
  by (rule case_mkdir_move [OF case_mkdir_Inr [OF assms(1) [unfolded construct_job_config_def]]
        assms(2)])

lemma construct_job_config_fst_log [simp]:
  "fst (construct_job_config E cfg kp sn v first lst t (w\<lparr>log := l\<rparr>)) =
   fst (construct_job_config E cfg kp sn v first lst t w)"
  unfolding construct_job_config_def by (rule case_mkdir_fst_log)

lemma iterdir_log [simp]: "iterdir (w\<lparr>log := l\<rparr>) d = iterdir w d"
  by (simp add: iterdir_def)

lemma list_variant_frames_log [simp]:
  "list_variant_frames (w\<lparr>log := l\<rparr>) d = list_variant_frames w d"
  by (simp add: list_variant_frames_def)

text \<open>A pair that is done stays done.\<close>

lemma video_doneI:
  assumes "list_variant_frames w (joinpath scene (v_name v)) = Inr frames"
    and "pick_reference_frames frames = Inr (first, lst)"
    and "fst (load_prompt_text E (v_prompt_path v) w) = Inr t"
    and "fst (construct_job_config E cfg (b_api_key_path cfg) (path_name scene) v first
               (Some lst) t w) = Inr job"
    and "\<forall>q\<in>set (prefixes (output_dir cfg (path_name scene) v)). is_dir w q"
    and "path_exists w (output_path job)"
  shows "video_done E cfg scene v w"
  using assms by (simp add: video_done_def list_all_iff)

lemma video_doneE:
  assumes "video_done E cfg scene v w" and "path_exists w (joinpath scene (v_name v))"
  shows "\<exists>frames. list_variant_frames w (joinpath scene (v_name v)) = Inr frames \<and>
           (frames = [] \<or>
            (\<exists>first lst t job. pick_reference_frames frames = Inr (first, lst) \<and>
               fst (load_prompt_text E (v_prompt_path v) w) = Inr t \<and>
               fst (construct_job_config E cfg (b_api_key_path cfg) (path_name scene) v first
                     (Some lst) t w) = Inr job \<and>
               (\<forall>q\<in>set (prefixes (output_dir cfg (path_name scene) v)). is_dir w q) \<and>
               path_exists w (output_path job)))"
proof -
  let ?vf = "joinpath scene (v_name v)"
  obtain frames where f: "list_variant_frames w ?vf = Inr frames"
    using assms by (cases "list_variant_frames w ?vf") (simp_all add: video_done_def)
  show ?thesis
  proof (cases "frames = []")
    case True
    then show ?thesis using f by simp
  next
    case False
    obtain first lst where p: "pick_reference_frames frames = Inr (first, lst)"
      using pick_never_fails [OF False] by (cases "pick_reference_frames frames") auto
    obtain t where l: "fst (load_prompt_text E (v_prompt_path v) w) = Inr t"
      using assms f False p
      by (cases "fst (load_prompt_text E (v_prompt_path v) w)") (simp_all add: video_done_def)
    obtain job where j: "fst (construct_job_config E cfg (b_api_key_path cfg) (path_name scene)
                               v first (Some lst) t w) = Inr job"
      using assms f False p l
      by (cases "fst (construct_job_config E cfg (b_api_key_path cfg) (path_name scene)
                               v first (Some lst) t w)") (simp_all add: video_done_def)
    have "(\<forall>q\<in>set (prefixes (output_dir cfg (path_name scene) v)). is_dir w q) \<and>
          path_exists w (output_path job)"
      using assms f False p l j by (simp add: video_done_def list_all_iff)
    then show ?thesis using f p l j by blast
  qed
qed

lemma video_done_log [simp]:
  "video_done E cfg scene v (w\<lparr>log := l\<rparr>) = video_done E cfg scene v w"
  by (simp add: video_done_def cong: sum.case_cong prod.case_cong)

lemma video_done_nodes:
  assumes "nodes w2 = nodes w"
  shows "video_done E cfg scene v w2 = video_done E cfg scene v w"
proof -
  have "w2 = w\<lparr>log := log w2\<rparr>" using assms by simp
  then have "video_done E cfg scene v w2 = video_done E cfg scene v (w\<lparr>log := log w2\<rparr>)"
    by simp
  then show ?thesis by simp
qed

lemma job_parts_grown:
  assumes "grown r w w'"
    and "fst (load_prompt_text E pp w) = Inr t"
    and "fst (construct_job_config E cfg kp sn v first lst t w) = Inr job"
    and "\<forall>q\<in>set (prefixes (output_dir cfg sn v)). is_dir w q"
  shows "fst (load_prompt_text E pp w') = Inr t \<and>
         construct_job_config E cfg kp sn v first lst t w' = (Inr job, w') \<and>
         (\<forall>q\<in>set (prefixes (output_dir cfg sn v)). is_dir w' q)"
proof -
  have d: "\<forall>q\<in>set (prefixes (output_dir cfg sn v)). is_dir w' q"
    using assms(1,4) grown_is_dir by blast
  then have m: "mkdir_p (output_dir cfg sn v) w' = (Inr (), w')" by (rule mkdir_p_again)
  obtain w1 where "construct_job_config E cfg kp sn v first lst t w = (Inr job, w1)"
    using assms(3) by (cases "construct_job_config E cfg kp sn v first lst t w") simp
  then have "construct_job_config E cfg kp sn v first lst t w' = (Inr job, w')"
    using m by (rule construct_job_config_move)
  then show ?thesis using d load_prompt_text_grown [OF assms(1,2)] by simp
qed

lemma video_done_grown:
  assumes "grown r w w'" and "strict_prefix r (joinpath scene (v_name v))"
    and "video_done E cfg scene v w"
  shows "video_done E cfg scene v w'"
proof (cases "path_exists w (joinpath scene (v_name v))")
  case False
  then have "\<not> path_exists w' (joinpath scene (v_name v))"
    using assms(1,2) by (simp add: path_exists_def grown_below)
  then show ?thesis by (simp add: video_done_def)
next
  case True
  let ?vf = "joinpath scene (v_name v)"
  have pf: "prefix r ?vf" using assms(2) by (simp add: strict_prefix_def)
  have lf: "list_variant_frames w' ?vf = list_variant_frames w ?vf"
    using assms(1) pf by (rule grown_list_variant_frames)
  from video_doneE [OF assms(3) True] obtain frames where
    f: "list_variant_frames w ?vf = Inr frames"
    and c: "frames = [] \<or>
            (\<exists>first lst t job. pick_reference_frames frames = Inr (first, lst) \<and>
               fst (load_prompt_text E (v_prompt_path v) w) = Inr t \<and>
               fst (construct_job_config E cfg (b_api_key_path cfg) (path_name scene) v first
                     (Some lst) t w) = Inr job \<and>
               (\<forall>q\<in>set (prefixes (output_dir cfg (path_name scene) v)). is_dir w q) \<and>
               path_exists w (output_path job))"
    by blast
  show ?thesis
  proof (cases "frames = []")
    case True
    then show ?thesis using f lf by (simp add: video_done_def)
  next
    case False
    with c obtain first lst t job where
      p: "pick_reference_frames frames = Inr (first, lst)"
      and l: "fst (load_prompt_text E (v_prompt_path v) w) = Inr t"
      and j: "fst (construct_job_config E cfg (b_api_key_path cfg) (path_name scene) v first
                     (Some lst) t w) = Inr job"
      and d: "\<forall>q\<in>set (prefixes (output_dir cfg (path_name scene) v)). is_dir w q"
      and e: "path_exists w (output_path job)"
      by blast
    from job_parts_grown [OF assms(1) l j d]
    have "fst (load_prompt_text E (v_prompt_path v) w') = Inr t"
      and "fst (construct_job_config E cfg (b_api_key_path cfg) (path_name scene) v first
                     (Some lst) t w') = Inr job"
      and "\<forall>q\<in>set (prefixes (output_dir cfg (path_name scene) v)). is_dir w' q"
      by simp_all
    moreover have "path_exists w' (output_path job)" using assms(1) e by (rule grown_path_exists)
    moreover have "list_variant_frames w' ?vf = Inr frames" using f lf by simp
    ultimately show ?thesis using p by (intro video_doneI)
  qed
qed

text \<open>A pair that is done is left without a request.\<close>

lemma scene_step_skip:
  assumes "video_done E cfg scene v w"
    and "yaml_load E2 = yaml_load E" and "str_int E2 = str_int E"
    and "str_float E2 = str_float E" and "reference_types E2 = reference_types E"
  shows "\<exists>w2. scene_step E2 cfg scene v w = Some (Inr (), w2) \<and> nodes w2 = nodes w \<and>
              nrequests (log w2) = nrequests (log w)"
proof (cases "path_exists w (joinpath scene (v_name v))")
  case False
  then show ?thesis by (simp add: scene_step_def)
next
  case True
  let ?vf = "joinpath scene (v_name v)"
  from video_doneE [OF assms(1) True] obtain frames where
    f: "list_variant_frames w ?vf = Inr frames"
    and c: "frames = [] \<or>
            (\<exists>first lst t job. pick_reference_frames frames = Inr (first, lst) \<and>
               fst (load_prompt_text E (v_prompt_path v) w) = Inr t \<and>
               fst (construct_job_config E cfg (b_api_key_path cfg) (path_name scene) v first
                     (Some lst) t w) = Inr job \<and>
               (\<forall>q\<in>set (prefixes (output_dir cfg (path_name scene) v)). is_dir w q) \<and>
               path_exists w (output_path job))"
    by blast
  show ?thesis
  proof (cases "frames = []")
    case True
    then show ?thesis using f \<open>path_exists w ?vf\<close> by (simp add: scene_step_def)
  next
    case False
    with c obtain first lst t job where
      p: "pick_reference_frames frames = Inr (first, lst)"
      and l: "fst (load_prompt_text E (v_prompt_path v) w) = Inr t"
      and j: "fst (construct_job_config E cfg (b_api_key_path cfg) (path_name scene) v first
                     (Some lst) t w) = Inr job"
      and d: "\<forall>q\<in>set (prefixes (output_dir cfg (path_name scene) v)). is_dir w q"
      and e: "path_exists w (output_path job)"
      by blast
    let ?w0 = "w\<lparr>log := Pick (length frames) # log w\<rparr>"
    let ?w1 = "w\<lparr>log := Load (v_prompt_path v) # Pick (length frames) # log w\<rparr>"
    have "fst (load_prompt_text E2 (v_prompt_path v) ?w0) = Inr t"
      using l by (simp add: load_prompt_text_env [OF assms(2)])
    moreover have "snd (load_prompt_text E2 (v_prompt_path v) ?w0) = ?w1"
      by (simp add: load_prompt_text_world)
    ultimately have l2: "load_prompt_text E2 (v_prompt_path v) ?w0 = (Inr t, ?w1)"
      by (simp add: prod_eq_iff)
    obtain wj where "construct_job_config E cfg (b_api_key_path cfg) (path_name scene) v first
                     (Some lst) t w = (Inr job, wj)"
      using j by (cases "construct_job_config E cfg (b_api_key_path cfg) (path_name scene) v
                     first (Some lst) t w") simp
    moreover have "mkdir_p (output_dir cfg (path_name scene) v) ?w1 = (Inr (), ?w1)"
      using d by (intro mkdir_p_again) simp
    ultimately have "construct_job_config E cfg (b_api_key_path cfg) (path_name scene) v first
                     (Some lst) t ?w1 = (Inr job, ?w1)"
      by (rule construct_job_config_move)
    then have j2: "construct_job_config E2 cfg (b_api_key_path cfg) (path_name scene) v first
                     (Some lst) t ?w1 = (Inr job, ?w1)"
      by (simp add: construct_job_config_env [OF assms(3,4,5)])
    have "scene_step E2 cfg scene v w = Some (Inr (), ?w1)"
      using True f False p l2 j2 e by (simp add: scene_step_def)
    then show ?thesis by simp
  qed
qed

text \<open>A round that went through leaves its pair done.\<close>

lemma scene_step_done:
  assumes "scene_step E cfg scene v w = Some (Inr (), w')"
    and "strict_prefix r (joinpath scene (v_name v))"
    and "\<forall>q\<in>set (prefixes (output_dir cfg (path_name scene) v)). \<not> prefix r q"
    and "\<forall>q\<in>set (prefixes (parent (job_output_path cfg (path_name scene) v))). \<not> prefix r q"
    and "\<not> prefix r (job_output_path cfg (path_name scene) v)"
  shows "grown r w w' \<and> video_done E cfg scene v w'"
proof (cases "path_exists w (joinpath scene (v_name v))")
  case False
  then have "w' = w" using assms(1) by (simp add: scene_step_def)
  then show ?thesis using False by (simp add: video_done_def)
next
  case True
  let ?vf = "joinpath scene (v_name v)"
  let ?od = "output_dir cfg (path_name scene) v"
  let ?jo = "job_output_path cfg (path_name scene) v"
  have pf: "prefix r ?vf" using assms(2) by (simp add: strict_prefix_def)
  obtain frames where f: "list_variant_frames w ?vf = Inr frames"
    using assms(1) True by (cases "list_variant_frames w ?vf") (simp_all add: scene_step_def)
  show ?thesis
  proof (cases "frames = []")
    case True
    then have "w' = w" using assms(1) \<open>path_exists w ?vf\<close> f by (simp add: scene_step_def)
    then show ?thesis using f True by (simp add: video_done_def)
  next
    case False
    let ?w0 = "w\<lparr>log := Pick (length frames) # log w\<rparr>"
    obtain first lst where p: "pick_reference_frames frames = Inr (first, lst)"
      using pick_never_fails [OF False] by (cases "pick_reference_frames frames") auto
    obtain lr w1 where l: "load_prompt_text E (v_prompt_path v) ?w0 = (lr, w1)"
      by (cases "load_prompt_text E (v_prompt_path v) ?w0")
    obtain t where lr: "lr = Inr t"
      using assms(1) True f False p l by (cases lr) (simp_all add: scene_step_def)
    have w1: "w1 = w\<lparr>log := Load (v_prompt_path v) # Pick (length frames) # log w\<rparr>"
      using load_prompt_text_world [of E "v_prompt_path v" ?w0] l by simp
    have lt: "fst (load_prompt_text E (v_prompt_path v) w) = Inr t"
    proof -
      have "fst (load_prompt_text E (v_prompt_path v) ?w0) = Inr t" using l lr by simp
      then show ?thesis by simp
    qed
    obtain cr w2 where c: "construct_job_config E cfg (b_api_key_path cfg) (path_name scene) v
                             first (Some lst) t w1 = (cr, w2)"
      by (cases "construct_job_config E cfg (b_api_key_path cfg) (path_name scene) v
                             first (Some lst) t w1")
    obtain job where cr: "cr = Inr job"
      using assms(1) True f False p l lr c by (cases cr) (simp_all add: scene_step_def)
    have jo: "output_path job = ?jo"
      using c cr construct_job_config_output_path by blast
    have mk: "mkdir_p ?od w1 = (Inr (), w2)"
      using c cr construct_job_config_mkdir by blast
    have g01: "grown r w w1" by (simp add: w1)
    have g12: "grown r w1 w2" using mk assms(3) by (rule mkdir_p_grown)
    have d2: "\<forall>q\<in>set (prefixes ?od). is_dir w2 q"
      using mkdir_p_is_dir [OF mk] by blast
    have j2: "fst (construct_job_config E cfg (b_api_key_path cfg) (path_name scene) v
                             first (Some lst) t w2) = Inr job"
      using construct_job_config_move [OF c [unfolded cr] mkdir_p_again [OF d2]] by simp
    have l2: "fst (load_prompt_text E (v_prompt_path v) w2) = Inr t"
      using load_prompt_text_grown [OF grown_trans [OF g01 g12] lt] .
    have fin: "grown r w2 w' \<and> path_exists w' ?jo"
    proof (cases "path_exists w2 ?jo")
      case True
      then have "w' = w2"
        using assms(1) \<open>path_exists w ?vf\<close> f False p l lr c cr jo by (simp add: scene_step_def)
      then show ?thesis using True by simp
    next
      case ne: False
      obtain out where rg: "run_generation E job w2 = Some (Inr out, w')"
        using assms(1) \<open>path_exists w ?vf\<close> f False p l lr c cr jo ne
        by (auto simp: scene_step_def split: option.splits sum.splits prod.splits)
      from run_generation_done [OF rg, of r] ne assms(4,5) jo show ?thesis by simp
    qed
    then have g2: "grown r w2 w'" and e: "path_exists w' (output_path job)"
      using jo by simp_all
    have g: "grown r w w'" using g01 g12 g2 grown_trans by blast
    from job_parts_grown [OF g2 l2 j2 d2]
    have "fst (load_prompt_text E (v_prompt_path v) w') = Inr t"
      and "fst (construct_job_config E cfg (b_api_key_path cfg) (path_name scene) v first
                     (Some lst) t w') = Inr job"
      and "\<forall>q\<in>set (prefixes ?od). is_dir w' q"
      by simp_all
    moreover have "list_variant_frames w' ?vf = Inr frames"
      using f grown_list_variant_frames [OF g pf] by simp
    ultimately have "video_done E cfg scene v w'" using p e by (intro video_doneI)
    then show ?thesis using g by simp
  qed
qed

text \<open>The loops of the batch, in a run that went through and in a world where all is done.\<close>

lemma scene_loop_done:
  "scene_loop E cfg scene vs w = Some (Inr (), w') \<Longrightarrow>
   \<forall>v\<in>set vs.
     strict_prefix r (joinpath scene (v_name v)) \<and>
     (\<forall>q\<in>set (prefixes (output_dir cfg (path_name scene) v)). \<not> prefix r q) \<and>
     (\<forall>q\<in>set (prefixes (parent (job_output_path cfg (path_name scene) v))). \<not> prefix r q) \<and>
     \<not> prefix r (job_output_path cfg (path_name scene) v) \<Longrightarrow>
   grown r w w' \<and> (\<forall>v\<in>set vs. video_done E cfg scene v w')"
proof (induction vs arbitrary: w)
  case Nil
  then show ?case by simp
next
  case (Cons v vs)
  obtain y where s: "scene_step E cfg scene v w = Some y"
    using Cons.prems(1) by (cases "scene_step E cfg scene v w") simp_all
  obtain r1 w1 where y: "y = (r1, w1)" by (cases y)
  have r1: "r1 = Inr ()" using Cons.prems(1) s y by (cases r1) simp_all
  have rest: "scene_loop E cfg scene vs w1 = Some (Inr (), w')"
    using Cons.prems(1) s y r1 by simp
  have "grown r w w1 \<and> video_done E cfg scene v w1"
    using s [unfolded y r1] Cons.prems(2) by (intro scene_step_done) simp_all
  moreover have "grown r w1 w' \<and> (\<forall>v\<in>set vs. video_done E cfg scene v w')"
    using rest Cons.prems(2) by (intro Cons.IH) simp_all
  moreover have "strict_prefix r (joinpath scene (v_name v))" using Cons.prems(2) by simp
  ultimately show ?case using grown_trans video_done_grown by auto
qed

lemma scenes_loop_done:
  "scenes_loop E cfg scenes w = Some (Inr (), w') \<Longrightarrow>
   \<forall>scene\<in>set scenes. \<forall>v\<in>set (b_variants cfg).
     strict_prefix r (joinpath scene (v_name v)) \<and>
     (\<forall>q\<in>set (prefixes (output_dir cfg (path_name scene) v)). \<not> prefix r q) \<and>
     (\<forall>q\<in>set (prefixes (parent (job_output_path cfg (path_name scene) v))). \<not> prefix r q) \<and>
     \<not> prefix r (job_output_path cfg (path_name scene) v) \<Longrightarrow>
   grown r w w' \<and>
   (\<forall>scene\<in>set scenes. \<forall>v\<in>set (b_variants cfg). video_done E cfg scene v w')"
proof (induction scenes arbitrary: w)
  case Nil
  then show ?case by simp
next
  case (Cons scene scenes)
  obtain y where s: "scene_loop E cfg scene (b_variants cfg) w = Some y"
    using Cons.prems(1)
    by (cases "scene_loop E cfg scene (b_variants cfg) w")
      (simp_all add: process_scene_folder_def)
  obtain r1 w1 where y: "y = (r1, w1)" by (cases y)
  have r1: "r1 = Inr ()"
    using Cons.prems(1) s y by (cases r1) (simp_all add: process_scene_folder_def)
  have rest: "scenes_loop E cfg scenes w1 = Some (Inr (), w')"
    using Cons.prems(1) s y r1 by (simp add: process_scene_folder_def)
  have a: "grown r w w1 \<and> (\<forall>v\<in>set (b_variants cfg). video_done E cfg scene v w1)"
    using s [unfolded y r1] Cons.prems(2) by (intro scene_loop_done) simp_all
  have b: "grown r w1 w' \<and>
           (\<forall>scene\<in>set scenes. \<forall>v\<in>set (b_variants cfg). video_done E cfg scene v w')"
    using rest Cons.prems(2) by (intro Cons.IH) simp_all
  have "video_done E cfg scene v w'" if "v \<in> set (b_variants cfg)" for v
  proof -
    have "strict_prefix r (joinpath scene (v_name v))" using Cons.prems(2) that by simp
    then show ?thesis using a b that video_done_grown by blast
  qed
  then show ?case using a b grown_trans by auto
qed

lemma scene_loop_skip:
  assumes "yaml_load E2 = yaml_load E" and "str_int E2 = str_int E"
    and "str_float E2 = str_float E" and "reference_types E2 = reference_types E"
  shows "\<forall>v\<in>set vs. video_done E cfg scene v w \<Longrightarrow>
         \<exists>w2. scene_loop E2 cfg scene vs w = Some (Inr (), w2) \<and> nodes w2 = nodes w \<and>
              nrequests (log w2) = nrequests (log w)"
proof (induction vs arbitrary: w)
  case Nil
  then show ?case by simp
next
  case (Cons v vs)
  have "video_done E cfg scene v w" using Cons.prems by simp
  from scene_step_skip [OF this assms] obtain w1 where
    s: "scene_step E2 cfg scene v w = Some (Inr (), w1)"
    and n: "nodes w1 = nodes w" and q: "nrequests (log w1) = nrequests (log w)"
    by blast
  have "\<forall>v\<in>set vs. video_done E cfg scene v w1"
    using Cons.prems video_done_nodes [OF n] by simp
  from Cons.IH [OF this] obtain w2 where
    "scene_loop E2 cfg scene vs w1 = Some (Inr (), w2)"
    and "nodes w2 = nodes w1" and "nrequests (log w2) = nrequests (log w1)"
    by blast
  then show ?case using s n q by simp
qed

lemma scenes_loop_skip:
  assumes "yaml_load E2 = yaml_load E" and "str_int E2 = str_int E"
    and "str_float E2 = str_float E" and "reference_types E2 = reference_types E"
  shows "\<forall>scene\<in>set scenes. \<forall>v\<in>set (b_variants cfg). video_done E cfg scene v w \<Longrightarrow>
         \<exists>w2. scenes_loop E2 cfg scenes w = Some (Inr (), w2) \<and> nodes w2 = nodes w \<and>
              nrequests (log w2) = nrequests (log w)"
proof (induction scenes arbitrary: w)
  case Nil
  then show ?case by simp
next
  case (Cons scene scenes)
  have "\<forall>v\<in>set (b_variants cfg). video_done E cfg scene v w" using Cons.prems by simp
  from scene_loop_skip [OF assms this] obtain w1 where
    s: "scene_loop E2 cfg scene (b_variants cfg) w = Some (Inr (), w1)"
    and n: "nodes w1 = nodes w" and q: "nrequests (log w1) = nrequests (log w)"
    by blast
  have "\<forall>scene\<in>set scenes. \<forall>v\<in>set (b_variants cfg). video_done E cfg scene v w1"
    using Cons.prems video_done_nodes [OF n] by simp
  from Cons.IH [OF this] obtain w2 where
    "scenes_loop E2 cfg scenes w1 = Some (Inr (), w2)"
    and "nodes w2 = nodes w1" and "nrequests (log w2) = nrequests (log w1)"
    by blast
  then show ?case using s n q by (simp add: process_scene_folder_def)
qed

lemma resolve_api_key_env:
  "api_key_env E2 = api_key_env E \<Longrightarrow> resolve_api_key E2 kp w = resolve_api_key E kp w"
  by (simp add: resolve_api_key_def)

lemma videos_outsideD:
  assumes "videos_outside cfg w" and "group_folders w (b_input_root cfg) = Inr scenes"
    and "scene \<in> set scenes" and "v \<in> set (b_variants cfg)"
  shows "strict_prefix (b_input_root cfg) (joinpath scene (v_name v)) \<and>
     (\<forall>q\<in>set (prefixes (output_dir cfg (path_name scene) v)). \<not> prefix (b_input_root cfg) q) \<and>
     (\<forall>q\<in>set (prefixes (parent (job_output_path cfg (path_name scene) v))).
        \<not> prefix (b_input_root cfg) q) \<and>
     \<not> prefix (b_input_root cfg) (job_output_path cfg (path_name scene) v)"
  using assms by (simp add: videos_outside_def list_all_iff)

lemma batch_main_again:
  assumes "batch_main E cfg w = Some (Inr (), w1)" and "videos_outside cfg w"
    and "api_key_env E2 = api_key_env E"
    and "yaml_load E2 = yaml_load E" and "str_int E2 = str_int E"
    and "str_float E2 = str_float E" and "reference_types E2 = reference_types E"
  shows "\<exists>w2. batch_main E2 cfg w1 = Some (Inr (), w2) \<and> nodes w2 = nodes w1 \<and>
              nrequests (log w2) = nrequests (log w1)"
proof -
  let ?r = "b_input_root cfg"
  obtain k where key: "resolve_api_key E (b_api_key_path cfg) w = Inr k"
    using assms(1) by (cases "resolve_api_key E (b_api_key_path cfg) w")
      (simp_all add: batch_main_def)
  obtain scenes where gf: "group_folders w ?r = Inr scenes"
    using assms(1) key by (cases "group_folders w ?r") (simp_all add: batch_main_def)
  let ?E = "case api_key_env E of None \<Rightarrow> E\<lparr>api_key_env := Some k\<rparr> | Some k' \<Rightarrow> E"
  let ?E2 = "case api_key_env E2 of None \<Rightarrow> E2\<lparr>api_key_env := Some k\<rparr> | Some k' \<Rightarrow> E2"
  have sl: "scenes_loop ?E cfg scenes w = Some (Inr (), w1)"
    using assms(1) key gf by (simp add: batch_main_def)
  have cond: "\<forall>scene\<in>set scenes. \<forall>v\<in>set (b_variants cfg).
     strict_prefix ?r (joinpath scene (v_name v)) \<and>
     (\<forall>q\<in>set (prefixes (output_dir cfg (path_name scene) v)). \<not> prefix ?r q) \<and>
     (\<forall>q\<in>set (prefixes (parent (job_output_path cfg (path_name scene) v))). \<not> prefix ?r q) \<and>
     \<not> prefix ?r (job_output_path cfg (path_name scene) v)"
    using videos_outsideD [OF assms(2) gf] by blast
  from scenes_loop_done [OF sl cond]
  have g: "grown ?r w w1"
    and dn: "\<forall>scene\<in>set scenes. \<forall>v\<in>set (b_variants cfg). video_done ?E cfg scene v w1"
    by simp_all
  have e: "yaml_load ?E2 = yaml_load ?E" "str_int ?E2 = str_int ?E"
    "str_float ?E2 = str_float ?E" "reference_types ?E2 = reference_types ?E"
    using assms(3-7) by (cases "api_key_env E"; simp)+
  from scenes_loop_skip [OF e dn] obtain w2 where
    "scenes_loop ?E2 cfg scenes w1 = Some (Inr (), w2)"
    and "nodes w2 = nodes w1" and "nrequests (log w2) = nrequests (log w1)"
    by blast
  moreover have "resolve_api_key E2 (b_api_key_path cfg) w1 = Inr k"
    using resolve_api_key_grown [OF g key] resolve_api_key_env [OF assms(3)] by simp
  moreover have "group_folders w1 ?r = Inr scenes"
    using grown_group_folders [OF g] gf by simp
  ultimately show ?thesis by (simp add: batch_main_def)
qed

text \<open>The test of the output path, in the pipeline and in the batch.\<close>

lemma attempts_calls:
  "ns \<noteq> [] \<Longrightarrow> ncalls (log w) < ncalls (log (snd (attempts E req out d ns w)))"
proof (induction ns arbitrary: w)
  case Nil
  then show ?case by simp
next
  case (Cons a ns)
  obtain r w1 where t: "sbind (call_gemini_edit E req w) (write_bytes out) = (r, w1)"
    by (cases "sbind (call_gemini_edit E req w) (write_bytes out)")
  have c: "ncalls (log w1) = Suc (ncalls (log w))"
    using try_block_calls [of E req w out] t by simp
  show ?case
  proof (cases r)
    case (Inr u)
    then show ?thesis using t c by simp
  next
    case (Inl exc)
    show ?thesis
    proof (cases "a = MAX_RETRIES")
      case True
      then show ?thesis using t c Inl by simp
    next
      case False
      show ?thesis
      proof (cases "d * real a < 0")
        case True
        then show ?thesis using t c Inl False by (simp add: sleep_def)
      next
        case n: False
        let ?w2 = "w1\<lparr>log := Sleep (d * real a) # log w1\<rparr>"
        show ?thesis
        proof (cases "ns = []")
          case True
          then show ?thesis using t c Inl False n by (simp add: sleep_def)
        next
          case ne: False
          have "ncalls (log ?w2) < ncalls (log (snd (attempts E req out d ns ?w2)))"
            using ne by (rule Cons.IH)
          then show ?thesis using t c Inl False n by (simp add: sleep_def)
        qed
      qed
    qed
  qed
qed

lemma then_sleep_calls:
  "ncalls (log (snd (sbind x (\<lambda>u. sleep d)))) = ncalls (log (snd x))"
  by (cases x) (auto simp: sbind_def sleep_def split: sum.splits)

lemma process_image_gate:
  assumes "relative_to p (input_root cfg) = Inr rel"
    and "mkdir_p (out_dir cfg v rel) w = (Inr (), wd)"
  shows "(process_image E cfg d v pr p w = (Inr (), wd)) = path_exists wd (out_path cfg v rel)"
    and "\<not> path_exists wd (out_path cfg v rel) \<Longrightarrow> read_bytes wd p = Inr b \<Longrightarrow>
         ncalls (log w) < ncalls (log (snd (process_image E cfg d v pr p w)))"
proof -
  let ?req = "\<lambda>b. \<lparr>req_model = model_name cfg, req_prompt = pr,
                   req_image = b, req_creativity = creativity v,
                   req_fidelity = fidelity v, req_width = output_width cfg,
                   req_height = output_height cfg\<rparr>"
  have l: "log wd = log w" using mkdir_p_log [of "out_dir cfg v rel" w] assms(2) by simp
  have ne: "[1..<MAX_RETRIES + 1] \<noteq> []" by (simp add: MAX_RETRIES_def)
  have run: "ncalls (log w) < ncalls (log (snd (process_image E cfg d v pr p w)))"
    if "\<not> path_exists wd (out_path cfg v rel)" and "read_bytes wd p = Inr b" for b
  proof -
    have "process_image E cfg d v pr p w =
            sbind (attempts E (?req b) (out_path cfg v rel) d [1..<MAX_RETRIES + 1] wd)
              (\<lambda>u. sleep d)"
      using assms that by (simp add: process_image_def)
    then show ?thesis
      using attempts_calls [OF ne, of wd E "?req b" "out_path cfg v rel" d] l
      by (simp only: then_sleep_calls)
  qed
  then show "\<not> path_exists wd (out_path cfg v rel) \<Longrightarrow> read_bytes wd p = Inr b \<Longrightarrow>
         ncalls (log w) < ncalls (log (snd (process_image E cfg d v pr p w)))" .
  show "(process_image E cfg d v pr p w = (Inr (), wd)) = path_exists wd (out_path cfg v rel)"
  proof (cases "path_exists wd (out_path cfg v rel)")
    case True
    then show ?thesis using assms by (simp add: process_image_def)
  next
    case False
    show ?thesis
    proof (cases "read_bytes wd p")
      case (Inl e)
      then show ?thesis using assms False by (simp add: process_image_def)
    next
      case (Inr b)
      from run [OF False Inr] have "snd (process_image E cfg d v pr p w) \<noteq> wd"
        using l by auto
      then show ?thesis using False by auto
    qed
  qed
qed

lemma save_result_requests:
  "nrequests (log w) \<le> nrequests (log (snd (save_result E cfg k operation w)))"
  by (auto simp: save_result_def sbind_def mkdir_p_def write_bytes_def
      split: option.splits list.splits sum.splits prod.splits if_splits)

lemma run_generation_requests:
  assumes "run_generation E cfg w = Some (r, w')" and "prepare_job E cfg w = Inr kr"
  shows "nrequests (log w) < nrequests (log w')"
proof -
  obtain k request where kr: "kr = (k, request)" by (cases kr)
  let ?w0 = "w\<lparr>log := Submit # log w\<rparr>"
  show ?thesis
  proof (cases "generate_videos E (nsubmits (log w)) request")
    case (Inl e)
    then show ?thesis using assms kr by (auto simp: run_generation_def)
  next
    case op: (Inr operation)
    show ?thesis
    proof (cases "poll_loop E (poll_interval_seconds cfg) operation ?w0")
      case None
      then show ?thesis using assms kr op by (simp add: run_generation_def)
    next
      case (Some z)
      obtain r1 w1 where z: "z = (r1, w1)" by (cases z)
      have q1: "Suc (nrequests (log w)) \<le> nrequests (log w1)"
        using poll_loop_requests [OF Some] z by simp
      show ?thesis
      proof (cases r1)
        case (Inl e)
        then show ?thesis using assms kr op Some z q1 by (auto simp: run_generation_def)
      next
        case ok: (Inr operation1)
        then have "(r, w') = save_result E cfg k operation1 w1"
          using assms kr op Some z by (simp add: run_generation_def)
        then have "w' = snd (save_result E cfg k operation1 w1)" by (metis snd_conv)
        then show ?thesis using save_result_requests [of w1 E cfg k operation1] q1 by simp
      qed
    qed
  qed
qed

lemma scene_step_gate:
  assumes "path_exists w (joinpath scene (v_name v))"
    and "list_variant_frames w (joinpath scene (v_name v)) = Inr frames"
    and "pick_reference_frames frames = Inr (first, lst)"
    and "load_prompt_text E (v_prompt_path v) (w\<lparr>log := Pick (length frames) # log w\<rparr>)
           = (Inr t, w1)"
    and "construct_job_config E cfg (b_api_key_path cfg) (path_name scene) v first (Some lst) t w1
           = (Inr job, w2)"
  shows "(scene_step E cfg scene v w = Some (Inr (), w2)) = path_exists w2 (output_path job)"
    and "\<not> path_exists w2 (output_path job) \<Longrightarrow> prepare_job E job w2 = Inr kr \<Longrightarrow>
         scene_step E cfg scene v w = Some (r, w') \<Longrightarrow>
         nrequests (log w) < nrequests (log w')"
    and "nrequests (log w2) = nrequests (log w)"
proof -
  have ne: "frames \<noteq> []" using assms(3) by (auto simp: pick_reference_frames_def)
  have ss: "scene_step E cfg scene v w =
              (if path_exists w2 (output_path job) then Some (Inr (), w2)
               else (case run_generation E job w2 of
                       None \<Rightarrow> None
                     | Some (Inl e, w3) \<Rightarrow> Some (Inl e, w3)
                     | Some (Inr out, w3) \<Rightarrow> Some (Inr (), w3)))"
    using assms ne by (simp add: scene_step_def)
  have "log w1 = Load (v_prompt_path v) # Pick (length frames) # log w"
    using load_prompt_text_log [of E "v_prompt_path v" "w\<lparr>log := Pick (length frames) # log w\<rparr>"]
      assms(4) by simp
  moreover have "log w2 = log w1"
    using construct_job_config_log [of E cfg "b_api_key_path cfg" "path_name scene" v first
        "Some lst" t w1] assms(5) by simp
  ultimately show q: "nrequests (log w2) = nrequests (log w)" by simp
  have run: "nrequests (log w) < nrequests (log w')"
    if "\<not> path_exists w2 (output_path job)" and "prepare_job E job w2 = Inr kr"
      and "scene_step E cfg scene v w = Some (r, w')" for kr r w'
  proof -
    from that(1,3) ss obtain r' where "run_generation E job w2 = Some (r', w')"
      by (auto split: option.splits sum.splits prod.splits)
    from run_generation_requests [OF this that(2)] q show ?thesis by simp
  qed
  then show "\<not> path_exists w2 (output_path job) \<Longrightarrow> prepare_job E job w2 = Inr kr \<Longrightarrow>
         scene_step E cfg scene v w = Some (r, w') \<Longrightarrow>
         nrequests (log w) < nrequests (log w')" .
  show "(scene_step E cfg scene v w = Some (Inr (), w2)) = path_exists w2 (output_path job)"
  proof (cases "path_exists w2 (output_path job)")
    case True
    then show ?thesis using ss by simp
  next
    case False
    have "scene_step E cfg scene v w \<noteq> Some (Inr (), w2)"
    proof
      assume a: "scene_step E cfg scene v w = Some (Inr (), w2)"
      then obtain out where rg: "run_generation E job w2 = Some (Inr out, w2)"
        using ss False by (auto split: option.splits sum.splits prod.splits)
      then obtain kr where "prepare_job E job w2 = Inr kr"
        by (cases "prepare_job E job w2") (auto simp: run_generation_def)
      from run [OF False this a] q show False by simp
    qed
    then show ?thesis using False by simp
  qed
qed

section \<open>Two runs of the examples\<close>

lemma good_env_poll_fields:
  "operations_get good_env k operation =
     Inr (if k < 2 then operation else finished ''MP4'')"
  by (simp add: good_env_def finished_def)

lemma batch_job_run:
  "run_generation good_env
     (demo_job\<lparr>prompt := ''rainy street'' @ [CHR 0x0A] @ ''Negative prompt: blur''\<rparr>)
     \<lparr>nodes = video_nodes @
        [([''out''], Dir), ([''out'', ''s1''], Dir), ([''out'', ''s1'', ''rain''], Dir)],
      log = [Load [''cfg'', ''rain.yaml''], Pick 2]\<rparr> =
   Some (Inr [''out'', ''s1'', ''rain'', ''s1_rain.mp4''],
     \<lparr>nodes = video_nodes @
        [([''out''], Dir), ([''out'', ''s1''], Dir), ([''out'', ''s1'', ''rain''], Dir),
         ([''out'', ''s1'', ''rain'', ''s1_rain.mp4''], File ''MP4'')],
      log = [Poll, Sleep 10, Poll, Sleep 10, Poll, Sleep 10, Submit,
             Load [''cfg'', ''rain.yaml''], Pick 2]\<rparr>)"
proof -
  let ?job = "demo_job\<lparr>prompt := ''rainy street'' @ [CHR 0x0A] @ ''Negative prompt: blur''\<rparr>"
  let ?n = "video_nodes @
        [([''out''], Dir), ([''out'', ''s1''], Dir), ([''out'', ''s1'', ''rain''], Dir)]"
  let ?wa = "\<lparr>nodes = ?n, log = [Load [''cfg'', ''rain.yaml''], Pick 2]\<rparr>"
  let ?w0 = "\<lparr>nodes = ?n, log = [Submit, Load [''cfg'', ''rain.yaml''], Pick 2]\<rparr>"
  let ?w1 = "\<lparr>nodes = ?n, log = [Poll, Sleep 10, Poll, Sleep 10, Poll, Sleep 10, Submit,
                                    Load [''cfg'', ''rain.yaml''], Pick 2]\<rparr>"
  obtain api_key request where p: "prepare_job good_env ?job ?wa = Inr (api_key, request)"
    by (simp add: prepare_job_def resolve_api_key_def read_optional_def read_image_bytes_def
        read_bytes_def path_exists_def node_at_def demo_job_def video_nodes_def
        good_env_fields)
  have g: "generate_videos good_env (nsubmits (log ?wa)) request = Inr pending"
    by (simp add: good_env_video_fields)
  have i: "poll_interval_seconds ?job = 10" by (simp add: demo_job_def)
  have "poll_loop good_env 10 pending ?w0 =
      Some (Inr (finished ''MP4''),
            ?w0\<lparr>log := Poll # Sleep 10 # Poll # Sleep 10 # Poll # Sleep 10 # log ?w0\<rparr>)"
    by (rule three_rounds [where ?op1.0 = pending and ?op2.0 = pending])
      (simp_all add: good_env_poll_fields pending_def finished_def)
  then have loop: "poll_loop good_env 10 pending ?w0 = Some (Inr (finished ''MP4''), ?w1)"
    by simp
  have save: "save_result good_env ?job api_key (finished ''MP4'') ?w1 =
      (Inr [''out'', ''s1'', ''rain'', ''s1_rain.mp4''],
       \<lparr>nodes = ?n @ [([''out'', ''s1'', ''rain'', ''s1_rain.mp4''], File ''MP4'')],
        log = [Poll, Sleep 10, Poll, Sleep 10, Poll, Sleep 10, Submit,
               Load [''cfg'', ''rain.yaml''], Pick 2]\<rparr>)"
    by (simp add: save_result_def finished_def pending_def demo_job_def video_nodes_def
        mkdir_p_def add_dir_def write_bytes_def is_file_def is_dir_def node_at_def
        parent_def prefixes_snoc sbind_def)
  show ?thesis using p g i loop save by (simp add: run_generation_def)
qed

lemma video_world_fields:
  "nodes video_world = video_nodes" "log video_world = []"
  by (simp_all add: video_world_def)

lemma batch_step:
  "scene_step good_env demo_batch_cfg [''in'', ''s1''] demo_batch_variant video_world =
   Some (Inr (),
     \<lparr>nodes = video_nodes @
        [([''out''], Dir), ([''out'', ''s1''], Dir), ([''out'', ''s1'', ''rain''], Dir),
         ([''out'', ''s1'', ''rain'', ''s1_rain.mp4''], File ''MP4'')],
      log = [Poll, Sleep 10, Poll, Sleep 10, Poll, Sleep 10, Submit,
             Load [''cfg'', ''rain.yaml''], Pick 2]\<rparr>)"
proof -
  have "scene_step good_env demo_batch_cfg [''in'', ''s1''] demo_batch_variant video_world =
     (case run_generation good_env
        (demo_job\<lparr>prompt := ''rainy street'' @ [CHR 0x0A] @ ''Negative prompt: blur''\<rparr>)
        \<lparr>nodes = video_nodes @
           [([''out''], Dir), ([''out'', ''s1''], Dir), ([''out'', ''s1'', ''rain''], Dir)],
         log = [Load [''cfg'', ''rain.yaml''], Pick 2]\<rparr> of
        None \<Rightarrow> None
      | Some (Inl e, w3) \<Rightarrow> Some (Inl e, w3)
      | Some (Inr out, w3) \<Rightarrow> Some (Inr (), w3))"
    by (simp add: batch_eval good_env_fields good_env_video_fields video_world_def
        video_nodes_def demo_job_def Let_def numeral_2_eq_2 del: run_generation_def)
  then show ?thesis by (simp only: batch_job_run) simp
qed

lemma batch_run:
  "batch_main good_env demo_batch_cfg video_world =
   Some (Inr (),
     \<lparr>nodes = video_nodes @
        [([''out''], Dir), ([''out'', ''s1''], Dir), ([''out'', ''s1'', ''rain''], Dir),
         ([''out'', ''s1'', ''rain'', ''s1_rain.mp4''], File ''MP4'')],
      log = [Poll, Sleep 10, Poll, Sleep 10, Poll, Sleep 10, Submit,
             Load [''cfg'', ''rain.yaml''], Pick 2]\<rparr>)"
proof -
  have k: "resolve_api_key good_env (b_api_key_path demo_batch_cfg) video_world = Inr ''key''"
    by (simp add: resolve_api_key_def good_env_fields)
  have g: "group_folders video_world (b_input_root demo_batch_cfg) = Inr [[''in'', ''s1'']]"
    by (simp add: group_folders_def iterdir_def path_exists_def is_dir_def node_at_def
        parent_def video_world_fields video_nodes_def demo_batch_cfg_def)
  have v: "b_variants demo_batch_cfg = [demo_batch_variant]" by (simp add: demo_batch_cfg_def)
  show ?thesis
    by (simp add: batch_main_def k g good_env_fields process_scene_folder_def v batch_step)
qed

text \<open>
  C3. A unit is skipped exactly when something exists at its output path, and a second run
  after a run that went through makes no provider call and leaves every file as it is.

  In the pipeline, for an image below the input root whose output directory could be
  created, \<^verbatim>\<open>process_images\<close> leaves the image at the test, with nothing read, requested
  or slept, if and only if \<^verbatim>\<open>out_path.exists()\<close> holds, and calls the provider at least
  once when it does not hold and the image can be read. In the video batch, for a pair of
  scene and variant with frames whose prompt and job could be built,
  \<^verbatim>\<open>process_scene_folder\<close> leaves the pair at the test, no request made, if and only if
  \<^verbatim>\<open>job_cfg.output_path.exists()\<close> holds, and a job that gets as far as its submission makes
  at least one request when it does not hold. The test is that of \<^verbatim>\<open>Path.exists\<close>: a
  directory at the output path counts.

  Second runs: when a run of the pipeline from \<open>w0\<close> returned normally with the world
  \<open>w1\<close>, and the outputs lie outside the input tree, then a run from \<open>w1\<close> with the same
  configuration, with any rate limit and with any provider \<open>f\<close> returns normally, leaves
  the files as they are and makes no provider call. The same holds of the video batch,
  for any video provider, with no job submitted, no status query and no download.
\<close>

theorem output_cache_idempotent:
  "(relative_to p (input_root cfg) = Inr rel \<and>
    mkdir_p (out_dir cfg v rel) w = (Inr (), wd) \<longrightarrow>
      (process_image E cfg d v pr p w = (Inr (), wd)) = path_exists wd (out_path cfg v rel) \<and>
      (\<not> path_exists wd (out_path cfg v rel) \<and> read_bytes wd p = Inr b \<longrightarrow>
         ncalls (log w) < ncalls (log (snd (process_image E cfg d v pr p w)))))
   \<and> (path_exists ws (joinpath scene (v_name bv)) \<and>
      list_variant_frames ws (joinpath scene (v_name bv)) = Inr frames \<and>
      pick_reference_frames frames = Inr (first, lst) \<and>
      load_prompt_text E (v_prompt_path bv) (ws\<lparr>log := Pick (length frames) # log ws\<rparr>)
        = (Inr t, ws1) \<and>
      construct_job_config E bcfg (b_api_key_path bcfg) (path_name scene) bv first (Some lst)
        t ws1 = (Inr job, ws2) \<longrightarrow>
        (scene_step E bcfg scene bv ws = Some (Inr (), ws2))
          = path_exists ws2 (output_path job) \<and>
        nrequests (log ws2) = nrequests (log ws) \<and>
        (\<not> path_exists ws2 (output_path job) \<and> prepare_job E job ws2 = Inr kr \<and>
         scene_step E bcfg scene bv ws = Some (res, ws3) \<longrightarrow>
           nrequests (log ws) < nrequests (log ws3)))
   \<and> (process_images E cfg q w0 = (Inr (), w1) \<and> outputs_outside cfg w0 \<longrightarrow>
        (\<exists>w2. process_images (E\<lparr>edit := f\<rparr>) cfg q' w1 = (Inr (), w2) \<and>
              nodes w2 = nodes w1 \<and> ncalls (log w2) = ncalls (log w1)))
   \<and> (batch_main E bcfg wb = Some (Inr (), wb1) \<and> videos_outside bcfg wb \<longrightarrow>
        (\<exists>wb2. batch_main (E\<lparr>generate_videos := gv, operations_get := og,
                               requests_get := rg\<rparr>) bcfg wb1 = Some (Inr (), wb2) \<and>
               nodes wb2 = nodes wb1 \<and> nrequests (log wb2) = nrequests (log wb1)))"
proof (intro conjI impI)
  assume a: "relative_to p (input_root cfg) = Inr rel \<and>
    mkdir_p (out_dir cfg v rel) w = (Inr (), wd)"
  then have r: "relative_to p (input_root cfg) = Inr rel"
    and m: "mkdir_p (out_dir cfg v rel) w = (Inr (), wd)" by simp_all
  show "(process_image E cfg d v pr p w = (Inr (), wd)) = path_exists wd (out_path cfg v rel)"
    by (rule process_image_gate(1) [OF r m])
  assume "\<not> path_exists wd (out_path cfg v rel) \<and> read_bytes wd p = Inr b"
  then show "ncalls (log w) < ncalls (log (snd (process_image E cfg d v pr p w)))"
    using process_image_gate(2) [OF r m] by blast
next
  assume a: "path_exists ws (joinpath scene (v_name bv)) \<and>
      list_variant_frames ws (joinpath scene (v_name bv)) = Inr frames \<and>
      pick_reference_frames frames = Inr (first, lst) \<and>
      load_prompt_text E (v_prompt_path bv) (ws\<lparr>log := Pick (length frames) # log ws\<rparr>)
        = (Inr t, ws1) \<and>
      construct_job_config E bcfg (b_api_key_path bcfg) (path_name scene) bv first (Some lst)
        t ws1 = (Inr job, ws2)"
  then have h: "path_exists ws (joinpath scene (v_name bv))"
    "list_variant_frames ws (joinpath scene (v_name bv)) = Inr frames"
    "pick_reference_frames frames = Inr (first, lst)"
    "load_prompt_text E (v_prompt_path bv) (ws\<lparr>log := Pick (length frames) # log ws\<rparr>)
        = (Inr t, ws1)"
    "construct_job_config E bcfg (b_api_key_path bcfg) (path_name scene) bv first (Some lst)
        t ws1 = (Inr job, ws2)"
    by simp_all
  show "(scene_step E bcfg scene bv ws = Some (Inr (), ws2)) = path_exists ws2 (output_path job)"
    by (rule scene_step_gate(1) [OF h])
  show "nrequests (log ws2) = nrequests (log ws)"
    by (rule scene_step_gate(3) [OF h])
  assume "\<not> path_exists ws2 (output_path job) \<and> prepare_job E job ws2 = Inr kr \<and>
         scene_step E bcfg scene bv ws = Some (res, ws3)"
  then show "nrequests (log ws) < nrequests (log ws3)"
    using scene_step_gate(2) [OF h] by blast
next
  assume "process_images E cfg q w0 = (Inr (), w1) \<and> outputs_outside cfg w0"
  then show "\<exists>w2. process_images (E\<lparr>edit := f\<rparr>) cfg q' w1 = (Inr (), w2) \<and>
              nodes w2 = nodes w1 \<and> ncalls (log w2) = ncalls (log w1)"
    using process_images_again by blast
next
  assume "batch_main E bcfg wb = Some (Inr (), wb1) \<and> videos_outside bcfg wb"
  then have "batch_main E bcfg wb = Some (Inr (), wb1)" and "videos_outside bcfg wb"
    by simp_all
  then show "\<exists>wb2. batch_main (E\<lparr>generate_videos := gv, operations_get := og,
                               requests_get := rg\<rparr>) bcfg wb1 = Some (Inr (), wb2) \<and>
               nodes wb2 = nodes wb1 \<and> nrequests (log wb2) = nrequests (log wb1)"
    by (rule batch_main_again) simp_all
qed

text \<open>
  The examples: the image \<^verbatim>\<open>in/g/a.png\<close> is requested in the first world and left at the
  test in the world after the run, where a second run with a provider that fails every
  request goes through without a call; the pair of the scene \<^verbatim>\<open>s1\<close> and the variant
  \<^verbatim>\<open>rain\<close> makes four requests in the first world and is left at the test in the world
  after the run, where a second run with a provider out of reach goes through without a
  request.
\<close>

theorem output_cache_idempotent_witness:
  "ncalls (log demo_world)
     < ncalls (log (snd (process_image failing_env demo_cfg 2 demo_variant ''p''
                           [''in'', ''g'', ''a.png''] demo_world)))
   \<and> process_image failing_env demo_cfg 2 demo_variant ''p'' [''in'', ''g'', ''a.png'']
       demo_world_after = (Inr (), demo_world_after)
   \<and> (\<exists>w2. process_images failing_env demo_cfg 2 demo_world_after = (Inr (), w2) \<and>
            nodes w2 = nodes demo_world_after \<and> ncalls (log w2) = 2)
   \<and> nrequests (log video_world) < nrequests (log video_world_after)
   \<and> scene_step offline_env demo_batch_cfg [''in'', ''s1''] demo_batch_variant video_world_after
       = Some (Inr (), video_world_after
                 \<lparr>log := Load [''cfg'', ''rain.yaml''] # Pick 2 # log video_world_after\<rparr>)
   \<and> (\<exists>w2. batch_main offline_env demo_batch_cfg video_world_after = Some (Inr (), w2) \<and>
            nodes w2 = nodes video_world_after \<and> nrequests (log w2) = 4)"
proof (intro conjI)
  let ?p = "[''in'', ''g'', ''a.png'']"
  let ?wd = "\<lparr>nodes = demo_nodes @
               [([''out''], Dir), ([''out'', ''rain''], Dir), ([''out'', ''rain'', ''g''], Dir)],
             log = []\<rparr>"
  have r: "relative_to ?p (input_root demo_cfg) = Inr [''g'', ''a.png'']"
    by (simp add: run_eval)
  have m: "mkdir_p (out_dir demo_cfg demo_variant [''g'', ''a.png'']) demo_world = (Inr (), ?wd)"
    by (simp add: run_eval)
  have n: "\<not> path_exists ?wd (out_path demo_cfg demo_variant [''g'', ''a.png'']) \<and>
           read_bytes ?wd ?p = Inr ''A''"
    by (simp add: run_eval)
  from output_cache_idempotent [where p = ?p and cfg = demo_cfg
      and rel = "[''g'', ''a.png'']" and v = demo_variant and w = demo_world and wd = ?wd
      and E = failing_env and d = 2 and pr = "''p''" and b = "''A''", THEN conjunct1] r m n
  show "ncalls (log demo_world)
     < ncalls (log (snd (process_image failing_env demo_cfg 2 demo_variant ''p'' ?p demo_world)))"
    by blast
  have m2: "mkdir_p (out_dir demo_cfg demo_variant [''g'', ''a.png'']) demo_world_after
              = (Inr (), demo_world_after)"
    by (simp add: run_eval demo_world_after_def)
  have e2: "path_exists demo_world_after (out_path demo_cfg demo_variant [''g'', ''a.png''])"
    by (simp add: run_eval demo_world_after_def)
  from output_cache_idempotent [where p = ?p and cfg = demo_cfg
      and rel = "[''g'', ''a.png'']" and v = demo_variant and w = demo_world_after
      and wd = demo_world_after and E = failing_env and d = 2 and pr = "''p''", THEN conjunct1]
    r m2 e2
  show "process_image failing_env demo_cfg 2 demo_variant ''p'' ?p demo_world_after
          = (Inr (), demo_world_after)"
    by blast
  have run: "process_images good_env demo_cfg (1 / 2) demo_world = (Inr (), demo_world_after)"
    using demo_run [of "1 / 2"] by (simp add: delay_of_def demo_world_after_def)
  have out: "outputs_outside demo_cfg demo_world"
    by (simp add: outputs_outside_def run_eval)
  have fe: "good_env\<lparr>edit := (\<lambda>k req. Inl (ProviderError ''quota''))\<rparr> = failing_env"
    by (simp add: failing_env_def)
  have c: "ncalls (log demo_world_after) = 2" by (simp add: demo_world_after_def)
  from output_cache_idempotent [where E = good_env and cfg = demo_cfg and q = "1 / 2" and ?w0.0 = demo_world
      and ?w1.0 = demo_world_after and f = "\<lambda>k req. Inl (ProviderError ''quota'')"
      and q' = 2, THEN conjunct2, THEN conjunct2, THEN conjunct1] run out
  show "\<exists>w2. process_images failing_env demo_cfg 2 demo_world_after = (Inr (), w2) \<and>
            nodes w2 = nodes demo_world_after \<and> ncalls (log w2) = 2"
    by (simp only: fe c)
  let ?s = "[''in'', ''s1'']"
  let ?job = "demo_job\<lparr>prompt := ''rainy street'' @ [CHR 0x0A] @ ''Negative prompt: blur''\<rparr>"
  let ?ws2 = "\<lparr>nodes = video_nodes @
        [([''out''], Dir), ([''out'', ''s1''], Dir), ([''out'', ''s1'', ''rain''], Dir)],
      log = [Load [''cfg'', ''rain.yaml''], Pick 2]\<rparr>"
  have h: "path_exists video_world (joinpath ?s (v_name demo_batch_variant)) \<and>
      list_variant_frames video_world (joinpath ?s (v_name demo_batch_variant)) =
        Inr [[''in'', ''s1'', ''rain'', ''0000.png''], [''in'', ''s1'', ''rain'', ''0008.png'']] \<and>
      pick_reference_frames
        [[''in'', ''s1'', ''rain'', ''0000.png''], [''in'', ''s1'', ''rain'', ''0008.png'']] =
        Inr ([''in'', ''s1'', ''rain'', ''0000.png''], [''in'', ''s1'', ''rain'', ''0008.png'']) \<and>
      load_prompt_text good_env (v_prompt_path demo_batch_variant)
        (video_world\<lparr>log := Pick (length
           [[''in'', ''s1'', ''rain'', ''0000.png''], [''in'', ''s1'', ''rain'', ''0008.png'']])
           # log video_world\<rparr>)
        = (Inr (''rainy street'' @ [CHR 0x0A] @ ''Negative prompt: blur''),
           \<lparr>nodes = video_nodes, log = [Load [''cfg'', ''rain.yaml''], Pick 2]\<rparr>) \<and>
      construct_job_config good_env demo_batch_cfg (b_api_key_path demo_batch_cfg)
        (path_name ?s) demo_batch_variant [''in'', ''s1'', ''rain'', ''0000.png'']
        (Some [''in'', ''s1'', ''rain'', ''0008.png''])
        (''rainy street'' @ [CHR 0x0A] @ ''Negative prompt: blur'')
        \<lparr>nodes = video_nodes, log = [Load [''cfg'', ''rain.yaml''], Pick 2]\<rparr> = (Inr ?job, ?ws2)"
    by (simp add: batch_eval good_env_fields good_env_video_fields video_world_def
        video_nodes_def demo_job_def Let_def)
  have h2: "\<not> path_exists ?ws2 (output_path ?job) \<and>
            prepare_job good_env ?job ?ws2 = Inr (''key'', build_request ?job (Some ''F0'') None) \<and>
            scene_step good_env demo_batch_cfg ?s demo_batch_variant video_world
              = Some (Inr (), video_world_after)"
    using batch_step
    by (simp add: prepare_job_def resolve_api_key_def read_optional_def read_image_bytes_def
        read_bytes_def path_exists_def node_at_def demo_job_def video_nodes_def
        good_env_fields video_world_after_def)
  from output_cache_idempotent [where E = good_env
      and bcfg = demo_batch_cfg and scene = ?s and bv = demo_batch_variant and ws = video_world
      and frames = "[[''in'', ''s1'', ''rain'', ''0000.png''],
                     [''in'', ''s1'', ''rain'', ''0008.png'']]"
      and first = "[''in'', ''s1'', ''rain'', ''0000.png'']"
      and lst = "[''in'', ''s1'', ''rain'', ''0008.png'']"
      and t = "''rainy street'' @ [CHR 0x0A] @ ''Negative prompt: blur''"
      and ?ws1.0 = "\<lparr>nodes = video_nodes, log = [Load [''cfg'', ''rain.yaml''], Pick 2]\<rparr>"
      and job = ?job and ?ws2.0 = ?ws2
      and kr = "(''key'', build_request ?job (Some ''F0'') None)"
      and res = "Inr ()" and ?ws3.0 = video_world_after, THEN conjunct2, THEN conjunct1] h h2
  show "nrequests (log video_world) < nrequests (log video_world_after)"
    by blast
  let ?wa1 = "video_world_after\<lparr>log := Pick 2 # log video_world_after\<rparr>"
  let ?wa2 = "video_world_after
                \<lparr>log := Load [''cfg'', ''rain.yaml''] # Pick 2 # log video_world_after\<rparr>"
  have oe: "yaml_load offline_env b = Inr demo_doc" "api_key_env offline_env = Some ''key''"
    "reference_types offline_env = [''ASSET'', ''STYLE'']" for b
    by (simp_all add: offline_env_def good_env_def)
  have h3: "path_exists video_world_after (joinpath ?s (v_name demo_batch_variant)) \<and>
      list_variant_frames video_world_after (joinpath ?s (v_name demo_batch_variant)) =
        Inr [[''in'', ''s1'', ''rain'', ''0000.png''], [''in'', ''s1'', ''rain'', ''0008.png'']] \<and>
      pick_reference_frames
        [[''in'', ''s1'', ''rain'', ''0000.png''], [''in'', ''s1'', ''rain'', ''0008.png'']] =
        Inr ([''in'', ''s1'', ''rain'', ''0000.png''], [''in'', ''s1'', ''rain'', ''0008.png'']) \<and>
      load_prompt_text offline_env (v_prompt_path demo_batch_variant)
        (video_world_after\<lparr>log := Pick (length
           [[''in'', ''s1'', ''rain'', ''0000.png''], [''in'', ''s1'', ''rain'', ''0008.png'']])
           # log video_world_after\<rparr>)
        = (Inr (''rainy street'' @ [CHR 0x0A] @ ''Negative prompt: blur''), ?wa2) \<and>
      construct_job_config offline_env demo_batch_cfg (b_api_key_path demo_batch_cfg)
        (path_name ?s) demo_batch_variant [''in'', ''s1'', ''rain'', ''0000.png'']
        (Some [''in'', ''s1'', ''rain'', ''0008.png''])
        (''rainy street'' @ [CHR 0x0A] @ ''Negative prompt: blur'') ?wa2 = (Inr ?job, ?wa2)"
    by (simp add: batch_eval oe video_world_after_def video_nodes_def demo_job_def Let_def)
  have e3: "path_exists ?wa2 (output_path ?job)"
    by (simp add: path_exists_def node_at_def demo_job_def video_world_after_def video_nodes_def)
  from output_cache_idempotent [where E = offline_env
      and bcfg = demo_batch_cfg and scene = ?s and bv = demo_batch_variant
      and ws = video_world_after
      and frames = "[[''in'', ''s1'', ''rain'', ''0000.png''],
                     [''in'', ''s1'', ''rain'', ''0008.png'']]"
      and first = "[''in'', ''s1'', ''rain'', ''0000.png'']"
      and lst = "[''in'', ''s1'', ''rain'', ''0008.png'']"
      and t = "''rainy street'' @ [CHR 0x0A] @ ''Negative prompt: blur''"
      and ?ws1.0 = ?wa2 and job = ?job and ?ws2.0 = ?wa2, THEN conjunct2, THEN conjunct1] h3 e3
  show "scene_step offline_env demo_batch_cfg ?s demo_batch_variant video_world_after
          = Some (Inr (), ?wa2)"
    by blast
  have brun: "batch_main good_env demo_batch_cfg video_world = Some (Inr (), video_world_after)"
    using batch_run by (simp add: video_world_after_def)
  have vout: "videos_outside demo_batch_cfg video_world"
    by (simp add: videos_outside_def group_folders_def iterdir_def path_exists_def is_dir_def
        node_at_def parent_def video_world_def video_nodes_def demo_batch_cfg_def
        demo_batch_variant_def output_dir_def job_output_path_def joinpath_def path_parts_def
        is_absolute_def path_name_def prefixes_snoc)
  have c4: "nrequests (log video_world_after) = 4" by (simp add: video_world_after_def)
  from output_cache_idempotent [where E = good_env and bcfg = demo_batch_cfg and wb = video_world
      and ?wb1.0 = video_world_after
      and gv = "\<lambda>k req. Inl (ProviderError ''503'')"
      and og = "\<lambda>k operation. Inl (ProviderError ''503'')"
      and rg = "\<lambda>u k. Inl (ProviderError ''503'')", THEN conjunct2, THEN conjunct2, THEN conjunct2] brun vout
  show "\<exists>w2. batch_main offline_env demo_batch_cfg video_world_after = Some (Inr (), w2) \<and>
            nodes w2 = nodes video_world_after \<and> nrequests (log w2) = 4"
    by (simp only: offline_env_def c4)
qed

section \<open>The prompt reads of the video batch\<close>

text \<open>A video job adds to the log only its submission, its sleeps and status queries and
  its download.\<close>

lemma poll_once_adds:
  "\<exists>l. log (snd (poll_once E i operation w)) = l @ log w \<and>
       set l \<subseteq> {Submit, Poll, Fetch} \<union> range Sleep"
proof (cases "i < 0")
  case True
  then have "log (snd (poll_once E i operation w)) = [] @ log w"
    by (simp add: poll_once_def sleep_def sbind_def)
  then show ?thesis by (intro exI [of _ "[]"]) simp
next
  case False
  then have "log (snd (poll_once E i operation w)) = [Poll, Sleep i] @ log w"
    by (simp add: poll_once_def sleep_def sbind_def)
  moreover have "set [Poll, Sleep i] \<subseteq> {Submit, Poll, Fetch} \<union> range Sleep" by auto
  ultimately show ?thesis by blast
qed

lemma adds_trans:
  assumes "\<exists>l. log w1 = l @ log w \<and> set l \<subseteq> S" and "\<exists>l. log w2 = l @ log w1 \<and> set l \<subseteq> S"
  shows "\<exists>l. log w2 = l @ log w \<and> set l \<subseteq> S"
proof -
  from assms obtain l1 l2 where "log w1 = l1 @ log w" "set l1 \<subseteq> S"
    "log w2 = l2 @ log w1" "set l2 \<subseteq> S" by blast
  then have "log w2 = (l2 @ l1) @ log w \<and> set (l2 @ l1) \<subseteq> S" by simp
  then show ?thesis by blast
qed

lemma poll_loop_adds:
  assumes "poll_loop E i operation w = Some y"
  shows "\<exists>l. log (snd y) = l @ log w \<and> set l \<subseteq> {Submit, Poll, Fetch} \<union> range Sleep"
proof (rule poll_loop.raw_induct
    [where P = "\<lambda>E i operation w y.
        \<exists>l. log (snd y) = l @ log w \<and> set l \<subseteq> {Submit, Poll, Fetch} \<union> range Sleep",
      OF _ assms])
  fix pl E i operation w y
  assume ih: "\<And>E i operation w y. pl E i operation w = Some y \<Longrightarrow>
                \<exists>l. log (snd y) = l @ log w \<and> set l \<subseteq> {Submit, Poll, Fetch} \<union> range Sleep"
    and body: "(if op_done operation then Some (Inr operation, w)
                else case poll_once E i operation w of
                       (Inl e, w1) \<Rightarrow> Some (Inl e, w1)
                     | (Inr operation1, w1) \<Rightarrow> pl E i operation1 w1) = Some y"
  show "\<exists>l. log (snd y) = l @ log w \<and> set l \<subseteq> {Submit, Poll, Fetch} \<union> range Sleep"
  proof (cases "op_done operation")
    case True
    then have "log (snd y) = [] @ log w" using body by auto
    then show ?thesis by (intro exI [of _ "[]"]) simp
  next
    case False
    obtain r w1 where p: "poll_once E i operation w = (r, w1)"
      by (cases "poll_once E i operation w")
    have l1: "\<exists>l. log w1 = l @ log w \<and> set l \<subseteq> {Submit, Poll, Fetch} \<union> range Sleep"
      using poll_once_adds [of E i operation w] p by simp
    show ?thesis
    proof (cases r)
      case (Inl e)
      then show ?thesis using body False p l1 by auto
    next
      case (Inr operation1)
      then have "pl E i operation1 w1 = Some y" using body False p by simp
      from adds_trans [OF l1 ih [OF this]] show ?thesis .
    qed
  qed
qed

lemma mkdir_write_adds:
  "log (snd (sbind (mkdir_p d w) (\<lambda>u w1. sbind (write_bytes p b w1) (\<lambda>u w2. (x, w2))))) = log w"
  by (simp add: sbind_def mkdir_p_def write_bytes_def)

lemma save_result_adds:
  "\<exists>l. log (snd (save_result E cfg k operation w)) = l @ log w \<and>
       set l \<subseteq> {Submit, Poll, Fetch} \<union> range Sleep"
proof -
  have "log (snd (save_result E cfg k operation w)) = log w \<or>
        log (snd (save_result E cfg k operation w)) = Fetch # log w"
    by (auto simp: save_result_def sbind_def mkdir_p_def write_bytes_def
        split: option.splits list.splits sum.splits prod.splits if_splits)
  then have "log (snd (save_result E cfg k operation w)) = [] @ log w \<or>
             log (snd (save_result E cfg k operation w)) = [Fetch] @ log w" by simp
  moreover have "set [Fetch] \<subseteq> {Submit, Poll, Fetch} \<union> range Sleep" by simp
  moreover have "set ([] :: event list) \<subseteq> {Submit, Poll, Fetch} \<union> range Sleep" by simp
  ultimately show ?thesis by blast
qed

lemma run_generation_adds:
  assumes "run_generation E cfg w = Some y"
  shows "\<exists>l. log (snd y) = l @ log w \<and> set l \<subseteq> {Submit, Poll, Fetch} \<union> range Sleep"
proof (cases "prepare_job E cfg w")
  case (Inl e)
  then have "log (snd y) = [] @ log w" using assms by (auto simp: run_generation_def)
  then show ?thesis by (intro exI [of _ "[]"]) simp
next
  case (Inr kr)
  obtain k request where kr: "kr = (k, request)" by (cases kr)
  let ?w0 = "w\<lparr>log := Submit # log w\<rparr>"
  have s: "\<exists>l. log ?w0 = l @ log w \<and> set l \<subseteq> {Submit, Poll, Fetch} \<union> range Sleep"
  proof -
    have "log ?w0 = [Submit] @ log w \<and> set [Submit] \<subseteq> {Submit, Poll, Fetch} \<union> range Sleep"
      by simp
    then show ?thesis by blast
  qed
  show ?thesis
  proof (cases "generate_videos E (nsubmits (log w)) request")
    case (Inl e)
    then have "snd y = ?w0" using assms Inr kr by (auto simp: run_generation_def)
    then show ?thesis using s by simp
  next
    case op: (Inr operation)
    show ?thesis
    proof (cases "poll_loop E (poll_interval_seconds cfg) operation ?w0")
      case None
      then show ?thesis using assms Inr kr op by (simp add: run_generation_def)
    next
      case (Some z)
      obtain r w1 where z: "z = (r, w1)" by (cases z)
      have l1: "\<exists>l. log w1 = l @ log w \<and> set l \<subseteq> {Submit, Poll, Fetch} \<union> range Sleep"
        using adds_trans [OF s] poll_loop_adds [OF Some] z by simp
      show ?thesis
      proof (cases r)
        case (Inl e)
        then have "snd y = w1" using assms Inr kr op Some z by (auto simp: run_generation_def)
        then show ?thesis using l1 by simp
      next
        case ok: (Inr operation1)
        then have "y = save_result E cfg k operation1 w1"
          using assms Inr kr op Some z by (simp add: run_generation_def)
        then show ?thesis
          using adds_trans [OF l1 save_result_adds [of E cfg k operation1 w1]] by simp
      qed
    qed
  qed
qed

lemma nloads_append [simp]: "nloads p (l @ l') = nloads p l + nloads p l'"
  by (simp add: nloads_def)

lemma nloads_none:
  "set l \<subseteq> {Submit, Poll, Fetch} \<union> range Sleep \<Longrightarrow> nloads p l = 0"
  by (induction l) (auto simp: nloads_def)

lemma run_generation_nloads:
  assumes "run_generation E cfg w = Some (r, w')"
  shows "nloads p (log w') = nloads p (log w)"
  using run_generation_adds [OF assms] nloads_none [of _ p] by auto

text \<open>
  One round of \<^verbatim>\<open>process_scene_folder\<close> reads the prompt of the variant exactly when the
  pair has frames, whatever was read before.
\<close>

lemma scene_step_nloads:
  assumes "scene_step E cfg scene v w = Some (r, w')"
  shows "nloads p (log w') =
           nloads p (log w) + (if has_frames w scene v \<and> v_prompt_path v = p then 1 else 0)"
proof (cases "has_frames w scene v")
  case False
  then have "w' = w"
    using assms
    by (auto simp: has_frames_def scene_step_def split: sum.splits if_splits)
  then show ?thesis using False by simp
next
  case True
  let ?vf = "joinpath scene (v_name v)"
  from True obtain frames where ex: "path_exists w ?vf"
    and f: "list_variant_frames w ?vf = Inr frames" and ne: "frames \<noteq> []"
    by (auto simp: has_frames_def split: sum.splits)
  let ?w0 = "w\<lparr>log := Pick (length frames) # log w\<rparr>"
  from pick_never_fails [OF ne] obtain first lst
    where pk: "pick_reference_frames frames = Inr (first, lst)" by blast
  obtain lr w1 where lp: "load_prompt_text E (v_prompt_path v) ?w0 = (lr, w1)"
    by (cases "load_prompt_text E (v_prompt_path v) ?w0")
  have l1: "log w1 = Load (v_prompt_path v) # Pick (length frames) # log w"
    using load_prompt_text_log [of E "v_prompt_path v" ?w0] lp by simp
  have n1: "nloads p (log w1) = nloads p (log w) + (if v_prompt_path v = p then 1 else 0)"
    by (simp add: l1)
  show ?thesis
  proof (cases lr)
    case (Inl e)
    then have "w' = w1" using assms ex f ne pk lp by (simp add: scene_step_def)
    then show ?thesis using n1 True by simp
  next
    case pt: (Inr prompt_text)
    obtain cr w2 where cj: "construct_job_config E cfg (b_api_key_path cfg)
            (path_name scene) v first (Some lst) prompt_text w1 = (cr, w2)"
      by (cases "construct_job_config E cfg (b_api_key_path cfg)
            (path_name scene) v first (Some lst) prompt_text w1")
    have l2: "log w2 = log w1"
      using construct_job_config_log [of E cfg "b_api_key_path cfg" "path_name scene" v
              first "Some lst" prompt_text w1] cj by simp
    have n2: "nloads p (log w') = nloads p (log w2)"
    proof (cases cr)
      case (Inl e)
      then show ?thesis using assms ex f ne pk lp pt cj by (simp add: scene_step_def)
    next
      case jc: (Inr job_cfg)
      show ?thesis
      proof (cases "path_exists w2 (output_path job_cfg)")
        case True
        then show ?thesis using assms ex f ne pk lp pt cj jc by (simp add: scene_step_def)
      next
        case False
        obtain gr where "run_generation E job_cfg w2 = Some (gr, w')"
          using assms ex f ne pk lp pt cj jc False
          by (auto simp: scene_step_def split: option.splits sum.splits prod.splits)
        then show ?thesis by (rule run_generation_nloads)
      qed
    qed
    show ?thesis using n1 n2 l2 True by simp
  qed
qed

lemma grown_has_frames:
  assumes "grown r w w'" and "strict_prefix r (joinpath scene (v_name v))"
  shows "has_frames w' scene v = has_frames w scene v"
proof -
  have "prefix r (joinpath scene (v_name v))" using assms(2) by (simp add: strict_prefix_def)
  then have "list_variant_frames w' (joinpath scene (v_name v)) =
             list_variant_frames w (joinpath scene (v_name v))"
    using assms(1) grown_list_variant_frames by blast
  moreover have "path_exists w' (joinpath scene (v_name v)) =
                 path_exists w (joinpath scene (v_name v))"
    using assms by (simp add: path_exists_def grown_below)
  ultimately show ?thesis by (simp add: has_frames_def)
qed

lemma scene_loop_nloads:
  "scene_loop E cfg scene vs w = Some (Inr (), w') \<Longrightarrow> grown r w0 w \<Longrightarrow>
   \<forall>v\<in>set vs.
     strict_prefix r (joinpath scene (v_name v)) \<and>
     (\<forall>q\<in>set (prefixes (output_dir cfg (path_name scene) v)). \<not> prefix r q) \<and>
     (\<forall>q\<in>set (prefixes (parent (job_output_path cfg (path_name scene) v))). \<not> prefix r q) \<and>
     \<not> prefix r (job_output_path cfg (path_name scene) v) \<Longrightarrow>
   grown r w0 w' \<and>
   nloads p (log w') =
     nloads p (log w) +
     length (filter (\<lambda>v. has_frames w0 scene v \<and> v_prompt_path v = p) vs)"
proof (induction vs arbitrary: w)
  case Nil
  then show ?case by simp
next
  case (Cons v vs)
  obtain y where s: "scene_step E cfg scene v w = Some y"
    using Cons.prems(1) by (cases "scene_step E cfg scene v w") simp_all
  obtain r1 w1 where y: "y = (r1, w1)" by (cases y)
  have r1: "r1 = Inr ()" using Cons.prems(1) s y by (cases r1) simp_all
  have rest: "scene_loop E cfg scene vs w1 = Some (Inr (), w')"
    using Cons.prems(1) s y r1 by simp
  have "grown r w w1 \<and> video_done E cfg scene v w1"
    using s [unfolded y r1] Cons.prems(3) by (intro scene_step_done) simp_all
  then have g1: "grown r w0 w1" using Cons.prems(2) grown_trans by blast
  have sp: "strict_prefix r (joinpath scene (v_name v))" using Cons.prems(3) by simp
  have hf: "has_frames w scene v = has_frames w0 scene v"
    using Cons.prems(2) sp by (rule grown_has_frames)
  have n1: "nloads p (log w1) =
           nloads p (log w) + (if has_frames w0 scene v \<and> v_prompt_path v = p then 1 else 0)"
    using scene_step_nloads [OF s [unfolded y], of p] hf by simp
  have "grown r w0 w' \<and>
        nloads p (log w') =
          nloads p (log w1) +
          length (filter (\<lambda>v. has_frames w0 scene v \<and> v_prompt_path v = p) vs)"
    using rest g1 Cons.prems(3) by (intro Cons.IH) simp_all
  then show ?case using n1 by simp
qed

lemma scenes_loop_nloads:
  "scenes_loop E cfg scenes w = Some (Inr (), w') \<Longrightarrow> grown r w0 w \<Longrightarrow>
   \<forall>scene\<in>set scenes. \<forall>v\<in>set (b_variants cfg).
     strict_prefix r (joinpath scene (v_name v)) \<and>
     (\<forall>q\<in>set (prefixes (output_dir cfg (path_name scene) v)). \<not> prefix r q) \<and>
     (\<forall>q\<in>set (prefixes (parent (job_output_path cfg (path_name scene) v))). \<not> prefix r q) \<and>
     \<not> prefix r (job_output_path cfg (path_name scene) v) \<Longrightarrow>
   grown r w0 w' \<and>
   nloads p (log w') =
     nloads p (log w) +
     (\<Sum>scene\<leftarrow>scenes.
        length (filter (\<lambda>v. has_frames w0 scene v \<and> v_prompt_path v = p) (b_variants cfg)))"
proof (induction scenes arbitrary: w)
  case Nil
  then show ?case by simp
next
  case (Cons scene scenes)
  obtain y where s: "scene_loop E cfg scene (b_variants cfg) w = Some y"
    using Cons.prems(1)
    by (cases "scene_loop E cfg scene (b_variants cfg) w")
      (simp_all add: process_scene_folder_def)
  obtain r1 w1 where y: "y = (r1, w1)" by (cases y)
  have r1: "r1 = Inr ()"
    using Cons.prems(1) s y by (cases r1) (simp_all add: process_scene_folder_def)
  have rest: "scenes_loop E cfg scenes w1 = Some (Inr (), w')"
    using Cons.prems(1) s y r1 by (simp add: process_scene_folder_def)
  have a: "grown r w0 w1 \<and>
           nloads p (log w1) =
             nloads p (log w) +
             length (filter (\<lambda>v. has_frames w0 scene v \<and> v_prompt_path v = p) (b_variants cfg))"
  proof -
    have c: "\<forall>v\<in>set (b_variants cfg).
       strict_prefix r (joinpath scene (v_name v)) \<and>
       (\<forall>q\<in>set (prefixes (output_dir cfg (path_name scene) v)). \<not> prefix r q) \<and>
       (\<forall>q\<in>set (prefixes (parent (job_output_path cfg (path_name scene) v))). \<not> prefix r q) \<and>
       \<not> prefix r (job_output_path cfg (path_name scene) v)"
      using Cons.prems(3) by simp
    show ?thesis by (rule scene_loop_nloads [OF s [unfolded y r1] Cons.prems(2) c])
  qed
  then have g1: "grown r w0 w1" by simp
  have "grown r w0 w' \<and>
        nloads p (log w') =
          nloads p (log w1) +
          (\<Sum>scene\<leftarrow>scenes.
             length (filter (\<lambda>v. has_frames w0 scene v \<and> v_prompt_path v = p) (b_variants cfg)))"
    using rest g1 Cons.prems(3) by (intro Cons.IH) simp_all
  then show ?case using a by simp
qed

lemma batch_main_nloads:
  assumes "batch_main E cfg w = Some (Inr (), w')" and "videos_outside cfg w"
    and "group_folders w (b_input_root cfg) = Inr scenes"
  shows "nloads p (log w') =
     nloads p (log w) +
     (\<Sum>scene\<leftarrow>scenes.
        length (filter (\<lambda>v. has_frames w scene v \<and> v_prompt_path v = p) (b_variants cfg)))"
proof -
  obtain k where key: "resolve_api_key E (b_api_key_path cfg) w = Inr k"
    using assms(1) by (cases "resolve_api_key E (b_api_key_path cfg) w")
      (simp_all add: batch_main_def)
  let ?E = "case api_key_env E of None \<Rightarrow> E\<lparr>api_key_env := Some k\<rparr> | Some k' \<Rightarrow> E"
  have sl: "scenes_loop ?E cfg scenes w = Some (Inr (), w')"
    using assms(1,3) key by (simp add: batch_main_def)
  have cond: "\<forall>scene\<in>set scenes. \<forall>v\<in>set (b_variants cfg).
     strict_prefix (b_input_root cfg) (joinpath scene (v_name v)) \<and>
     (\<forall>q\<in>set (prefixes (output_dir cfg (path_name scene) v)). \<not> prefix (b_input_root cfg) q) \<and>
     (\<forall>q\<in>set (prefixes (parent (job_output_path cfg (path_name scene) v))).
        \<not> prefix (b_input_root cfg) q) \<and>
     \<not> prefix (b_input_root cfg) (job_output_path cfg (path_name scene) v)"
    using videos_outsideD [OF assms(2,3)] by blast
  from scenes_loop_nloads [OF sl grown_refl cond, of p] show ?thesis by simp
qed

section \<open>What a run leaves in place\<close>

lemma kept_iff: "kept w w' \<longleftrightarrow> (\<forall>p n. node_at w p = Some n \<longrightarrow> node_at w' p = Some n)"
proof
  assume k: "kept w w'"
  show "\<forall>p n. node_at w p = Some n \<longrightarrow> node_at w' p = Some n"
  proof (intro allI impI)
    fix p n assume a: "node_at w p = Some n"
    show "node_at w' p = Some n"
    proof (cases "p = []")
      case True
      then show ?thesis using a by (simp add: node_at_def)
    next
      case False
      then have "map_of (nodes w) p = Some n" using a by (simp add: node_at_def)
      then have "p \<in> fst ` set (nodes w)" by (metis map_of_eq_None_iff option.distinct(1))
      then have "node_at w' p = node_at w p" using k by (auto simp: kept_def list_all_iff)
      then show ?thesis using a by simp
    qed
  qed
next
  assume a: "\<forall>p n. node_at w p = Some n \<longrightarrow> node_at w' p = Some n"
  have "node_at w' p = node_at w p" if "p \<in> fst ` set (nodes w)" for p
  proof -
    have "map_of (nodes w) p \<noteq> None" using that by (simp add: map_of_eq_None_iff)
    then obtain m where "map_of (nodes w) p = Some m" by blast
    then obtain n where "node_at w p = Some n" by (cases "p = []") (simp_all add: node_at_def)
    then show ?thesis using a by simp
  qed
  then show "kept w w'" by (auto simp: kept_def list_all_iff)
qed

lemma kept_refl [simp]: "kept w w"
  by (simp add: kept_iff)

lemma kept_trans: "kept w w1 \<Longrightarrow> kept w1 w2 \<Longrightarrow> kept w w2"
  by (simp add: kept_iff)

lemma node_at_log_fun [simp]: "node_at (w\<lparr>log := l\<rparr>) = node_at w"
  by (simp add: fun_eq_iff)

lemma kept_log [simp]:
  "kept w (w'\<lparr>log := l\<rparr>) = kept w w'"
  "kept (w\<lparr>log := l\<rparr>) w' = kept w w'"
  by (simp_all add: kept_iff)

lemma kept_nodes: "nodes w' = nodes w \<Longrightarrow> kept w w'"
  by (simp add: kept_iff node_at_def)

lemma grown_kept: "grown r w w' \<Longrightarrow> kept w w'"
  by (auto simp: kept_iff dest: grown_node_at)

lemma kept_is_file: "kept w w' \<Longrightarrow> is_file w p \<Longrightarrow> is_file w' p"
  by (auto simp: kept_iff is_file_def split: option.splits node.splits)

lemma kept_is_dir: "kept w w' \<Longrightarrow> is_dir w p \<Longrightarrow> is_dir w' p"
  by (auto simp: kept_iff is_dir_def)

lemma kept_path_exists: "kept w w' \<Longrightarrow> path_exists w p \<Longrightarrow> path_exists w' p"
  by (auto simp: kept_iff path_exists_def)

lemma kept_read_bytes: "kept w w' \<Longrightarrow> read_bytes w p = Inr b \<Longrightarrow> read_bytes w' p = Inr b"
  by (auto simp: kept_iff read_bytes_def split: option.splits node.splits)

lemma mkdir_p_kept: "kept w (snd (mkdir_p d w))"
  by (auto simp: kept_iff mkdir_p_def node_at_mkdir)

lemma write_bytes_kept: "\<not> path_exists w p \<Longrightarrow> kept w (snd (write_bytes p b w))"
  by (auto simp: kept_iff write_bytes_def path_exists_def node_at_def update_conv'
      split: if_splits)

text \<open>The retry loop writes one file, at the output path, when it succeeds, and nothing
  when it raises.\<close>

lemma attempts_nodes:
  "attempts E req out d ns w = (r, w') \<Longrightarrow> \<not> path_exists w out \<Longrightarrow>
   (case r of
      Inl e \<Rightarrow> nodes w' = nodes w
    | Inr u \<Rightarrow> MAX_RETRIES \<notin> set ns \<and> nodes w' = nodes w \<or>
              (\<exists>k b. edit E k req = Inr b \<and> nodes w' = nodes w @ [(out, File b)]))"
proof (induction ns arbitrary: w)
  case Nil
  then show ?case by auto
next
  case (Cons a ns)
  let ?wc = "w\<lparr>log := Call # log w\<rparr>"
  show ?case
  proof (cases "edit E (ncalls (log w)) req")
    case (Inl e)
    then have t: "sbind (call_gemini_edit E req w) (write_bytes out) = (Inl e, ?wc)"
      by (simp add: call_gemini_edit_def)
    show ?thesis
    proof (cases "a = MAX_RETRIES")
      case True
      then show ?thesis using Cons.prems(1) t by auto
    next
      case False
      show ?thesis
      proof (cases "d * real a < 0")
        case True
        then show ?thesis using Cons.prems(1) t False by (auto simp: sleep_def)
      next
        case n: False
        let ?w2 = "?wc\<lparr>log := Sleep (d * real a) # log ?wc\<rparr>"
        have rec: "attempts E req out d ns ?w2 = (r, w')"
          using Cons.prems(1) t False n by (simp add: sleep_def)
        have ne: "\<not> path_exists ?w2 out" using Cons.prems(2) by simp
        from Cons.IH [OF rec ne] False show ?thesis by (cases r) auto
      qed
    qed
  next
    case (Inr b)
    then have t: "sbind (call_gemini_edit E req w) (write_bytes out) = write_bytes out b ?wc"
      by (simp add: call_gemini_edit_def)
    have ab: "map_of (nodes w) out = None" and ne: "out \<noteq> []"
      using Cons.prems(2) by (auto simp: path_exists_def node_at_def split: if_splits)
    show ?thesis
    proof (cases "\<not> is_dir w out \<and> is_dir w (parent out)")
      case True
      then have wr: "write_bytes out b ?wc = (Inr (), ?wc\<lparr>nodes := nodes w @ [(out, File b)]\<rparr>)"
        by (simp add: write_bytes_def update_absent [OF ab])
      then have "r = Inr ()" and "w' = ?wc\<lparr>nodes := nodes w @ [(out, File b)]\<rparr>"
        using Cons.prems(1) t by simp_all
      then show ?thesis using Inr by auto
    next
      case False
      then obtain e where wr: "write_bytes out b ?wc = (Inl e, ?wc)"
        by (cases "is_dir w out") (auto simp: write_bytes_def)
      show ?thesis
      proof (cases "a = MAX_RETRIES")
        case True
        then show ?thesis using Cons.prems(1) t wr by auto
      next
        case na: False
        show ?thesis
        proof (cases "d * real a < 0")
          case True
          then show ?thesis using Cons.prems(1) t wr na by (auto simp: sleep_def)
        next
          case n: False
          let ?w2 = "?wc\<lparr>log := Sleep (d * real a) # log ?wc\<rparr>"
          have rec: "attempts E req out d ns ?w2 = (r, w')"
            using Cons.prems(1) t wr na n by (simp add: sleep_def)
          have ne: "\<not> path_exists ?w2 out" using Cons.prems(2) by simp
          from Cons.IH [OF rec ne] na show ?thesis by (cases r) auto
        qed
      qed
    qed
  qed
qed

section \<open>What a unit of the pipeline writes\<close>

lemma sleep_nodes: "nodes (snd (sleep d w)) = nodes w"
  by (simp add: sleep_def)

lemma then_sleep_nodes: "nodes (snd (sbind x (\<lambda>u. sleep d))) = nodes (snd x)"
  by (cases x) (auto simp: sbind_def sleep_def split: sum.splits)

lemma then_sleep_Inr: "sbind x (\<lambda>u. sleep d) = (Inr (), w') \<Longrightarrow> fst x = Inr ()"
  by (cases x) (auto simp: sbind_def split: sum.splits)

lemma attempts_kept:
  assumes "attempts E req out d ns w = (r, w')" and "\<not> path_exists w out"
  shows "kept w w'"
proof -
  have ab: "map_of (nodes w) out = None" and ne: "out \<noteq> []"
    using assms(2) by (auto simp: path_exists_def node_at_def split: if_splits)
  have "nodes w' = nodes w \<or> (\<exists>b. nodes w' = nodes w @ [(out, File b)])"
    using attempts_nodes [OF assms] by (cases r) auto
  then show ?thesis
    using ab ne by (auto simp: kept_iff node_at_def map_add_def split: option.splits)
qed

text \<open>
  A unit of the pipeline that is not left at the test and returns normally has added one
  entry to the files: the answer of the provider, at the output path.
\<close>

lemma process_image_written:
  assumes "relative_to p (input_root cfg) = Inr rel"
    and "mkdir_p (out_dir cfg v rel) w = (Inr (), wd)"
    and "\<not> path_exists wd (out_path cfg v rel)"
    and "process_image E cfg d v pr p w = (Inr (), w')"
  shows "\<exists>k req b. edit E k req = Inr b \<and>
           nodes w' = nodes wd @ [(out_path cfg v rel, File b)]"
proof -
  obtain b where rb: "read_bytes wd p = Inr b"
    using assms by (cases "read_bytes wd p") (simp_all add: process_image_def)
  let ?req = "\<lparr>req_model = model_name cfg, req_prompt = pr, req_image = b,
            req_creativity = creativity v, req_fidelity = fidelity v,
            req_width = output_width cfg, req_height = output_height cfg\<rparr>"
  let ?a = "attempts E ?req (out_path cfg v rel) d [1..<MAX_RETRIES + 1] wd"
  have pi: "process_image E cfg d v pr p w = sbind ?a (\<lambda>u. sleep d)"
    using assms(1-3) rb by (simp add: process_image_def)
  obtain wa where a: "?a = (Inr (), wa)"
    using then_sleep_Inr [OF assms(4) [unfolded pi]] by (cases ?a) auto
  have n: "nodes w' = nodes wa"
    using then_sleep_nodes [of ?a d] assms(4) pi a by simp
  from attempts_nodes [OF a assms(3)] max_in_range
  obtain k b' where "edit E k ?req = Inr b'"
    and "nodes wa = nodes wd @ [(out_path cfg v rel, File b')]"
    by auto
  then show ?thesis using n by auto
qed

lemma process_image_kept:
  assumes "process_image E cfg d v pr p w = (r, w')"
  shows "kept w w'"
proof (cases "relative_to p (input_root cfg)")
  case (Inl e)
  then show ?thesis using assms by (simp add: process_image_def)
next
  case (Inr rel)
  obtain m wd where mk: "mkdir_p (out_dir cfg v rel) w = (m, wd)"
    by (cases "mkdir_p (out_dir cfg v rel) w")
  have k1: "kept w wd" using mkdir_p_kept [of w "out_dir cfg v rel"] mk by simp
  show ?thesis
  proof (cases m)
    case (Inl e)
    then show ?thesis using assms Inr mk k1 by (simp add: process_image_def)
  next
    case mr: (Inr u)
    show ?thesis
    proof (cases "path_exists wd (out_path cfg v rel)")
      case True
      then show ?thesis using assms Inr mk mr k1 by (simp add: process_image_def)
    next
      case False
      show ?thesis
      proof (cases "read_bytes wd p")
        case (Inl e)
        then show ?thesis using assms Inr mk mr False k1 by (simp add: process_image_def)
      next
        case rb: (Inr b)
        let ?req = "\<lparr>req_model = model_name cfg, req_prompt = pr, req_image = b,
            req_creativity = creativity v, req_fidelity = fidelity v,
            req_width = output_width cfg, req_height = output_height cfg\<rparr>"
        let ?a = "attempts E ?req (out_path cfg v rel) d [1..<MAX_RETRIES + 1] wd"
        obtain ra wa where a: "?a = (ra, wa)" by (cases ?a)
        have pi: "process_image E cfg d v pr p w = sbind ?a (\<lambda>u. sleep d)"
          using Inr mk mr False rb by (simp add: process_image_def)
        have "nodes w' = nodes wa" using then_sleep_nodes [of ?a d] assms pi a by simp
        then have "kept wa w'" by (rule kept_nodes)
        moreover have "kept wd wa" using a False by (rule attempts_kept)
        ultimately show ?thesis using k1 kept_trans by blast
      qed
    qed
  qed
qed

lemma process_image_output:
  assumes "process_image E cfg d v pr p w = (Inr (), w')" and "prefix (input_root cfg) p"
  shows "path_exists w' (out_path cfg v (drop (length (input_root cfg)) p))"
proof -
  let ?rel = "drop (length (input_root cfg)) p"
  have rel: "relative_to p (input_root cfg) = Inr ?rel"
    using assms(2) by (simp add: relative_to_def)
  obtain m wd where mk: "mkdir_p (out_dir cfg v ?rel) w = (m, wd)"
    by (cases "mkdir_p (out_dir cfg v ?rel) w")
  have m: "m = Inr ()" using assms(1) rel mk by (cases m) (simp_all add: process_image_def)
  show ?thesis
  proof (cases "path_exists wd (out_path cfg v ?rel)")
    case True
    then show ?thesis using assms(1) rel mk m by (simp add: process_image_def)
  next
    case False
    from process_image_written [OF rel mk [unfolded m] False assms(1)]
    obtain b where n: "nodes w' = nodes wd @ [(out_path cfg v ?rel, File b)]" by blast
    have "out_path cfg v ?rel \<noteq> []" "map_of (nodes wd) (out_path cfg v ?rel) = None"
      using False by (auto simp: path_exists_def node_at_def split: if_splits)
    then show ?thesis by (simp add: path_exists_def node_at_def n map_add_def)
  qed
qed

text \<open>The loops of the pipeline keep what is there, whatever their result, and after a
  loop over images that went through the output of each of them is there.\<close>

lemma images_loop_kept:
  "images_loop E cfg d v pr ps w = (r, w') \<Longrightarrow> kept w w'"
proof (induction ps arbitrary: w)
  case Nil
  then show ?case by simp
next
  case (Cons p ps)
  show ?case
  proof (cases "is_file w p \<and> image_suffix p")
    case False
    have "images_loop E cfg d v pr (p # ps) w = images_loop E cfg d v pr ps w"
      by (simp only: images_loop.simps(2) if_not_P [OF False])
    then show ?thesis using Cons by simp
  next
    case True
    obtain r1 w1 where pi: "process_image E cfg d v pr p w = (r1, w1)"
      by (cases "process_image E cfg d v pr p w")
    have k1: "kept w w1" using pi by (rule process_image_kept)
    show ?thesis
    proof (cases r1)
      case (Inl e)
      then show ?thesis using Cons.prems True pi k1 by simp
    next
      case (Inr u)
      then have "images_loop E cfg d v pr ps w1 = (r, w')" using Cons.prems True pi by simp
      then have "kept w1 w'" by (rule Cons.IH)
      then show ?thesis using k1 kept_trans by blast
    qed
  qed
qed

lemma images_loop_outputs:
  "images_loop E cfg d v pr ps w = (Inr (), w') \<Longrightarrow>
   \<forall>p\<in>set ps. is_file w p \<and> image_suffix p \<and> prefix (input_root cfg) p \<longrightarrow>
     path_exists w' (out_path cfg v (drop (length (input_root cfg)) p))"
proof (induction ps arbitrary: w)
  case Nil
  then show ?case by simp
next
  case (Cons p ps)
  show ?case
  proof (cases "is_file w p \<and> image_suffix p")
    case False
    have "images_loop E cfg d v pr (p # ps) w = images_loop E cfg d v pr ps w"
      by (simp only: images_loop.simps(2) if_not_P [OF False])
    then have "images_loop E cfg d v pr ps w = (Inr (), w')" using Cons.prems by simp
    from Cons.IH [OF this] False show ?thesis by auto
  next
    case True
    obtain r1 w1 where pi: "process_image E cfg d v pr p w = (r1, w1)"
      by (cases "process_image E cfg d v pr p w")
    have r1: "r1 = Inr ()" using Cons.prems True pi by (cases r1) simp_all
    have rest: "images_loop E cfg d v pr ps w1 = (Inr (), w')"
      using Cons.prems True pi r1 by simp
    have k1: "kept w w1" using pi by (rule process_image_kept)
    have k2: "kept w1 w'" using rest by (rule images_loop_kept)
    have here: "prefix (input_root cfg) p \<longrightarrow>
                path_exists w' (out_path cfg v (drop (length (input_root cfg)) p))"
      using process_image_output [OF pi [unfolded r1]] k2 kept_path_exists by blast
    have "\<forall>p\<in>set ps. is_file w1 p \<and> image_suffix p \<and> prefix (input_root cfg) p \<longrightarrow>
            path_exists w' (out_path cfg v (drop (length (input_root cfg)) p))"
      by (rule Cons.IH [OF rest])
    then show ?thesis using here k1 kept_is_file by auto
  qed
qed

lemma get_template_nodes: "nodes (snd (get_template E cache p w)) = nodes w"
  by (cases "cache p"; cases "fst (load_prompt_template E p w)")
    (auto simp: get_template_def load_prompt_template_def sbind_def split: sum.splits)

lemma variants_loop_kept:
  "variants_loop E cfg d vs cache w = (r, w') \<Longrightarrow> kept w w'"
proof (induction vs arbitrary: cache w)
  case Nil
  then show ?case by simp
next
  case (Cons v vs)
  obtain g w1 where gt: "get_template E cache (prompt_path v) w = (g, w1)"
    by (cases "get_template E cache (prompt_path v) w")
  have k1: "kept w w1"
    using get_template_nodes [of E cache "prompt_path v" w] gt by (simp add: kept_nodes)
  show ?case
  proof (cases g)
    case (Inl e)
    then show ?thesis using Cons.prems gt k1 by simp
  next
    case (Inr tc)
    obtain t cache1 where tc: "tc = (t, cache1)" by (cases tc)
    let ?il = "images_loop E cfg d v (build_prompt t) (sort (rglob w1 (input_root cfg))) w1"
    obtain r2 w2 where il: "?il = (r2, w2)" by (cases ?il)
    have k2: "kept w1 w2" using il by (rule images_loop_kept)
    show ?thesis
    proof (cases r2)
      case (Inl e)
      then show ?thesis using Cons.prems gt Inr tc il k1 k2 kept_trans by auto
    next
      case ok: (Inr u)
      then have "variants_loop E cfg d vs cache1 w2 = (r, w')"
        using Cons.prems gt Inr tc il by simp
      then have "kept w2 w'" by (rule Cons.IH)
      then show ?thesis using k1 k2 kept_trans by blast
    qed
  qed
qed

lemma process_images_kept:
  "process_images E cfg q w = (r, w') \<Longrightarrow> kept w w'"
  by (cases "resolve_api_key E (api_key_path cfg) w")
    (auto simp: process_images_def dest: variants_loop_kept)

text \<open>The loop over the variants, cut after the variants that went through.\<close>

lemma variants_loop_append:
  "variants_loop E cfg d (vs1 @ vs2) cache w =
     (case variants_loop E cfg d vs1 cache w of
        (Inl e, w1) \<Rightarrow> (Inl e, w1)
      | (Inr u, w1) \<Rightarrow> variants_loop E cfg d vs2 (cache_after E cfg d vs1 cache w) w1)"
  by (induction vs1 arbitrary: cache w) (auto split: prod.splits sum.splits)

section \<open>What a video job writes\<close>

lemma append_entry_exists:
  "nodes w' = nodes w @ [(p, n)] \<Longrightarrow> \<not> path_exists w p \<Longrightarrow>
   kept w w' \<and> node_at w' p = Some n"
  by (auto simp: kept_iff path_exists_def node_at_def map_add_def split: if_splits option.splits)

text \<open>
  A result that is saved where nothing was: directories that the path still needs, then
  the file, and nothing else.
\<close>

lemma save_result_effect:
  assumes "save_result E cfg k operation w = (r, w')" and "\<not> path_exists w (output_path cfg)"
  shows "kept w w'"
    and "r = Inr out \<Longrightarrow> \<forall>q\<in>set (prefixes (parent (output_path cfg))). is_dir w q \<Longrightarrow>
           out = output_path cfg \<and>
           (\<exists>content. nodes w' = nodes w @ [(output_path cfg, File content)])"
proof -
  let ?o = "output_path cfg"
  have ne: "?o \<noteq> []" using assms(2) by (auto simp: path_exists_def node_at_def)
  obtain m w1 where m: "mkdir_p (parent ?o) w = (m, w1)" by (cases "mkdir_p (parent ?o) w")
  have k1: "kept w w1" using mkdir_p_kept [of w "parent ?o"] m by simp
  have l1: "log w1 = log w" using mkdir_p_log [of "parent ?o" w] m by simp
  have n1: "\<not> path_exists w1 ?o" if "m = Inr ()"
  proof -
    have "node_at w1 ?o = node_at w ?o"
      by (rule mkdir_p_keeps [OF m [unfolded that] not_prefix_of_parent [OF ne]])
    then show ?thesis using assms(2) by (simp add: path_exists_def)
  qed
  have same: "w1 = w" if "\<forall>q\<in>set (prefixes (parent ?o)). is_dir w q"
    using mkdir_p_again [OF that] m by simp
  have wr: "kept w w2 \<and>
            ((\<forall>q\<in>set (prefixes (parent ?o)). is_dir w q) \<longrightarrow>
               (\<exists>content. nodes w2 = nodes w @ [(?o, File content)]))"
    if mo: "m = Inr u" and w: "write_bytes ?o b (w1\<lparr>log := l\<rparr>) = (Inr u2, w2)"
    for b l w2 u u2
  proof -
    have mo': "m = Inr ()" using mo by simp
    have ab: "\<not> path_exists (w1\<lparr>log := l\<rparr>) ?o" using n1 [OF mo'] by simp
    have "kept (w1\<lparr>log := l\<rparr>) w2" using write_bytes_kept [OF ab, of b] w by simp
    then have k: "kept w w2" using k1 kept_trans by simp
    have "map_of (nodes w1) ?o = None"
      using ab ne by (auto simp: path_exists_def node_at_def)
    then have "nodes w2 = nodes w1 @ [(?o, File b)]"
      using w by (auto simp: write_bytes_def update_absent split: if_splits)
    then show ?thesis using k same by auto
  qed
  have fail: "kept w w2" if "write_bytes ?o b (w1\<lparr>log := l\<rparr>) = (Inl e, w2)" for b l e w2
    using write_bytes_fails [OF that] k1 by simp
  have all: "kept w w' \<and>
        (\<forall>out. r = Inr out \<longrightarrow> (\<forall>q\<in>set (prefixes (parent ?o)). is_dir w q) \<longrightarrow>
           out = ?o \<and> (\<exists>content. nodes w' = nodes w @ [(?o, File content)]))"
  proof (cases "op_error operation \<noteq> None \<and> op_error operation \<noteq> Some []")
    case True
    then show ?thesis using assms(1) by (auto simp: save_result_def)
  next
    case False
    show ?thesis
    proof (cases "\<exists>v vs. op_result operation = Some (Some v # vs)")
      case nr: False
      then have "w' = w \<and> (\<exists>e. r = Inl e)"
        using assms(1) False
        by (auto simp: save_result_def split: option.splits list.splits if_splits)
      then show ?thesis by auto
    next
      case True
      then obtain v vs where r: "op_result operation = Some (Some v # vs)" by blast
      show ?thesis
      proof (cases "video_bytes v \<noteq> None \<and> video_bytes v \<noteq> Some []")
        case vb: True
        have sr: "save_result E cfg k operation w =
              sbind (mkdir_p (parent ?o) w) (\<lambda>u w1.
                  sbind (write_bytes ?o (the (video_bytes v)) w1) (\<lambda>u w2. (Inr ?o, w2)))"
          unfolding save_result_def
          by (simp only: if_not_P [OF False] r option.case list.case if_P [OF vb])
        show ?thesis
        proof (cases m)
          case (Inl e)
          then show ?thesis using assms(1) sr m k1 by (auto simp: sbind_def)
        next
          case mo: (Inr u)
          obtain wr1 w2 where w: "write_bytes ?o (the (video_bytes v)) (w1\<lparr>log := log w1\<rparr>)
                                   = (wr1, w2)"
            by (cases "write_bytes ?o (the (video_bytes v)) (w1\<lparr>log := log w1\<rparr>)")
          show ?thesis
          proof (cases wr1)
            case (Inl e)
            then have "r = Inl e" "w' = w2" using assms(1) sr m mo w by (auto simp: sbind_def)
            then show ?thesis using fail [OF w [unfolded Inl]] by simp
          next
            case ok: (Inr u2)
            then have "r = Inr ?o" "w' = w2" using assms(1) sr m mo w by (auto simp: sbind_def)
            then show ?thesis using wr [OF mo w [unfolded ok]] by auto
          qed
        qed
      next
        case nb: False
        show ?thesis
        proof (cases "uri v \<noteq> None \<and> uri v \<noteq> Some []")
          case nu: False
          have "save_result E cfg k operation w =
                  (Inl (RuntimeError ''Video response missing data and URI''), w)"
            unfolding save_result_def
            by (simp only: if_not_P [OF False] r option.case list.case if_not_P [OF nb]
                if_not_P [OF nu])
          then show ?thesis using assms(1) by auto
        next
          case u: True
          have sr: "save_result E cfg k operation w =
               sbind (mkdir_p (parent ?o) w) (\<lambda>u w1.
                    (case requests_get E (the (uri v)) k of
                       Inl e \<Rightarrow> (Inl e, w1\<lparr>log := Fetch # log w1\<rparr>)
                     | Inr content \<Rightarrow>
                         sbind (write_bytes ?o content (w1\<lparr>log := Fetch # log w1\<rparr>))
                           (\<lambda>u w2. (Inr ?o, w2))))"
            unfolding save_result_def
            by (simp only: if_not_P [OF False] r option.case list.case if_not_P [OF nb]
                if_P [OF u])
          show ?thesis
          proof (cases m)
            case (Inl e)
            then show ?thesis using assms(1) sr m k1 by (auto simp: sbind_def)
          next
            case mo: (Inr u0)
            show ?thesis
            proof (cases "requests_get E (the (uri v)) k")
              case (Inl e)
              then have "r = Inl e" "w' = w1\<lparr>log := Fetch # log w1\<rparr>"
                using assms(1) sr m mo by (auto simp: sbind_def)
              then show ?thesis using k1 by simp
            next
              case (Inr content)
              obtain wr1 w2 where w: "write_bytes ?o content (w1\<lparr>log := Fetch # log w1\<rparr>)
                                       = (wr1, w2)"
                by (cases "write_bytes ?o content (w1\<lparr>log := Fetch # log w1\<rparr>)")
              show ?thesis
              proof (cases wr1)
                case (Inl e)
                then have "r = Inl e" "w' = w2"
                  using assms(1) sr m mo Inr w by (auto simp: sbind_def)
                then show ?thesis using fail [OF w [unfolded Inl]] by simp
              next
                case ok: (Inr u2)
                then have "r = Inr ?o" "w' = w2"
                  using assms(1) sr m mo Inr w by (auto simp: sbind_def)
                then show ?thesis using wr [OF mo w [unfolded ok]] by auto
              qed
            qed
          qed
        qed
      qed
    qed
  qed
  from all show "kept w w'" by simp
  from all show "r = Inr out \<Longrightarrow> \<forall>q\<in>set (prefixes (parent ?o)). is_dir w q \<Longrightarrow>
           out = ?o \<and> (\<exists>content. nodes w' = nodes w @ [(?o, File content)])"
    by blast
qed

lemma run_generation_effect:
  assumes "run_generation E cfg w = Some (r, w')" and "\<not> path_exists w (output_path cfg)"
  shows "kept w w'"
    and "r = Inr out \<Longrightarrow> \<forall>q\<in>set (prefixes (parent (output_path cfg))). is_dir w q \<Longrightarrow>
           out = output_path cfg \<and>
           (\<exists>content. nodes w' = nodes w @ [(output_path cfg, File content)])"
proof -
  have all: "kept w w' \<and>
        (\<forall>out. r = Inr out \<longrightarrow> (\<forall>q\<in>set (prefixes (parent (output_path cfg))). is_dir w q) \<longrightarrow>
           out = output_path cfg \<and>
           (\<exists>content. nodes w' = nodes w @ [(output_path cfg, File content)]))"
  proof (cases "prepare_job E cfg w")
    case (Inl e)
    then show ?thesis using assms(1) by (auto simp: run_generation_def)
  next
    case (Inr kr)
    obtain k request where kr: "kr = (k, request)" by (cases kr)
    let ?w0 = "w\<lparr>log := Submit # log w\<rparr>"
    show ?thesis
    proof (cases "generate_videos E (nsubmits (log w)) request")
      case (Inl e)
      then show ?thesis using assms(1) Inr kr by (auto simp: run_generation_def)
    next
      case op: (Inr operation)
      show ?thesis
      proof (cases "poll_loop E (poll_interval_seconds cfg) operation ?w0")
        case None
        then show ?thesis using assms(1) Inr kr op by (simp add: run_generation_def)
      next
        case (Some z)
        obtain r1 w1 where z: "z = (r1, w1)" by (cases z)
        have n1: "nodes w1 = nodes w" using poll_loop_nodes [OF Some] z by simp
        have k1: "kept w w1" using n1 by (rule kept_nodes)
        show ?thesis
        proof (cases r1)
          case (Inl e)
          then show ?thesis using assms(1) Inr kr op Some z k1 by (auto simp: run_generation_def)
        next
          case ok: (Inr operation1)
          then have s: "save_result E cfg k operation1 w1 = (r, w')"
            using assms(1) Inr kr op Some z by (simp add: run_generation_def)
          have ab: "\<not> path_exists w1 (output_path cfg)"
            using assms(2) n1 by (auto simp: path_exists_def node_at_def split: if_splits)
          have d: "is_dir w1 = is_dir w" using n1 by (simp add: fun_eq_iff is_dir_def node_at_def)
          from save_result_effect [OF s ab] k1 n1 d show ?thesis
            using kept_trans by auto
        qed
      qed
    qed
  qed
  from all show "kept w w'" by simp
  from all show "r = Inr out \<Longrightarrow> \<forall>q\<in>set (prefixes (parent (output_path cfg))). is_dir w q \<Longrightarrow>
           out = output_path cfg \<and>
           (\<exists>content. nodes w' = nodes w @ [(output_path cfg, File content)])"
    by blast
qed

section \<open>What the rounds of the batch write\<close>

lemma load_prompt_text_nodes: "nodes (snd (load_prompt_text E p w)) = nodes w"
  by (simp add: load_prompt_text_def)

lemma construct_job_config_kept:
  "kept w (snd (construct_job_config E cfg kp sn v first lst t w))"
proof -
  have "kept w (snd (case x of Inl e \<Rightarrow> (Inl e, w)
             | Inr (j :: VideoJobConfig) \<Rightarrow> sbind (mkdir_p d w) (\<lambda>u w1. (Inr j, w1))))" for x d
    using mkdir_p_kept [of w d]
    by (cases x; cases "mkdir_p d w") (auto simp: sbind_def split: sum.splits)
  then show ?thesis unfolding construct_job_config_def .
qed

text \<open>
  The shape of a round: without frames nothing happens; with frames the prompt is read and
  the job built, and then either the output path exists and the round is over, or the job
  runs.
\<close>

lemma scene_step_cases:
  assumes "scene_step E cfg scene v w = Some (r, w')"
  obtains (none) "\<not> has_frames w scene v" and "w' = w"
    | (failed) e where "has_frames w scene v" and "kept w w'" and "r = Inl e"
    | (skipped) job where "has_frames w scene v" and "kept w w'"
        and "output_path (job :: VideoJobConfig) = job_output_path cfg (path_name scene) v"
        and "path_exists w' (output_path job)" and "r = Inr ()"
    | (ran) w2 job gr where "has_frames w scene v" and "kept w w2"
        and "output_path job = job_output_path cfg (path_name scene) v"
        and "\<forall>q\<in>set (prefixes (output_dir cfg (path_name scene) v)). is_dir w2 q"
        and "\<not> path_exists w2 (output_path job)"
        and "run_generation E job w2 = Some (gr, w')"
        and "r = (case gr of Inl e \<Rightarrow> Inl e | Inr out \<Rightarrow> Inr ())"
proof (cases "has_frames w scene v")
  case False
  then have "w' = w"
    using assms by (auto simp: has_frames_def scene_step_def split: sum.splits if_splits)
  then show ?thesis using False by (rule none [rotated])
next
  case True
  let ?vf = "joinpath scene (v_name v)"
  from True obtain frames where ex: "path_exists w ?vf"
    and f: "list_variant_frames w ?vf = Inr frames" and ne: "frames \<noteq> []"
    by (auto simp: has_frames_def split: sum.splits)
  let ?w0 = "w\<lparr>log := Pick (length frames) # log w\<rparr>"
  from pick_never_fails [OF ne] obtain first lst
    where pk: "pick_reference_frames frames = Inr (first, lst)" by blast
  obtain lr w1 where lp: "load_prompt_text E (v_prompt_path v) ?w0 = (lr, w1)"
    by (cases "load_prompt_text E (v_prompt_path v) ?w0")
  have k1: "kept w w1"
    using load_prompt_text_nodes [of E "v_prompt_path v" ?w0] lp by (simp add: kept_nodes)
  show ?thesis
  proof (cases lr)
    case (Inl e)
    then have "w' = w1" "r = Inl e" using assms ex f ne pk lp by (simp_all add: scene_step_def)
    then show ?thesis using True k1 by (intro failed) simp_all
  next
    case pt: (Inr prompt_text)
    obtain cr w2 where cj: "construct_job_config E cfg (b_api_key_path cfg)
            (path_name scene) v first (Some lst) prompt_text w1 = (cr, w2)"
      by (cases "construct_job_config E cfg (b_api_key_path cfg)
            (path_name scene) v first (Some lst) prompt_text w1")
    have "kept w1 w2"
      using construct_job_config_kept [of w1 E cfg "b_api_key_path cfg" "path_name scene" v
          first "Some lst" prompt_text] cj by simp
    then have k2: "kept w w2" using k1 kept_trans by blast
    show ?thesis
    proof (cases cr)
      case (Inl e)
      then have "w' = w2" "r = Inl e"
        using assms ex f ne pk lp pt cj by (simp_all add: scene_step_def)
      then show ?thesis using True k2 by (intro failed) simp_all
    next
      case jc: (Inr job)
      have jo: "output_path job = job_output_path cfg (path_name scene) v"
        using cj jc construct_job_config_output_path by blast
      have mk: "mkdir_p (output_dir cfg (path_name scene) v) w1 = (Inr (), w2)"
        using cj jc construct_job_config_mkdir by blast
      have d2: "\<forall>q\<in>set (prefixes (output_dir cfg (path_name scene) v)). is_dir w2 q"
        using mkdir_p_is_dir [OF mk] by blast
      show ?thesis
      proof (cases "path_exists w2 (output_path job)")
        case pe: True
        then have "w' = w2" "r = Inr ()"
          using assms ex f ne pk lp pt cj jc by (simp_all add: scene_step_def)
        then show ?thesis using True k2 jo pe by (intro skipped [of job]) simp_all
      next
        case npe: False
        obtain gr where rg: "run_generation E job w2 = Some (gr, w')"
          and gr: "r = (case gr of Inl e \<Rightarrow> Inl e | Inr out \<Rightarrow> Inr ())"
          using assms ex f ne pk lp pt cj jc npe
          by (auto simp: scene_step_def split: option.splits sum.splits prod.splits)
        show ?thesis using True k2 jo d2 npe rg gr by (rule ran)
      qed
    qed
  qed
qed

lemma scene_step_kept:
  assumes "scene_step E cfg scene v w = Some (r, w')"
  shows "kept w w'"
  using assms
proof (cases rule: scene_step_cases)
  case none
  then show ?thesis by simp
next
  case (failed e)
  then show ?thesis by simp
next
  case (skipped job)
  then show ?thesis by simp
next
  case (ran w2 job gr)
  then show ?thesis using run_generation_effect(1) kept_trans by blast
qed

lemma shorter_not_below: "q \<in> set (prefixes p) \<Longrightarrow> \<not> prefix (p' @ [x]) q \<or> length p' < length p"
  by (auto simp: in_set_prefixes dest!: prefix_length_le)

text \<open>A round with frames that went through leaves something at the output path of the
  pair.\<close>

lemma scene_step_output:
  assumes "scene_step E cfg scene v w = Some (Inr (), w')" and "has_frames w scene v"
  shows "path_exists w' (job_output_path cfg (path_name scene) v)"
  using assms(1)
proof (cases rule: scene_step_cases)
  case none
  then show ?thesis using assms(2) by simp
next
  case (failed e)
  then show ?thesis by simp
next
  case (skipped job)
  then show ?thesis by simp
next
  case (ran w2 job gr)
  then obtain out where rg: "run_generation E job w2 = Some (Inr out, w')"
    by (cases gr) auto
  let ?o = "output_path job"
  have a: "\<forall>q\<in>set (prefixes (parent ?o)). \<not> prefix (?o @ [[]]) q"
  proof
    fix q assume "q \<in> set (prefixes (parent ?o))"
    then have "length q \<le> length (parent ?o)" by (auto simp: in_set_prefixes dest: prefix_length_le)
    then have "length q < length (?o @ [[]])" by (simp add: parent_def)
    then show "\<not> prefix (?o @ [[]]) q" by (auto dest: prefix_length_le)
  qed
  have b: "\<not> prefix (?o @ [[]]) ?o" by (auto dest: prefix_length_le)
  from run_generation_done [OF rg ran(5) a b] show ?thesis using ran(3) by simp
qed

lemma kept_has_frames:
  assumes "kept w w'" and "has_frames w scene v"
  shows "has_frames w' scene v"
proof -
  let ?vf = "joinpath scene (v_name v)"
  from assms(2) obtain frames where ex: "path_exists w ?vf"
    and f: "list_variant_frames w ?vf = Inr frames" and ne: "frames \<noteq> []"
    by (auto simp: has_frames_def split: sum.splits)
  have d: "is_dir w ?vf"
    using f by (auto simp: list_variant_frames_def iterdir_def split: if_splits)
  from ne obtain p where p: "p \<in> set frames" by (cases frames) auto
  then have pin: "p \<in> fst ` set (nodes w)" and pp: "p \<noteq> [] \<and> parent p = ?vf"
    and ps: "image_suffix p"
    using f d by (auto simp: list_variant_frames_def iterdir_def)
  then have "map_of (nodes w) p \<noteq> None" by (simp add: map_of_eq_None_iff)
  then obtain n where "node_at w p = Some n" using pp by (auto simp: node_at_def)
  then have "node_at w' p = Some n" using assms(1) by (simp add: kept_iff)
  then have "map_of (nodes w') p = Some n" using pp by (simp add: node_at_def)
  then have pin': "p \<in> fst ` set (nodes w')" by (metis map_of_eq_None_iff option.distinct(1))
  have d': "is_dir w' ?vf" using assms(1) d by (rule kept_is_dir)
  let ?fs = "sort (filter image_suffix
             (filter (\<lambda>p. p \<noteq> [] \<and> parent p = ?vf) (map fst (nodes w'))))"
  have l: "list_variant_frames w' ?vf = Inr ?fs"
    using d' by (simp only: list_variant_frames_def iterdir_def if_True ebind_simps)
  have "p \<in> set ?fs" using pin' pp ps by auto
  then have "?fs \<noteq> []" by (metis empty_iff list.set(1))
  moreover have "path_exists w' ?vf" using assms(1) ex by (rule kept_path_exists)
  ultimately show ?thesis by (simp only: has_frames_def l sum.case) simp
qed

text \<open>The loops of the batch keep what is there, whatever their result, and after a
  loop that went through the output of each pair with frames is there.\<close>

lemma scene_loop_kept:
  "scene_loop E cfg scene vs w = Some (r, w') \<Longrightarrow> kept w w'"
proof (induction vs arbitrary: w)
  case Nil
  then show ?case by simp
next
  case (Cons v vs)
  obtain y where s: "scene_step E cfg scene v w = Some y"
    using Cons.prems by (cases "scene_step E cfg scene v w") simp_all
  obtain r1 w1 where y: "y = (r1, w1)" by (cases y)
  have k1: "kept w w1" using s [unfolded y] by (rule scene_step_kept)
  show ?case
  proof (cases r1)
    case (Inl e)
    then show ?thesis using Cons.prems s y k1 by simp
  next
    case (Inr u)
    then have "scene_loop E cfg scene vs w1 = Some (r, w')" using Cons.prems s y by simp
    then have "kept w1 w'" by (rule Cons.IH)
    then show ?thesis using k1 kept_trans by blast
  qed
qed

lemma scene_loop_outputs:
  "scene_loop E cfg scene vs w = Some (Inr (), w') \<Longrightarrow>
   \<forall>v\<in>set vs. has_frames w scene v \<longrightarrow>
     path_exists w' (job_output_path cfg (path_name scene) v)"
proof (induction vs arbitrary: w)
  case Nil
  then show ?case by simp
next
  case (Cons v vs)
  obtain y where s: "scene_step E cfg scene v w = Some y"
    using Cons.prems by (cases "scene_step E cfg scene v w") simp_all
  obtain r1 w1 where y: "y = (r1, w1)" by (cases y)
  have r1: "r1 = Inr ()" using Cons.prems s y by (cases r1) simp_all
  have rest: "scene_loop E cfg scene vs w1 = Some (Inr (), w')"
    using Cons.prems s y r1 by simp
  have k1: "kept w w1" using s [unfolded y] by (rule scene_step_kept)
  have k2: "kept w1 w'" using rest by (rule scene_loop_kept)
  have here: "has_frames w scene v \<longrightarrow> path_exists w' (job_output_path cfg (path_name scene) v)"
    using scene_step_output [OF s [unfolded y r1]] k2 kept_path_exists by blast
  have "\<forall>v\<in>set vs. has_frames w1 scene v \<longrightarrow>
          path_exists w' (job_output_path cfg (path_name scene) v)"
    by (rule Cons.IH [OF rest])
  then show ?case using here k1 kept_has_frames by auto
qed

lemma scenes_loop_kept:
  "scenes_loop E cfg scenes w = Some (r, w') \<Longrightarrow> kept w w'"
proof (induction scenes arbitrary: w)
  case Nil
  then show ?case by simp
next
  case (Cons scene scenes)
  obtain y where s: "scene_loop E cfg scene (b_variants cfg) w = Some y"
    using Cons.prems
    by (cases "scene_loop E cfg scene (b_variants cfg) w")
      (simp_all add: process_scene_folder_def)
  obtain r1 w1 where y: "y = (r1, w1)" by (cases y)
  have k1: "kept w w1" using s [unfolded y] by (rule scene_loop_kept)
  show ?case
  proof (cases r1)
    case (Inl e)
    then show ?thesis using Cons.prems s y k1 by (simp add: process_scene_folder_def)
  next
    case (Inr u)
    then have "scenes_loop E cfg scenes w1 = Some (r, w')"
      using Cons.prems s y by (simp add: process_scene_folder_def)
    then have "kept w1 w'" by (rule Cons.IH)
    then show ?thesis using k1 kept_trans by blast
  qed
qed

lemma batch_main_kept:
  assumes "batch_main E cfg w = Some (r, w')"
  shows "kept w w'"
proof (cases "resolve_api_key E (b_api_key_path cfg) w")
  case (Inl e)
  then show ?thesis using assms by (simp add: batch_main_def)
next
  case (Inr k)
  show ?thesis
  proof (cases "group_folders w (b_input_root cfg)")
    case (Inl e)
    then show ?thesis using assms Inr by (simp add: batch_main_def)
  next
    case gf: (Inr scenes)
    then show ?thesis using assms Inr scenes_loop_kept by (simp add: batch_main_def)
  qed
qed

section \<open>Where the outputs are written\<close>

text \<open>
  A round of the batch that is not left at the test and goes through, for a scene and a
  variant whose names are single path components, has added one entry to the files: the
  video, at the output path.
\<close>

lemma scene_step_written:
  assumes "path_exists w (joinpath scene (v_name v))"
    and "list_variant_frames w (joinpath scene (v_name v)) = Inr frames"
    and "pick_reference_frames frames = Inr (first, lst)"
    and "load_prompt_text E (v_prompt_path v) (w\<lparr>log := Pick (length frames) # log w\<rparr>)
           = (Inr t, w1)"
    and "construct_job_config E cfg (b_api_key_path cfg) (path_name scene) v first (Some lst) t w1
           = (Inr job, w2)"
    and "\<not> path_exists w2 (output_path job)"
    and "scene_step E cfg scene v w = Some (Inr (), w')"
    and "plain (path_name scene)" and "plain (v_name v)"
  shows "\<exists>content. nodes w' =
           nodes w2 @
           [(b_output_root cfg @
               [path_name scene, v_name v, path_name scene @ ''_'' @ v_name v @ ''.mp4''],
             File content)]"
proof -
  let ?sn = "path_name scene"
  have ne: "frames \<noteq> []" using assms(3) by (auto simp: pick_reference_frames_def)
  have jo: "output_path job = job_output_path cfg ?sn v"
    using assms(5) by (rule construct_job_config_output_path)
  have lay: "job_output_path cfg ?sn v =
               b_output_root cfg @ [?sn, v_name v, ?sn @ ''_'' @ v_name v @ ''.mp4'']"
    using assms(8,9) by (rule job_output_path_layout)
  have od: "output_dir cfg ?sn v = b_output_root cfg @ [?sn, v_name v]"
    using assms(8,9) by (simp add: output_dir_def joinpath_plain)
  have par: "parent (output_path job) = output_dir cfg ?sn v"
    by (simp add: jo lay od parent_def butlast_append)
  have mk: "mkdir_p (output_dir cfg ?sn v) w1 = (Inr (), w2)"
    using assms(5) by (rule construct_job_config_mkdir)
  have d2: "\<forall>q\<in>set (prefixes (parent (output_path job))). is_dir w2 q"
    using mkdir_p_is_dir [OF mk] par by simp
  obtain out where rg: "run_generation E job w2 = Some (Inr out, w')"
    using assms(1-7) ne
    by (auto simp: scene_step_def split: option.splits sum.splits prod.splits)
  from run_generation_effect(2) [OF rg assms(6) refl d2]
  show ?thesis by (simp add: jo lay)
qed

text \<open>
  A unit of the pipeline that is not left at the test and returns normally, for a variant
  and an image whose names are single path components.
\<close>

lemma process_image_written_layout:
  assumes "relative_to p (input_root cfg) = Inr rel"
    and "mkdir_p (out_dir cfg v rel) w = (Inr (), wd)"
    and "\<not> path_exists wd (out_path cfg v rel)"
    and "process_image E cfg d v pr p w = (Inr (), w')"
    and "plain (name v)" and "CHR ''/'' \<notin> set (path_name rel)"
  shows "\<exists>b. nodes w' =
           nodes wd @
           [(output_root cfg @ [name v] @ parent rel @ [stem rel @ ''_'' @ name v @ ''.png''],
             File b)]"
  using process_image_written [OF assms(1-4)] out_path_layout [OF assms(5,6), of cfg]
  by auto

text \<open>
  A unit of the folder script that returns normally has written the answer of the provider
  at the output path and changed nothing else.
\<close>

lemma pairs_unit_written:
  assumes "pairs_unit E cfg folder v pt img w = (Inr (), w')"
  shows "\<exists>b. nodes w' = AList.update (pairs_out_path folder v img) (File b) (nodes w) \<and>
             read_bytes w' (pairs_out_path folder v img) = Inr b"
proof -
  let ?o = "pairs_out_path folder v img"
  obtain raw where rb: "read_bytes w img = Inr raw"
    using assms by (cases "read_bytes w img") (simp_all add: pairs_unit_def)
  let ?req = "\<lparr>req_model = app_model_name cfg, req_prompt = pt,
                req_image = raw, req_creativity = creativity v,
                req_fidelity = fidelity v, req_width = app_output_width cfg,
                req_height = app_output_height cfg\<rparr>"
  have pu: "sbind (call_gemini_edit E ?req w) (write_bytes ?o) = (Inr (), w')"
    using assms rb by (simp add: pairs_unit_def)
  from try_block_cases [OF pu] obtain b
    where wr: "write_bytes ?o b (w\<lparr>log := Call # log w\<rparr>) = (Inr (), w')" by auto
  then have nd: "\<not> is_dir w ?o" and w': "w' = w\<lparr>log := Call # log w,
                       nodes := AList.update ?o (File b) (nodes w)\<rparr>"
    by (auto simp: write_bytes_def split: if_splits)
  have "read_bytes w' ?o = Inr b" using written_file [OF nd] w' by simp
  then show ?thesis using w' by auto
qed

lemma pairs_unit_written_layout:
  assumes "pairs_unit E cfg folder v pt img w = (Inr (), w')"
    and "plain (path_name folder)" and "plain (name v)"
    and "CHR ''/'' \<notin> set (path_name img)"
  shows "\<exists>b. nodes w' =
               AList.update
                 (OUTPUT_ROOT @ [path_name folder, name v, stem img @ ''_'' @ name v @ ''.png''])
                 (File b) (nodes w) \<and>
             read_bytes w'
               (OUTPUT_ROOT @ [path_name folder, name v, stem img @ ''_'' @ name v @ ''.png''])
               = Inr b"
  using pairs_unit_written [OF assms(1)] pairs_out_path_layout [OF assms(2-4)] by simp

section \<open>The files of a run of the folder script\<close>

text \<open>No step of the folder script removes a file or turns it into a directory.\<close>

lemma pairs_unit_files:
  assumes "pairs_unit E cfg folder v pt img w = (r, w')" and "is_file w p"
  shows "is_file w' p"
proof (cases "read_bytes w img")
  case (Inl e)
  then show ?thesis using assms by (simp add: pairs_unit_def)
next
  case (Inr raw)
  then show ?thesis
    using assms
    by (cases "edit E (ncalls (log w))
                 \<lparr>req_model = app_model_name cfg, req_prompt = pt,
                  req_image = raw, req_creativity = creativity v,
                  req_fidelity = fidelity v, req_width = app_output_width cfg,
                  req_height = app_output_height cfg\<rparr>")
      (auto simp: pairs_unit_def call_gemini_edit_def write_bytes_def sbind_def is_file_def
         node_at_def update_conv' split: if_splits)
qed

lemma pairs_unit_output:
  assumes "pairs_unit E cfg folder v pt img w = (Inr (), w')"
  shows "is_file w' (pairs_out_path folder v img)"
  using pairs_unit_written [OF assms]
  by (auto simp: read_bytes_def is_file_def split: option.splits node.splits)

lemma pairs_images_loop_files:
  "pairs_images_loop E cfg folder v pt imgs w = (r, w') \<Longrightarrow> is_file w p \<Longrightarrow> is_file w' p"
proof (induction imgs arbitrary: w)
  case Nil
  then show ?case by simp
next
  case (Cons img imgs)
  obtain r1 w1 where u: "pairs_unit E cfg folder v pt img w = (r1, w1)"
    by (cases "pairs_unit E cfg folder v pt img w")
  have f: "is_file w1 p" using pairs_unit_files [OF u Cons.prems(2)] .
  show ?case
  proof (cases r1)
    case (Inl e)
    then show ?thesis using Cons.prems u f by simp
  next
    case (Inr x)
    then show ?thesis using Cons.prems u f Cons.IH [of w1] by simp
  qed
qed

lemma pairs_images_loop_outputs:
  "pairs_images_loop E cfg folder v pt imgs w = (Inr (), w') \<Longrightarrow>
   \<forall>img\<in>set imgs. is_file w' (pairs_out_path folder v img)"
proof (induction imgs arbitrary: w)
  case Nil
  then show ?case by simp
next
  case (Cons img imgs)
  obtain r1 w1 where u: "pairs_unit E cfg folder v pt img w = (r1, w1)"
    by (cases "pairs_unit E cfg folder v pt img w")
  show ?case
  proof (cases r1)
    case (Inl e)
    then show ?thesis using Cons.prems u by simp
  next
    case (Inr x)
    then have rest: "pairs_images_loop E cfg folder v pt imgs w1 = (Inr (), w')"
      using Cons.prems u by simp
    have "is_file w1 (pairs_out_path folder v img)"
      using pairs_unit_output [of E cfg folder v pt img w w1] u Inr by simp
    then have "is_file w' (pairs_out_path folder v img)"
      using pairs_images_loop_files [OF rest] by simp
    then show ?thesis using Cons.IH [OF rest] by simp
  qed
qed

lemma get_template_files:
  "get_template E cache q w = (r, w') \<Longrightarrow> is_file w p \<Longrightarrow> is_file w' p"
  using get_template_nodes [of E cache q w]
  by (auto simp: is_file_def node_at_def split: if_splits)

lemma mkdir_p_files: "mkdir_p d w = (r, w') \<Longrightarrow> is_file w p \<Longrightarrow> is_file w' p"
  using mkdir_p_kept [of w d] kept_is_file by fastforce

lemma pairs_variants_loop_files:
  "pairs_variants_loop E cfg folder imgs vs cache w = (r, w') \<Longrightarrow> is_file w p \<Longrightarrow>
   is_file w' p"
proof (induction vs arbitrary: cache w)
  case Nil
  then show ?case by simp
next
  case (Cons v vs)
  obtain r1 w1 where g: "get_template E cache (prompt_path v) w = (r1, w1)"
    by (cases "get_template E cache (prompt_path v) w")
  have f1: "is_file w1 p" using get_template_files [OF g Cons.prems(2)] .
  show ?case
  proof (cases r1)
    case (Inl e)
    then show ?thesis using Cons.prems g f1 by simp
  next
    case (Inr tc)
    obtain t cache1 where tc: "tc = (t, cache1)" by (cases tc)
    obtain r2 w2 where m:
      "mkdir_p (joinpath (joinpath OUTPUT_ROOT (path_name folder)) (name v)) w1 = (r2, w2)"
      by (cases "mkdir_p (joinpath (joinpath OUTPUT_ROOT (path_name folder)) (name v)) w1")
    have f2: "is_file w2 p" using mkdir_p_files [OF m f1] .
    show ?thesis
    proof (cases r2)
      case (Inl e)
      then show ?thesis using Cons.prems g Inr tc m f2 by simp
    next
      case u: (Inr x)
      obtain r3 w3 where l:
        "pairs_images_loop E cfg folder v (build_prompt t) imgs w2 = (r3, w3)"
        by (cases "pairs_images_loop E cfg folder v (build_prompt t) imgs w2")
      have f3: "is_file w3 p" using pairs_images_loop_files [OF l f2] .
      show ?thesis
      proof (cases r3)
        case (Inl e)
        then show ?thesis using Cons.prems g Inr tc m u l f3 by simp
      next
        case y: (Inr y)
        then show ?thesis using Cons.prems g Inr tc m u l f3 Cons.IH [of cache1 w3] by simp
      qed
    qed
  qed
qed

lemma pairs_variants_loop_outputs:
  "pairs_variants_loop E cfg folder imgs vs cache w = (Inr cache', w') \<Longrightarrow>
   \<forall>v\<in>set vs. \<forall>img\<in>set imgs. is_file w' (pairs_out_path folder v img)"
proof (induction vs arbitrary: cache w)
  case Nil
  then show ?case by simp
next
  case (Cons v vs)
  obtain r1 w1 where g: "get_template E cache (prompt_path v) w = (r1, w1)"
    by (cases "get_template E cache (prompt_path v) w")
  show ?case
  proof (cases r1)
    case (Inl e)
    then show ?thesis using Cons.prems g by simp
  next
    case (Inr tc)
    obtain t cache1 where tc: "tc = (t, cache1)" by (cases tc)
    obtain r2 w2 where m:
      "mkdir_p (joinpath (joinpath OUTPUT_ROOT (path_name folder)) (name v)) w1 = (r2, w2)"
      by (cases "mkdir_p (joinpath (joinpath OUTPUT_ROOT (path_name folder)) (name v)) w1")
    show ?thesis
    proof (cases r2)
      case (Inl e)
      then show ?thesis using Cons.prems g Inr tc m by simp
    next
      case u: (Inr x)
      obtain r3 w3 where l:
        "pairs_images_loop E cfg folder v (build_prompt t) imgs w2 = (r3, w3)"
        by (cases "pairs_images_loop E cfg folder v (build_prompt t) imgs w2")
      show ?thesis
      proof (cases r3)
        case (Inl e)
        then show ?thesis using Cons.prems g Inr tc m u l by simp
      next
        case y: (Inr y)
        then have rest: "pairs_variants_loop E cfg folder imgs vs cache1 w3 = (Inr cache', w')"
          using Cons.prems g Inr tc m u l by simp
        have "\<forall>img\<in>set imgs. is_file w3 (pairs_out_path folder v img)"
          using pairs_images_loop_outputs [of E cfg folder v "build_prompt t" imgs w2 w3] l y
          by simp
        then have "\<forall>img\<in>set imgs. is_file w' (pairs_out_path folder v img)"
          using pairs_variants_loop_files [OF rest] by blast
        then show ?thesis using Cons.IH [OF rest] by simp
      qed
    qed
  qed
qed

text \<open>
  A call of \<^verbatim>\<open>process_folder\<close> that returns leaves a file at the output path of every
  variant and every image of the folder.
\<close>

lemma process_folder_outputs:
  assumes "process_folder E cfg folder cache w = (Inr cache', w')"
    and "iterdir w folder = Inr entries"
    and "img \<in> set entries" and "image_suffix img" and "v \<in> set (app_variants cfg)"
  shows "is_file w' (pairs_out_path folder v img)"
proof -
  let ?images = "sort (filter image_suffix entries)"
  have i: "img \<in> set ?images" using assms(3,4) by simp
  then have ne: "?images \<noteq> []" by (metis empty_iff empty_set)
  have "pairs_variants_loop E cfg folder ?images (app_variants cfg) cache w = (Inr cache', w')"
    using assms(1,2) ne by (simp add: process_folder_def Let_def)
  from pairs_variants_loop_outputs [OF this] i assms(5) show ?thesis by blast
qed

section \<open>The layout of the written output\<close>

lemmas pairs_eval = pairs_main_def iter_subfolders_def INPUT_ROOT_def process_folder_def
  pairs_unit_def pairs_out_path_def OUTPUT_ROOT_def iterdir_def
  pairs_world_def pairs_nodes_def demo_app_cfg_def

lemma pairs_run:
  "pairs_main good_env demo_app_cfg pairs_world =
     (Inr (),
      \<lparr>nodes = pairs_nodes @
         [([''outputimg''], Dir), ([''outputimg'', ''g''], Dir),
          ([''outputimg'', ''g'', ''rain''], Dir),
          ([''outputimg'', ''g'', ''rain'', ''a_rain.png''], File ''PNGA'')],
       log = [Call, Load [''cfg'', ''rain.yaml'']]\<rparr>)"
  by (simp add: pairs_eval run_eval good_env_fields Let_def)

text \<open>
  C7 (as amended). With variant, group and scene names that are single path components:
  the pipeline script writes the output of an image at
  \<^verbatim>\<open>outputRoot/<variantName>/<directories of the image below the input root>/<stem>_<variantName>.png\<close>,
  the variant before the group; the folder script writes at
  \<^verbatim>\<open>outputimg/<groupName>/<variantName>/<stem>_<variantName>.png\<close>; the video batch writes
  at \<^verbatim>\<open>outputRoot/<sceneName>/<variantName>/<sceneName>_<variantName>.mp4\<close>, and this is the
  output path of the job it constructs.

  The first four parts give the paths that the scripts compute. The last three are about
  the files: a unit of the pipeline that is not left at the test and returns normally has
  added to the files exactly one entry, a file at that path; a unit of the folder script
  that returns normally has set the file at that path, to what the provider answered, and
  changed no other entry; a round of the video batch that is not left at the test and
  goes through has added exactly one entry, a file at that path. The last part is about a
  whole call of \<^verbatim>\<open>process_folder\<close>: when it returns, there is a file at that path for
  every variant of the configuration and every image that the folder listed.
\<close>

theorem output_layout:
  "(plain (name variant) \<and> CHR ''/'' \<notin> set (path_name relative) \<longrightarrow>
      out_path cfg variant relative =
        output_root cfg @ [name variant] @ parent relative @
          [stem relative @ ''_'' @ name variant @ ''.png''])
   \<and> (plain (path_name folder) \<and> plain (name variant) \<and>
      CHR ''/'' \<notin> set (path_name img_path) \<longrightarrow>
        pairs_out_path folder variant img_path =
          OUTPUT_ROOT @
            [path_name folder, name variant, stem img_path @ ''_'' @ name variant @ ''.png''])
   \<and> (plain scene_name \<and> plain (v_name variant_cfg) \<longrightarrow>
        job_output_path batch_cfg scene_name variant_cfg =
          b_output_root batch_cfg @
            [scene_name, v_name variant_cfg,
             scene_name @ ''_'' @ v_name variant_cfg @ ''.mp4''])
   \<and> (construct_job_config E batch_cfg key_path scene_name variant_cfg first last_opt
          prompt_text w = (Inr job_cfg, w1) \<longrightarrow>
        output_path job_cfg = job_output_path batch_cfg scene_name variant_cfg)
   \<and> (relative_to p (input_root cfg) = Inr relative \<and>
      mkdir_p (out_dir cfg variant relative) wp = (Inr (), wd) \<and>
      \<not> path_exists wd (out_path cfg variant relative) \<and>
      process_image E cfg d variant pr p wp = (Inr (), wp') \<and>
      plain (name variant) \<and> CHR ''/'' \<notin> set (path_name relative) \<longrightarrow>
        (\<exists>b. nodes wp' =
               nodes wd @
               [(output_root cfg @ [name variant] @ parent relative @
                   [stem relative @ ''_'' @ name variant @ ''.png''],
                 File b)]))
   \<and> (pairs_unit E app_cfg folder variant pr img_path wq = (Inr (), wq') \<and>
      plain (path_name folder) \<and> plain (name variant) \<and>
      CHR ''/'' \<notin> set (path_name img_path) \<longrightarrow>
        (\<exists>b. nodes wq' =
               AList.update
                 (OUTPUT_ROOT @
                    [path_name folder, name variant,
                     stem img_path @ ''_'' @ name variant @ ''.png''])
                 (File b) (nodes wq) \<and>
             read_bytes wq'
               (OUTPUT_ROOT @
                  [path_name folder, name variant,
                   stem img_path @ ''_'' @ name variant @ ''.png'']) = Inr b))
   \<and> (path_exists ws (joinpath scene (v_name variant_cfg)) \<and>
      list_variant_frames ws (joinpath scene (v_name variant_cfg)) = Inr frames \<and>
      pick_reference_frames frames = Inr (first_frame', last_frame') \<and>
      load_prompt_text E (v_prompt_path variant_cfg)
        (ws\<lparr>log := Pick (length frames) # log ws\<rparr>) = (Inr t, ws1) \<and>
      construct_job_config E batch_cfg (b_api_key_path batch_cfg) (path_name scene) variant_cfg
        first_frame' (Some last_frame') t ws1 = (Inr job, ws2) \<and>
      \<not> path_exists ws2 (output_path job) \<and>
      scene_step E batch_cfg scene variant_cfg ws = Some (Inr (), ws') \<and>
      plain (path_name scene) \<and> plain (v_name variant_cfg) \<longrightarrow>
        (\<exists>content. nodes ws' =
               nodes ws2 @
               [(b_output_root batch_cfg @
                   [path_name scene, v_name variant_cfg,
                    path_name scene @ ''_'' @ v_name variant_cfg @ ''.mp4''],
                 File content)]))
   \<and> (process_folder E app_cfg folder prompt_cache wq = (Inr prompt_cache', wq') \<and>
      iterdir wq folder = Inr entries \<and> img_path \<in> set entries \<and> image_suffix img_path \<and>
      variant \<in> set (app_variants app_cfg) \<and>
      plain (path_name folder) \<and> plain (name variant) \<and>
      CHR ''/'' \<notin> set (path_name img_path) \<longrightarrow>
        is_file wq'
          (OUTPUT_ROOT @
             [path_name folder, name variant, stem img_path @ ''_'' @ name variant @ ''.png'']))"
proof (intro conjI impI)
  assume "plain (name variant) \<and> CHR ''/'' \<notin> set (path_name relative)"
  then show "out_path cfg variant relative =
        output_root cfg @ [name variant] @ parent relative @
          [stem relative @ ''_'' @ name variant @ ''.png'']"
    using out_path_layout by blast
next
  assume "plain (path_name folder) \<and> plain (name variant) \<and>
      CHR ''/'' \<notin> set (path_name img_path)"
  then show "pairs_out_path folder variant img_path =
          OUTPUT_ROOT @
            [path_name folder, name variant, stem img_path @ ''_'' @ name variant @ ''.png'']"
    using pairs_out_path_layout by blast
next
  assume "plain scene_name \<and> plain (v_name variant_cfg)"
  then show "job_output_path batch_cfg scene_name variant_cfg =
          b_output_root batch_cfg @
            [scene_name, v_name variant_cfg,
             scene_name @ ''_'' @ v_name variant_cfg @ ''.mp4'']"
    using job_output_path_layout by blast
next
  assume "construct_job_config E batch_cfg key_path scene_name variant_cfg first last_opt
          prompt_text w = (Inr job_cfg, w1)"
  then show "output_path job_cfg = job_output_path batch_cfg scene_name variant_cfg"
    by (rule construct_job_config_output_path)
next
  assume a: "relative_to p (input_root cfg) = Inr relative \<and>
      mkdir_p (out_dir cfg variant relative) wp = (Inr (), wd) \<and>
      \<not> path_exists wd (out_path cfg variant relative) \<and>
      process_image E cfg d variant pr p wp = (Inr (), wp') \<and>
      plain (name variant) \<and> CHR ''/'' \<notin> set (path_name relative)"
  then have h: "relative_to p (input_root cfg) = Inr relative"
    "mkdir_p (out_dir cfg variant relative) wp = (Inr (), wd)"
    "\<not> path_exists wd (out_path cfg variant relative)"
    "process_image E cfg d variant pr p wp = (Inr (), wp')"
    "plain (name variant)" "CHR ''/'' \<notin> set (path_name relative)"
    by simp_all
  show "\<exists>b. nodes wp' =
               nodes wd @
               [(output_root cfg @ [name variant] @ parent relative @
                   [stem relative @ ''_'' @ name variant @ ''.png''],
                 File b)]"
    by (rule process_image_written_layout [OF h])
next
  assume a: "pairs_unit E app_cfg folder variant pr img_path wq = (Inr (), wq') \<and>
      plain (path_name folder) \<and> plain (name variant) \<and>
      CHR ''/'' \<notin> set (path_name img_path)"
  then have h: "pairs_unit E app_cfg folder variant pr img_path wq = (Inr (), wq')"
    "plain (path_name folder)" "plain (name variant)" "CHR ''/'' \<notin> set (path_name img_path)"
    by simp_all
  show "\<exists>b. nodes wq' =
               AList.update
                 (OUTPUT_ROOT @
                    [path_name folder, name variant,
                     stem img_path @ ''_'' @ name variant @ ''.png''])
                 (File b) (nodes wq) \<and>
             read_bytes wq'
               (OUTPUT_ROOT @
                  [path_name folder, name variant,
                   stem img_path @ ''_'' @ name variant @ ''.png'']) = Inr b"
    by (rule pairs_unit_written_layout [OF h])
next
  assume a: "path_exists ws (joinpath scene (v_name variant_cfg)) \<and>
      list_variant_frames ws (joinpath scene (v_name variant_cfg)) = Inr frames \<and>
      pick_reference_frames frames = Inr (first_frame', last_frame') \<and>
      load_prompt_text E (v_prompt_path variant_cfg)
        (ws\<lparr>log := Pick (length frames) # log ws\<rparr>) = (Inr t, ws1) \<and>
      construct_job_config E batch_cfg (b_api_key_path batch_cfg) (path_name scene) variant_cfg
        first_frame' (Some last_frame') t ws1 = (Inr job, ws2) \<and>
      \<not> path_exists ws2 (output_path job) \<and>
      scene_step E batch_cfg scene variant_cfg ws = Some (Inr (), ws') \<and>
      plain (path_name scene) \<and> plain (v_name variant_cfg)"
  then have h: "path_exists ws (joinpath scene (v_name variant_cfg))"
    "list_variant_frames ws (joinpath scene (v_name variant_cfg)) = Inr frames"
    "pick_reference_frames frames = Inr (first_frame', last_frame')"
    "load_prompt_text E (v_prompt_path variant_cfg)
        (ws\<lparr>log := Pick (length frames) # log ws\<rparr>) = (Inr t, ws1)"
    "construct_job_config E batch_cfg (b_api_key_path batch_cfg) (path_name scene) variant_cfg
        first_frame' (Some last_frame') t ws1 = (Inr job, ws2)"
    "\<not> path_exists ws2 (output_path job)"
    "scene_step E batch_cfg scene variant_cfg ws = Some (Inr (), ws')"
    "plain (path_name scene)" "plain (v_name variant_cfg)"
    by simp_all
  show "\<exists>content. nodes ws' =
               nodes ws2 @
               [(b_output_root batch_cfg @
                   [path_name scene, v_name variant_cfg,
                    path_name scene @ ''_'' @ v_name variant_cfg @ ''.mp4''],
                 File content)]"
    by (rule scene_step_written [OF h])
next
  assume a: "process_folder E app_cfg folder prompt_cache wq = (Inr prompt_cache', wq') \<and>
      iterdir wq folder = Inr entries \<and> img_path \<in> set entries \<and> image_suffix img_path \<and>
      variant \<in> set (app_variants app_cfg) \<and>
      plain (path_name folder) \<and> plain (name variant) \<and>
      CHR ''/'' \<notin> set (path_name img_path)"
  then have "is_file wq' (pairs_out_path folder variant img_path)"
    using process_folder_outputs [of E app_cfg folder prompt_cache wq prompt_cache' wq'
        entries img_path variant]
    by blast
  then show "is_file wq'
          (OUTPUT_ROOT @
             [path_name folder, name variant, stem img_path @ ''_'' @ name variant @ ''.png''])"
    using a pairs_out_path_layout [of folder variant img_path] by simp
qed

text \<open>
  The examples: the paths of the three scripts for the image \<^verbatim>\<open>g/a.png\<close>, the group
  \<^verbatim>\<open>g\<close>, the scene \<^verbatim>\<open>s1\<close> and the variant \<^verbatim>\<open>rain\<close>, the one entry that a unit of
  each script adds to the files of its example, and the file that the call of
  \<^verbatim>\<open>process_folder\<close> for the group leaves.
\<close>

theorem output_layout_witness:
  "out_path demo_cfg demo_variant [''g'', ''a.png''] = [''out'', ''rain'', ''g'', ''a_rain.png'']
   \<and> pairs_out_path [''input'', ''imgsource'', ''g''] demo_variant
        [''input'', ''imgsource'', ''g'', ''a.png'']
        = [''outputimg'', ''g'', ''rain'', ''a_rain.png'']
   \<and> job_output_path demo_batch_cfg ''s1'' demo_batch_variant
        = [''out'', ''s1'', ''rain'', ''s1_rain.mp4'']
   \<and> (\<exists>job_cfg w1.
         construct_job_config good_env demo_batch_cfg None ''s1'' demo_batch_variant
           [''in'', ''s1'', ''rain'', ''0000.png'']
           (Some [''in'', ''s1'', ''rain'', ''0008.png'']) ''a ride'' video_world
           = (Inr job_cfg, w1) \<and>
         output_path job_cfg = [''out'', ''s1'', ''rain'', ''s1_rain.mp4''])
   \<and> (\<exists>b. nodes (snd (process_image good_env demo_cfg 2 demo_variant ''p''
                          [''in'', ''g'', ''a.png''] demo_world)) =
            demo_nodes @
            [([''out''], Dir), ([''out'', ''rain''], Dir), ([''out'', ''rain'', ''g''], Dir),
             ([''out'', ''rain'', ''g'', ''a_rain.png''], File b)])
   \<and> (\<exists>b. nodes (snd (pairs_main good_env demo_app_cfg pairs_world)) =
            pairs_nodes @
            [([''outputimg''], Dir), ([''outputimg'', ''g''], Dir),
             ([''outputimg'', ''g'', ''rain''], Dir),
             ([''outputimg'', ''g'', ''rain'', ''a_rain.png''], File b)] \<and>
          read_bytes (snd (pairs_main good_env demo_app_cfg pairs_world))
            [''outputimg'', ''g'', ''rain'', ''a_rain.png''] = Inr b)
   \<and> (\<exists>content. nodes video_world_after =
            video_nodes @
            [([''out''], Dir), ([''out'', ''s1''], Dir), ([''out'', ''s1'', ''rain''], Dir),
             ([''out'', ''s1'', ''rain'', ''s1_rain.mp4''], File content)])
   \<and> is_file (snd (process_folder good_env demo_app_cfg [''input'', ''imgsource'', ''g'']
                     Map.empty pairs_world))
       [''outputimg'', ''g'', ''rain'', ''a_rain.png'']"
proof -
  have h: "plain (name demo_variant)" "CHR ''/'' \<notin> set (path_name [''g'', ''a.png''])"
    "plain (path_name [''input'', ''imgsource'', ''g''])"
    "CHR ''/'' \<notin> set (path_name [''input'', ''imgsource'', ''g'', ''a.png''])"
    "plain ''s1''" "plain (v_name demo_batch_variant)"
    by (simp_all add: plain_def demo_variant_def demo_batch_variant_def path_name_def)
  obtain job_cfg w1 where j: "construct_job_config good_env demo_batch_cfg None ''s1''
       demo_batch_variant [''in'', ''s1'', ''rain'', ''0000.png'']
       (Some [''in'', ''s1'', ''rain'', ''0008.png'']) ''a ride'' video_world = (Inr job_cfg, w1)"
    by (simp add: construct_job_config_def demo_batch_cfg_def demo_batch_variant_def
      defaults_get_def yget_def upper_of_def lookup_reference_type_def good_env_def upper_def
      upper_char_def output_dir_def job_output_path_def joinpath_def is_absolute_def
      path_parts_def mkdir_p_def video_world_def video_nodes_def is_file_def node_at_def
      add_dir_def prefixes_snoc)
  note t = output_layout [where variant = demo_variant and relative = "[''g'', ''a.png'']"
      and cfg = demo_cfg and folder = "[''input'', ''imgsource'', ''g'']"
      and img_path = "[''input'', ''imgsource'', ''g'', ''a.png'']" and scene_name = "''s1''"
      and variant_cfg = demo_batch_variant and batch_cfg = demo_batch_cfg and E = good_env
      and key_path = None and first = "[''in'', ''s1'', ''rain'', ''0000.png'']"
      and last_opt = "Some [''in'', ''s1'', ''rain'', ''0008.png'']"
      and prompt_text = "''a ride''" and w = video_world and job_cfg = job_cfg and ?w1.0 = w1]
  from t [THEN conjunct1] h have 1: "out_path demo_cfg demo_variant [''g'', ''a.png''] =
        output_root demo_cfg @ [name demo_variant] @ parent [''g'', ''a.png''] @
          [stem [''g'', ''a.png''] @ ''_'' @ name demo_variant @ ''.png'']"
    by blast
  from t [THEN conjunct2, THEN conjunct1] h have 2: "pairs_out_path [''input'', ''imgsource'', ''g''] demo_variant
        [''input'', ''imgsource'', ''g'', ''a.png''] =
          OUTPUT_ROOT @
            [path_name [''input'', ''imgsource'', ''g''], name demo_variant,
             stem [''input'', ''imgsource'', ''g'', ''a.png''] @ ''_'' @ name demo_variant @ ''.png'']"
    by blast
  from t [THEN conjunct2, THEN conjunct2, THEN conjunct1] h have 3: "job_output_path demo_batch_cfg ''s1'' demo_batch_variant =
          b_output_root demo_batch_cfg @
            [''s1'', v_name demo_batch_variant,
             ''s1'' @ ''_'' @ v_name demo_batch_variant @ ''.mp4'']"
    by blast
  from t [THEN conjunct2, THEN conjunct2, THEN conjunct2, THEN conjunct1] j
  have 4: "output_path job_cfg = job_output_path demo_batch_cfg ''s1'' demo_batch_variant"
    by blast
  have c1: "out_path demo_cfg demo_variant [''g'', ''a.png'']
              = [''out'', ''rain'', ''g'', ''a_rain.png'']"
    unfolding 1 by (simp add: demo_cfg_def demo_variant_def parent_def stem_def path_name_def
        rfind_dot_def)
  have c2: "pairs_out_path [''input'', ''imgsource'', ''g''] demo_variant
        [''input'', ''imgsource'', ''g'', ''a.png''] = [''outputimg'', ''g'', ''rain'', ''a_rain.png'']"
    unfolding 2 by (simp add: OUTPUT_ROOT_def demo_variant_def stem_def path_name_def
        rfind_dot_def)
  have c3: "job_output_path demo_batch_cfg ''s1'' demo_batch_variant
        = [''out'', ''s1'', ''rain'', ''s1_rain.mp4'']"
    unfolding 3 by (simp add: demo_batch_cfg_def demo_batch_variant_def)
  have c4: "\<exists>job_cfg w1.
         construct_job_config good_env demo_batch_cfg None ''s1'' demo_batch_variant
           [''in'', ''s1'', ''rain'', ''0000.png'']
           (Some [''in'', ''s1'', ''rain'', ''0008.png'']) ''a ride'' video_world
           = (Inr job_cfg, w1) \<and>
         output_path job_cfg = [''out'', ''s1'', ''rain'', ''s1_rain.mp4'']"
    using j 4 c3 by auto
  let ?p = "[''in'', ''g'', ''a.png'']"
  let ?wd = "\<lparr>nodes = demo_nodes @
               [([''out''], Dir), ([''out'', ''rain''], Dir), ([''out'', ''rain'', ''g''], Dir)],
             log = []\<rparr>"
  let ?wp = "\<lparr>nodes = demo_nodes @
               [([''out''], Dir), ([''out'', ''rain''], Dir), ([''out'', ''rain'', ''g''], Dir),
                ([''out'', ''rain'', ''g'', ''a_rain.png''], File ''PNGA'')],
             log = [Sleep 2, Call]\<rparr>"
  have p: "relative_to ?p (input_root demo_cfg) = Inr [''g'', ''a.png''] \<and>
      mkdir_p (out_dir demo_cfg demo_variant [''g'', ''a.png'']) demo_world = (Inr (), ?wd) \<and>
      \<not> path_exists ?wd (out_path demo_cfg demo_variant [''g'', ''a.png'']) \<and>
      process_image good_env demo_cfg 2 demo_variant ''p'' ?p demo_world = (Inr (), ?wp)"
    by (simp add: run_eval good_env_fields)
  from output_layout [where variant = demo_variant and relative = "[''g'', ''a.png'']"
      and cfg = demo_cfg and p = ?p and wp = demo_world and wd = ?wd and E = good_env
      and d = 2 and pr = "''p''" and wp' = ?wp,
      THEN conjunct2, THEN conjunct2, THEN conjunct2, THEN conjunct2, THEN conjunct1] p h
  have "\<exists>b. nodes ?wp =
               nodes ?wd @
               [(output_root demo_cfg @ [name demo_variant] @ parent [''g'', ''a.png''] @
                   [stem [''g'', ''a.png''] @ ''_'' @ name demo_variant @ ''.png''],
                 File b)]"
    by blast
  then have c5: "\<exists>b. nodes (snd (process_image good_env demo_cfg 2 demo_variant ''p''
                          ?p demo_world)) =
            demo_nodes @
            [([''out''], Dir), ([''out'', ''rain''], Dir), ([''out'', ''rain'', ''g''], Dir),
             ([''out'', ''rain'', ''g'', ''a_rain.png''], File b)]"
    using p by (simp add: demo_cfg_def demo_variant_def parent_def stem_def path_name_def
        rfind_dot_def)
  let ?f = "[''input'', ''imgsource'', ''g'']"
  let ?img = "[''input'', ''imgsource'', ''g'', ''a.png'']"
  let ?wf = "\<lparr>nodes = pairs_nodes @
         [([''outputimg''], Dir), ([''outputimg'', ''g''], Dir),
          ([''outputimg'', ''g'', ''rain''], Dir)],
       log = [Load [''cfg'', ''rain.yaml'']]\<rparr>"
  let ?wf' = "\<lparr>nodes = pairs_nodes @
         [([''outputimg''], Dir), ([''outputimg'', ''g''], Dir),
          ([''outputimg'', ''g'', ''rain''], Dir),
          ([''outputimg'', ''g'', ''rain'', ''a_rain.png''], File ''PNGA'')],
       log = [Call, Load [''cfg'', ''rain.yaml'']]\<rparr>"
  have u: "pairs_unit good_env demo_app_cfg ?f demo_variant
             (''rainy street'' @ [CHR 0x0A] @ ''Negative prompt: blur'') ?img ?wf = (Inr (), ?wf')"
    by (simp add: pairs_eval run_eval good_env_fields)
  from output_layout [where variant = demo_variant and folder = ?f and img_path = ?img
      and E = good_env and app_cfg = demo_app_cfg
      and pr = "''rainy street'' @ [CHR 0x0A] @ ''Negative prompt: blur''"
      and wq = ?wf and wq' = ?wf',
      THEN conjunct2, THEN conjunct2, THEN conjunct2, THEN conjunct2, THEN conjunct2,
      THEN conjunct1] u h
  have "\<exists>b. nodes ?wf' =
               AList.update
                 (OUTPUT_ROOT @
                    [path_name ?f, name demo_variant,
                     stem ?img @ ''_'' @ name demo_variant @ ''.png''])
                 (File b) (nodes ?wf) \<and>
             read_bytes ?wf'
               (OUTPUT_ROOT @
                  [path_name ?f, name demo_variant,
                   stem ?img @ ''_'' @ name demo_variant @ ''.png'']) = Inr b"
    by blast
  then have c6: "\<exists>b. nodes (snd (pairs_main good_env demo_app_cfg pairs_world)) =
            pairs_nodes @
            [([''outputimg''], Dir), ([''outputimg'', ''g''], Dir),
             ([''outputimg'', ''g'', ''rain''], Dir),
             ([''outputimg'', ''g'', ''rain'', ''a_rain.png''], File b)] \<and>
          read_bytes (snd (pairs_main good_env demo_app_cfg pairs_world))
            [''outputimg'', ''g'', ''rain'', ''a_rain.png''] = Inr b"
    unfolding pairs_run
    by (simp add: OUTPUT_ROOT_def demo_variant_def stem_def path_name_def rfind_dot_def
        pairs_nodes_def)
  let ?s = "[''in'', ''s1'']"
  let ?job = "demo_job\<lparr>prompt := ''rainy street'' @ [CHR 0x0A] @ ''Negative prompt: blur''\<rparr>"
  let ?ws2 = "\<lparr>nodes = video_nodes @
        [([''out''], Dir), ([''out'', ''s1''], Dir), ([''out'', ''s1'', ''rain''], Dir)],
      log = [Load [''cfg'', ''rain.yaml''], Pick 2]\<rparr>"
  have v: "path_exists video_world (joinpath ?s (v_name demo_batch_variant)) \<and>
      list_variant_frames video_world (joinpath ?s (v_name demo_batch_variant)) =
        Inr [[''in'', ''s1'', ''rain'', ''0000.png''], [''in'', ''s1'', ''rain'', ''0008.png'']] \<and>
      pick_reference_frames
        [[''in'', ''s1'', ''rain'', ''0000.png''], [''in'', ''s1'', ''rain'', ''0008.png'']] =
        Inr ([''in'', ''s1'', ''rain'', ''0000.png''], [''in'', ''s1'', ''rain'', ''0008.png'']) \<and>
      load_prompt_text good_env (v_prompt_path demo_batch_variant)
        (video_world\<lparr>log := Pick (length
           [[''in'', ''s1'', ''rain'', ''0000.png''], [''in'', ''s1'', ''rain'', ''0008.png'']])
           # log video_world\<rparr>)
        = (Inr (''rainy street'' @ [CHR 0x0A] @ ''Negative prompt: blur''),
           \<lparr>nodes = video_nodes, log = [Load [''cfg'', ''rain.yaml''], Pick 2]\<rparr>) \<and>
      construct_job_config good_env demo_batch_cfg (b_api_key_path demo_batch_cfg)
        (path_name ?s) demo_batch_variant [''in'', ''s1'', ''rain'', ''0000.png'']
        (Some [''in'', ''s1'', ''rain'', ''0008.png''])
        (''rainy street'' @ [CHR 0x0A] @ ''Negative prompt: blur'')
        \<lparr>nodes = video_nodes, log = [Load [''cfg'', ''rain.yaml''], Pick 2]\<rparr> = (Inr ?job, ?ws2)"
    by (simp add: batch_eval good_env_fields good_env_video_fields video_world_def
        video_nodes_def demo_job_def Let_def)
  have v2: "\<not> path_exists ?ws2 (output_path ?job) \<and>
            scene_step good_env demo_batch_cfg ?s demo_batch_variant video_world
              = Some (Inr (), video_world_after) \<and>
            plain (path_name ?s) \<and> plain (v_name demo_batch_variant)"
    using batch_step
    by (simp add: path_exists_def node_at_def demo_job_def video_nodes_def
        video_world_after_def plain_def path_name_def demo_batch_variant_def)
  from output_layout [where E = good_env
      and batch_cfg = demo_batch_cfg and scene = ?s and variant_cfg = demo_batch_variant
      and ws = video_world
      and frames = "[[''in'', ''s1'', ''rain'', ''0000.png''],
                     [''in'', ''s1'', ''rain'', ''0008.png'']]"
      and first_frame' = "[''in'', ''s1'', ''rain'', ''0000.png'']"
      and last_frame' = "[''in'', ''s1'', ''rain'', ''0008.png'']"
      and t = "''rainy street'' @ [CHR 0x0A] @ ''Negative prompt: blur''"
      and ?ws1.0 = "\<lparr>nodes = video_nodes, log = [Load [''cfg'', ''rain.yaml''], Pick 2]\<rparr>"
      and job = ?job and ?ws2.0 = ?ws2 and ws' = video_world_after,
      THEN conjunct2, THEN conjunct2, THEN conjunct2, THEN conjunct2, THEN conjunct2,
      THEN conjunct2, THEN conjunct1] v v2
  have "\<exists>content. nodes video_world_after =
               nodes ?ws2 @
               [(b_output_root demo_batch_cfg @
                   [path_name ?s, v_name demo_batch_variant,
                    path_name ?s @ ''_'' @ v_name demo_batch_variant @ ''.mp4''],
                 File content)]"
    by blast
  then have c7: "\<exists>content. nodes video_world_after =
            video_nodes @
            [([''out''], Dir), ([''out'', ''s1''], Dir), ([''out'', ''s1'', ''rain''], Dir),
             ([''out'', ''s1'', ''rain'', ''s1_rain.mp4''], File content)]"
    by (simp add: demo_batch_cfg_def demo_batch_variant_def path_name_def)
  let ?wr = "\<lparr>nodes = pairs_nodes @
         [([''outputimg''], Dir), ([''outputimg'', ''g''], Dir),
          ([''outputimg'', ''g'', ''rain''], Dir),
          ([''outputimg'', ''g'', ''rain'', ''a_rain.png''], File ''PNGA'')],
       log = [Call, Load [''cfg'', ''rain.yaml'']]\<rparr>"
  have f: "process_folder good_env demo_app_cfg ?f Map.empty pairs_world =
             (Inr [[''cfg'', ''rain.yaml''] \<mapsto>
                     \<lparr>positive = ''rainy street'', negative = ''blur''\<rparr>], ?wr) \<and>
      iterdir pairs_world ?f = Inr [?img] \<and> ?img \<in> set [?img] \<and> image_suffix ?img \<and>
      demo_variant \<in> set (app_variants demo_app_cfg)"
    by (simp add: pairs_eval run_eval good_env_fields Let_def)
  from output_layout [where variant = demo_variant and folder = ?f and img_path = ?img
      and E = good_env and app_cfg = demo_app_cfg and prompt_cache = Map.empty
      and wq = pairs_world and wq' = ?wr and entries = "[?img]"
      and prompt_cache' = "[[''cfg'', ''rain.yaml''] \<mapsto>
                     \<lparr>positive = ''rainy street'', negative = ''blur''\<rparr>]",
      THEN conjunct2, THEN conjunct2, THEN conjunct2, THEN conjunct2, THEN conjunct2,
      THEN conjunct2, THEN conjunct2] f h
  have "is_file ?wr
          (OUTPUT_ROOT @
             [path_name ?f, name demo_variant, stem ?img @ ''_'' @ name demo_variant @ ''.png''])"
    by blast
  then have c8: "is_file (snd (process_folder good_env demo_app_cfg ?f Map.empty pairs_world))
       [''outputimg'', ''g'', ''rain'', ''a_rain.png'']"
    using f by (simp add: OUTPUT_ROOT_def demo_variant_def stem_def path_name_def rfind_dot_def)
  show ?thesis using c1 c2 c3 c4 c5 c6 c7 c8 by (intro conjI)
qed

text \<open>
  In the pipeline script the variant directory comes before the group directory: the
  output of \<^verbatim>\<open>g/a.png\<close> for the variant \<^verbatim>\<open>rain\<close> is \<^verbatim>\<open>out/rain/g/a_rain.png\<close>.
\<close>

theorem pipeline_layout_counterexample:
  "out_path demo_cfg demo_variant [''g'', ''a.png''] = [''out'', ''rain'', ''g'', ''a_rain.png'']
   \<and> out_path demo_cfg demo_variant [''g'', ''a.png''] \<noteq> [''out'', ''g'', ''rain'', ''a_rain.png'']"
  by (simp add: out_path_def out_dir_def joinpath_def is_absolute_def path_parts_def
      demo_cfg_def demo_variant_def parent_def stem_def path_name_def rfind_dot_def)

section \<open>A run that raises\<close>

lemma once_env_fields:
  "api_key_env once_env = Some ''key''"
  "yaml_load once_env b = Inr demo_doc"
  "edit once_env k req = (if k = 0 then Inr (''PNG'' @ req_image req)
                          else Inl (ProviderError ''quota''))"
  by (simp_all add: once_env_def good_env_def)

lemma one_job_env_fields:
  "api_key_env one_job_env = Some ''key''"
  "yaml_load one_job_env b = Inr demo_doc"
  "reference_types one_job_env = [''ASSET'', ''STYLE'']"
  "generate_videos one_job_env k req = (if k = 0 then Inr pending else Inl (ProviderError ''503''))"
  "operations_get one_job_env k operation =
     Inr (if k < 2 then operation else finished ''MP4'')"
  by (simp_all add: one_job_env_def good_env_def finished_def)

lemma first_job_run:
  "run_generation one_job_env
     (demo_job\<lparr>prompt := ''rainy street'' @ [CHR 0x0A] @ ''Negative prompt: blur''\<rparr>)
     \<lparr>nodes = three_scene_nodes @
        [([''out''], Dir), ([''out'', ''s1''], Dir), ([''out'', ''s1'', ''rain''], Dir)],
      log = [Load [''cfg'', ''rain.yaml''], Pick 1]\<rparr> =
   Some (Inr [''out'', ''s1'', ''rain'', ''s1_rain.mp4''],
     \<lparr>nodes = three_scene_nodes @
        [([''out''], Dir), ([''out'', ''s1''], Dir), ([''out'', ''s1'', ''rain''], Dir),
         ([''out'', ''s1'', ''rain'', ''s1_rain.mp4''], File ''MP4'')],
      log = [Poll, Sleep 10, Poll, Sleep 10, Poll, Sleep 10, Submit,
             Load [''cfg'', ''rain.yaml''], Pick 1]\<rparr>)"
proof -
  let ?job = "demo_job\<lparr>prompt := ''rainy street'' @ [CHR 0x0A] @ ''Negative prompt: blur''\<rparr>"
  let ?n = "three_scene_nodes @
        [([''out''], Dir), ([''out'', ''s1''], Dir), ([''out'', ''s1'', ''rain''], Dir)]"
  let ?wa = "\<lparr>nodes = ?n, log = [Load [''cfg'', ''rain.yaml''], Pick 1]\<rparr>"
  let ?wb = "\<lparr>nodes = ?n, log = [Submit, Load [''cfg'', ''rain.yaml''], Pick 1]\<rparr>"
  let ?wc = "\<lparr>nodes = ?n, log = [Poll, Sleep 10, Poll, Sleep 10, Poll, Sleep 10, Submit,
                                    Load [''cfg'', ''rain.yaml''], Pick 1]\<rparr>"
  obtain api_key request where p: "prepare_job one_job_env ?job ?wa = Inr (api_key, request)"
    by (simp add: prepare_job_def resolve_api_key_def read_optional_def read_image_bytes_def
        read_bytes_def path_exists_def node_at_def demo_job_def three_scene_nodes_def
        one_job_env_fields)
  have g: "generate_videos one_job_env (nsubmits (log ?wa)) request = Inr pending"
    by (simp add: one_job_env_fields nsubmits_def)
  have i: "poll_interval_seconds ?job = 10" by (simp add: demo_job_def)
  have "poll_loop one_job_env 10 pending ?wb =
      Some (Inr (finished ''MP4''),
            ?wb\<lparr>log := Poll # Sleep 10 # Poll # Sleep 10 # Poll # Sleep 10 # log ?wb\<rparr>)"
    by (rule three_rounds [where ?op1.0 = pending and ?op2.0 = pending])
      (simp_all add: one_job_env_fields pending_def finished_def)
  then have loop: "poll_loop one_job_env 10 pending ?wb = Some (Inr (finished ''MP4''), ?wc)"
    by simp
  have save: "save_result one_job_env ?job api_key (finished ''MP4'') ?wc =
      (Inr [''out'', ''s1'', ''rain'', ''s1_rain.mp4''],
       \<lparr>nodes = ?n @ [([''out'', ''s1'', ''rain'', ''s1_rain.mp4''], File ''MP4'')],
        log = [Poll, Sleep 10, Poll, Sleep 10, Poll, Sleep 10, Submit,
               Load [''cfg'', ''rain.yaml''], Pick 1]\<rparr>)"
    by (simp add: save_result_def finished_def pending_def demo_job_def three_scene_nodes_def
        mkdir_p_def add_dir_def write_bytes_def is_file_def is_dir_def node_at_def
        parent_def prefixes_snoc sbind_def)
  show ?thesis using p g i loop save by (simp add: run_generation_def)
qed

lemma first_scene_step:
  "scene_step one_job_env demo_batch_cfg [''in'', ''s1''] demo_batch_variant three_scene_world =
   Some (Inr (),
     \<lparr>nodes = three_scene_nodes @
        [([''out''], Dir), ([''out'', ''s1''], Dir), ([''out'', ''s1'', ''rain''], Dir),
         ([''out'', ''s1'', ''rain'', ''s1_rain.mp4''], File ''MP4'')],
      log = [Poll, Sleep 10, Poll, Sleep 10, Poll, Sleep 10, Submit,
             Load [''cfg'', ''rain.yaml''], Pick 1]\<rparr>)"
proof -
  have "scene_step one_job_env demo_batch_cfg [''in'', ''s1''] demo_batch_variant
          three_scene_world =
     (case run_generation one_job_env
        (demo_job\<lparr>prompt := ''rainy street'' @ [CHR 0x0A] @ ''Negative prompt: blur''\<rparr>)
        \<lparr>nodes = three_scene_nodes @
           [([''out''], Dir), ([''out'', ''s1''], Dir), ([''out'', ''s1'', ''rain''], Dir)],
         log = [Load [''cfg'', ''rain.yaml''], Pick 1]\<rparr> of
        None \<Rightarrow> None
      | Some (Inl e, w3) \<Rightarrow> Some (Inl e, w3)
      | Some (Inr out, w3) \<Rightarrow> Some (Inr (), w3))"
    by (simp add: batch_eval one_job_env_fields three_scene_world_def
        three_scene_nodes_def demo_job_def Let_def del: run_generation_def)
  then show ?thesis by (simp only: first_job_run) simp
qed

lemma second_scene_step:
  "scene_step one_job_env demo_batch_cfg [''in'', ''s2''] demo_batch_variant
     \<lparr>nodes = three_scene_nodes @
        [([''out''], Dir), ([''out'', ''s1''], Dir), ([''out'', ''s1'', ''rain''], Dir),
         ([''out'', ''s1'', ''rain'', ''s1_rain.mp4''], File ''MP4'')],
      log = [Poll, Sleep 10, Poll, Sleep 10, Poll, Sleep 10, Submit,
             Load [''cfg'', ''rain.yaml''], Pick 1]\<rparr> =
   Some (Inl (ProviderError ''503''),
     \<lparr>nodes = three_scene_nodes @
        [([''out''], Dir), ([''out'', ''s1''], Dir), ([''out'', ''s1'', ''rain''], Dir),
         ([''out'', ''s1'', ''rain'', ''s1_rain.mp4''], File ''MP4''),
         ([''out'', ''s2''], Dir), ([''out'', ''s2'', ''rain''], Dir)],
      log = [Submit, Load [''cfg'', ''rain.yaml''], Pick 1,
             Poll, Sleep 10, Poll, Sleep 10, Poll, Sleep 10, Submit,
             Load [''cfg'', ''rain.yaml''], Pick 1]\<rparr>)"
  by (simp add: batch_eval one_job_env_fields three_scene_nodes_def nsubmits_def Let_def)

lemmas raised_eval = run_eval once_env_fields two_variant_cfg_def fog_variant_def delay_of_def
  once_loaded_def once_first_def once_raised_def rain_template_def ncalls_def

lemmas refused_eval = batch_eval scene_eval one_job_env_fields three_scene_world_def
  three_scene_nodes_def one_job_first_def one_job_raised_def

text \<open>
  C4 (as amended). No loop of the scripts catches the exception of a unit, and what was
  written before the exception stays.

  In the pipeline, when the image \<open>p\<close> raises after the images \<open>ps1\<close> went through, the loop
  over the images returns that exception and the world of the raise, whatever images \<open>ps2\<close>
  remain: these are not processed. In that world every entry of the world before the
  failing unit is kept, of the same kind and with the same content, and the output of
  every image of \<open>ps1\<close> is there. The loop over the variants returns the exception of a
  variant, at the head or after variants \<open>vs1\<close> that went through, whatever variants \<open>vs2\<close>
  remain, and so does the run; a unit whose retry loop raises, raises. In the video batch
  the same holds of the loop over the variants of a scene, of the loop over the scenes and
  of the run. No run removes or changes an entry that was there when it started, whatever
  its result.
\<close>

theorem unit_failure_aborts_run:
  "(images_loop E cfg d v pr ps1 w = (Inr (), w1) \<and> is_file w1 p \<and> image_suffix p \<and>
    process_image E cfg d v pr p w1 = (Inl e, w2) \<longrightarrow>
      images_loop E cfg d v pr (ps1 @ p # ps2) w = (Inl e, w2) \<and> kept w1 w2 \<and>
      (\<forall>p'\<in>set ps1. is_file w p' \<and> image_suffix p' \<and> prefix (input_root cfg) p' \<longrightarrow>
         path_exists w2 (out_path cfg v (drop (length (input_root cfg)) p'))))
   \<and> (get_template E cache (prompt_path v) w = (Inr (t, cache1), w1) \<and>
      images_loop E cfg d v (build_prompt t) (sort (rglob w1 (input_root cfg))) w1 = (Inl e, w2)
      \<longrightarrow> variants_loop E cfg d (v # vs) cache w = (Inl e, w2))
   \<and> (variants_loop E cfg d vs1 cache w = (Inr (), w1) \<and>
      get_template E (cache_after E cfg d vs1 cache w) (prompt_path v) w1
        = (Inr (t, cache1), w2) \<and>
      images_loop E cfg d v (build_prompt t) (sort (rglob w2 (input_root cfg))) w2 = (Inl e, w3)
      \<longrightarrow> variants_loop E cfg d (vs1 @ v # vs2) cache w = (Inl e, w3) \<and> kept w1 w3)
   \<and> (relative_to p (input_root cfg) = Inr rel \<and>
      mkdir_p (out_dir cfg v rel) w = (Inr (), w1) \<and>
      \<not> path_exists w1 (out_path cfg v rel) \<and> read_bytes w1 p = Inr b \<and>
      attempts E
        \<lparr>req_model = model_name cfg, req_prompt = pr, req_image = b,
         req_creativity = creativity v, req_fidelity = fidelity v,
         req_width = output_width cfg, req_height = output_height cfg\<rparr>
        (out_path cfg v rel) d [1..<MAX_RETRIES + 1] w1 = (Inl e, w2) \<longrightarrow>
        process_image E cfg d v pr p w = (Inl e, w2))
   \<and> (scene_loop E bcfg scene bvs1 w = Some (Inr (), w1) \<and>
      scene_step E bcfg scene bv w1 = Some (Inl e, w2) \<longrightarrow>
        scene_loop E bcfg scene (bvs1 @ bv # bvs2) w = Some (Inl e, w2) \<and> kept w1 w2 \<and>
        (\<forall>bv'\<in>set bvs1. has_frames w scene bv' \<longrightarrow>
           path_exists w2 (job_output_path bcfg (path_name scene) bv')))
   \<and> (scenes_loop E bcfg ss1 w = Some (Inr (), w1) \<and>
      process_scene_folder E bcfg scene w1 = Some (Inl e, w2) \<longrightarrow>
        scenes_loop E bcfg (ss1 @ scene # ss2) w = Some (Inl e, w2) \<and> kept w1 w2)
   \<and> (resolve_api_key E (api_key_path cfg) w = Inr k \<and> variants cfg = vs1 @ v # vs2 \<and>
      variants_loop E cfg (delay_of q) vs1 Map.empty w = (Inr (), w1) \<and>
      get_template E (cache_after E cfg (delay_of q) vs1 Map.empty w) (prompt_path v) w1
        = (Inr (t, cache1), w2) \<and>
      sort (rglob w2 (input_root cfg)) = ps1 @ p # ps2 \<and>
      images_loop E cfg (delay_of q) v (build_prompt t) ps1 w2 = (Inr (), w3) \<and>
      is_file w3 p \<and> image_suffix p \<and>
      process_image E cfg (delay_of q) v (build_prompt t) p w3 = (Inl e, w4) \<longrightarrow>
        process_images E cfg q w = (Inl e, w4) \<and> kept w w1 \<and> kept w1 w3 \<and> kept w3 w4 \<and>
        (\<forall>p'\<in>set ps1. is_file w2 p' \<and> image_suffix p' \<longrightarrow>
           path_exists w4 (out_path cfg v (drop (length (input_root cfg)) p'))))
   \<and> (resolve_api_key E (b_api_key_path bcfg) w = Inr k \<and>
      E' = (case api_key_env E of None \<Rightarrow> E\<lparr>api_key_env := Some k\<rparr> | Some k' \<Rightarrow> E) \<and>
      group_folders w (b_input_root bcfg) = Inr (ss1 @ scene # ss2) \<and>
      scenes_loop E' bcfg ss1 w = Some (Inr (), w1) \<and>
      b_variants bcfg = bvs1 @ bv # bvs2 \<and>
      scene_loop E' bcfg scene bvs1 w1 = Some (Inr (), w2) \<and>
      scene_step E' bcfg scene bv w2 = Some (Inl e, w3) \<longrightarrow>
        batch_main E bcfg w = Some (Inl e, w3) \<and> kept w w1 \<and> kept w1 w2 \<and> kept w2 w3 \<and>
        (\<forall>bv'\<in>set bvs1. has_frames w1 scene bv' \<longrightarrow>
           path_exists w3 (job_output_path bcfg (path_name scene) bv')))
   \<and> (process_images E cfg q w = (r, w') \<longrightarrow> kept w w')
   \<and> (batch_main E bcfg w = Some (r, w') \<longrightarrow> kept w w')"
proof (intro conjI impI)
  assume a: "images_loop E cfg d v pr ps1 w = (Inr (), w1) \<and> is_file w1 p \<and> image_suffix p \<and>
    process_image E cfg d v pr p w1 = (Inl e, w2)"
  then show "images_loop E cfg d v pr (ps1 @ p # ps2) w = (Inl e, w2)"
    by (simp add: images_loop_append)
  from a show k: "kept w1 w2" using process_image_kept by blast
  from a have "\<forall>p'\<in>set ps1. is_file w p' \<and> image_suffix p' \<and> prefix (input_root cfg) p' \<longrightarrow>
         path_exists w1 (out_path cfg v (drop (length (input_root cfg)) p'))"
    using images_loop_outputs by blast
  then show "\<forall>p'\<in>set ps1. is_file w p' \<and> image_suffix p' \<and> prefix (input_root cfg) p' \<longrightarrow>
         path_exists w2 (out_path cfg v (drop (length (input_root cfg)) p'))"
    using k kept_path_exists by blast
next
  assume "get_template E cache (prompt_path v) w = (Inr (t, cache1), w1) \<and>
      images_loop E cfg d v (build_prompt t) (sort (rglob w1 (input_root cfg))) w1 = (Inl e, w2)"
  then show "variants_loop E cfg d (v # vs) cache w = (Inl e, w2)"
    by simp
next
  assume a: "variants_loop E cfg d vs1 cache w = (Inr (), w1) \<and>
      get_template E (cache_after E cfg d vs1 cache w) (prompt_path v) w1
        = (Inr (t, cache1), w2) \<and>
      images_loop E cfg d v (build_prompt t) (sort (rglob w2 (input_root cfg))) w2 = (Inl e, w3)"
  then show "variants_loop E cfg d (vs1 @ v # vs2) cache w = (Inl e, w3)"
    by (simp add: variants_loop_append)
  have "kept w1 w2"
    using a get_template_nodes [of E "cache_after E cfg d vs1 cache w" "prompt_path v" w1]
    by (simp add: kept_nodes)
  moreover have "kept w2 w3" using a images_loop_kept by blast
  ultimately show "kept w1 w3" by (rule kept_trans)
next
  assume "relative_to p (input_root cfg) = Inr rel \<and>
      mkdir_p (out_dir cfg v rel) w = (Inr (), w1) \<and>
      \<not> path_exists w1 (out_path cfg v rel) \<and> read_bytes w1 p = Inr b \<and>
      attempts E
        \<lparr>req_model = model_name cfg, req_prompt = pr, req_image = b,
         req_creativity = creativity v, req_fidelity = fidelity v,
         req_width = output_width cfg, req_height = output_height cfg\<rparr>
        (out_path cfg v rel) d [1..<MAX_RETRIES + 1] w1 = (Inl e, w2)"
  then show "process_image E cfg d v pr p w = (Inl e, w2)"
    using process_image_exhausted by blast
next
  assume a: "scene_loop E bcfg scene bvs1 w = Some (Inr (), w1) \<and>
      scene_step E bcfg scene bv w1 = Some (Inl e, w2)"
  then show "scene_loop E bcfg scene (bvs1 @ bv # bvs2) w = Some (Inl e, w2)"
    by (simp add: scene_loop_append)
  from a show k: "kept w1 w2" using scene_step_kept by blast
  from a have "\<forall>bv'\<in>set bvs1. has_frames w scene bv' \<longrightarrow>
           path_exists w1 (job_output_path bcfg (path_name scene) bv')"
    using scene_loop_outputs by blast
  then show "\<forall>bv'\<in>set bvs1. has_frames w scene bv' \<longrightarrow>
           path_exists w2 (job_output_path bcfg (path_name scene) bv')"
    using k kept_path_exists by blast
next
  assume a: "scenes_loop E bcfg ss1 w = Some (Inr (), w1) \<and>
      process_scene_folder E bcfg scene w1 = Some (Inl e, w2)"
  then show "scenes_loop E bcfg (ss1 @ scene # ss2) w = Some (Inl e, w2)"
    by (simp add: scenes_loop_append)
  from a show "kept w1 w2"
    using scene_loop_kept [of E bcfg scene "b_variants bcfg" w1 "Inl e" w2]
    by (simp add: process_scene_folder_def)
next
  assume a: "resolve_api_key E (api_key_path cfg) w = Inr k \<and> variants cfg = vs1 @ v # vs2 \<and>
      variants_loop E cfg (delay_of q) vs1 Map.empty w = (Inr (), w1) \<and>
      get_template E (cache_after E cfg (delay_of q) vs1 Map.empty w) (prompt_path v) w1
        = (Inr (t, cache1), w2) \<and>
      sort (rglob w2 (input_root cfg)) = ps1 @ p # ps2 \<and>
      images_loop E cfg (delay_of q) v (build_prompt t) ps1 w2 = (Inr (), w3) \<and>
      is_file w3 p \<and> image_suffix p \<and>
      process_image E cfg (delay_of q) v (build_prompt t) p w3 = (Inl e, w4)"
  then have il: "images_loop E cfg (delay_of q) v (build_prompt t)
                   (sort (rglob w2 (input_root cfg))) w2 = (Inl e, w4)"
    by (simp add: images_loop_append)
  then have "variants_loop E cfg (delay_of q) (vs1 @ v # vs2) Map.empty w = (Inl e, w4)"
    using a by (simp add: variants_loop_append)
  then show "process_images E cfg q w = (Inl e, w4)"
    using a by (simp add: process_images_def)
  from a show "kept w w1" using variants_loop_kept by blast
  have "kept w1 w2"
    using a get_template_nodes [of E "cache_after E cfg (delay_of q) vs1 Map.empty w"
        "prompt_path v" w1]
    by (simp add: kept_nodes)
  moreover have "kept w2 w3" using a images_loop_kept by blast
  ultimately show "kept w1 w3" by (rule kept_trans)
  from a show k: "kept w3 w4" using process_image_kept by blast
  have sub: "set ps1 \<subseteq> set (rglob w2 (input_root cfg))"
  proof -
    have "set (sort (rglob w2 (input_root cfg))) = set (ps1 @ p # ps2)" using a by simp
    then show ?thesis by auto
  qed
  from a have "\<forall>p'\<in>set ps1. is_file w2 p' \<and> image_suffix p' \<and> prefix (input_root cfg) p' \<longrightarrow>
         path_exists w3 (out_path cfg v (drop (length (input_root cfg)) p'))"
    using images_loop_outputs by blast
  then show "\<forall>p'\<in>set ps1. is_file w2 p' \<and> image_suffix p' \<longrightarrow>
           path_exists w4 (out_path cfg v (drop (length (input_root cfg)) p'))"
    using k kept_path_exists sub rglob_below by (fastforce simp: strict_prefix_def)
next
  assume a: "resolve_api_key E (b_api_key_path bcfg) w = Inr k \<and>
      E' = (case api_key_env E of None \<Rightarrow> E\<lparr>api_key_env := Some k\<rparr> | Some k' \<Rightarrow> E) \<and>
      group_folders w (b_input_root bcfg) = Inr (ss1 @ scene # ss2) \<and>
      scenes_loop E' bcfg ss1 w = Some (Inr (), w1) \<and>
      b_variants bcfg = bvs1 @ bv # bvs2 \<and>
      scene_loop E' bcfg scene bvs1 w1 = Some (Inr (), w2) \<and>
      scene_step E' bcfg scene bv w2 = Some (Inl e, w3)"
  then have key: "resolve_api_key E (b_api_key_path bcfg) w = Inr k"
    and env: "E' = (case api_key_env E of None \<Rightarrow> E\<lparr>api_key_env := Some k\<rparr> | Some k' \<Rightarrow> E)"
    and gf: "group_folders w (b_input_root bcfg) = Inr (ss1 @ scene # ss2)"
    and s1: "scenes_loop E' bcfg ss1 w = Some (Inr (), w1)"
    and bv: "b_variants bcfg = bvs1 @ bv # bvs2"
    and s2: "scene_loop E' bcfg scene bvs1 w1 = Some (Inr (), w2)"
    and s3: "scene_step E' bcfg scene bv w2 = Some (Inl e, w3)"
    by blast+
  have "process_scene_folder E' bcfg scene w1 = Some (Inl e, w3)"
    using bv s2 s3 by (simp add: process_scene_folder_def scene_loop_append)
  then have "scenes_loop E' bcfg (ss1 @ scene # ss2) w = Some (Inl e, w3)"
    using s1 by (simp add: scenes_loop_append)
  then show "batch_main E bcfg w = Some (Inl e, w3)"
    using key gf unfolding env by (simp add: batch_main_def)
  from a show "kept w w1" using scenes_loop_kept by blast
  from a show "kept w1 w2" using scene_loop_kept by blast
  from a show k: "kept w2 w3" using scene_step_kept by blast
  from a have "\<forall>bv'\<in>set bvs1. has_frames w1 scene bv' \<longrightarrow>
           path_exists w2 (job_output_path bcfg (path_name scene) bv')"
    using scene_loop_outputs by blast
  then show "\<forall>bv'\<in>set bvs1. has_frames w1 scene bv' \<longrightarrow>
           path_exists w3 (job_output_path bcfg (path_name scene) bv')"
    using k kept_path_exists by blast
next
  assume "process_images E cfg q w = (r, w')"
  then show "kept w w'" by (rule process_images_kept)
next
  assume "batch_main E bcfg w = Some (r, w')"
  then show "kept w w'" by (rule batch_main_kept)
qed

text \<open>
  The run of the pipeline with two variants and two images: the first image of the first
  variant is written, the three attempts for the second image fail, and the run raises
  with the first output on disk and the second variant not started. The batch over three
  scenes: the video of the first scene is written, the job of the second scene is refused,
  and the batch raises with the first video on disk and the third scene not started.
\<close>

theorem unit_failure_aborts_run_witness:
  "process_image once_env two_variant_cfg (delay_of (1 / 2)) demo_variant (build_prompt rain_template) [''in'', ''g'', ''b.png''] once_first
     = (Inl (ProviderError ''quota''), once_raised)
   \<and> images_loop once_env two_variant_cfg (delay_of (1 / 2)) demo_variant (build_prompt rain_template)
       ([[''in'', ''g''], [''in'', ''g'', ''a.png'']] @ [''in'', ''g'', ''b.png''] # []) once_loaded = (Inl (ProviderError ''quota''), once_raised)
   \<and> variants_loop once_env two_variant_cfg (delay_of (1 / 2)) (demo_variant # [fog_variant]) Map.empty
       demo_world = (Inl (ProviderError ''quota''), once_raised)
   \<and> variants_loop once_env two_variant_cfg (delay_of (1 / 2)) ([] @ demo_variant # [fog_variant]) Map.empty
       demo_world = (Inl (ProviderError ''quota''), once_raised)
   \<and> process_images once_env two_variant_cfg (1 / 2) demo_world = (Inl (ProviderError ''quota''), once_raised)
   \<and> kept demo_world once_raised \<and> kept once_first once_raised
   \<and> path_exists once_raised (out_path two_variant_cfg demo_variant [''g'', ''a.png''])
   \<and> read_bytes once_raised [''out'', ''rain'', ''g'', ''a_rain.png''] = Inr ''PNGA''
   \<and> \<not> path_exists once_raised [''out'', ''rain'', ''g'', ''b_rain.png'']
   \<and> \<not> path_exists once_raised [''out'', ''fog'']
   \<and> scene_loop one_job_env demo_batch_cfg [''in'', ''s2''] ([] @ demo_batch_variant # []) one_job_first
       = Some (Inl (ProviderError ''503''), one_job_raised)
   \<and> scenes_loop one_job_env demo_batch_cfg ([[''in'', ''s1'']] @ [''in'', ''s2''] # [[''in'', ''s3'']]) three_scene_world
       = Some (Inl (ProviderError ''503''), one_job_raised)
   \<and> batch_main one_job_env demo_batch_cfg three_scene_world = Some (Inl (ProviderError ''503''), one_job_raised)
   \<and> kept three_scene_world one_job_raised \<and> kept one_job_first one_job_raised
   \<and> read_bytes one_job_raised [''out'', ''s1'', ''rain'', ''s1_rain.mp4''] = Inr ''MP4''
   \<and> is_dir one_job_raised [''in'', ''s3''] \<and> \<not> path_exists one_job_raised [''out'', ''s3'']"
proof -
  have rel: "relative_to [''in'', ''g'', ''b.png''] (input_root two_variant_cfg) = Inr [''g'', ''b.png'']"
    by (simp add: raised_eval)
  have mk: "mkdir_p (out_dir two_variant_cfg demo_variant [''g'', ''b.png'']) once_first
              = (Inr (), once_first)"
    by (simp add: raised_eval)
  have fresh: "\<not> path_exists once_first (out_path two_variant_cfg demo_variant [''g'', ''b.png''])"
    by (simp add: raised_eval)
  have rd: "read_bytes once_first [''in'', ''g'', ''b.png''] = Inr ''B''"
    by (simp add: raised_eval)
  have att: "attempts once_env
        \<lparr>req_model = model_name two_variant_cfg, req_prompt = build_prompt rain_template,
         req_image = ''B'', req_creativity = creativity demo_variant,
         req_fidelity = fidelity demo_variant, req_width = output_width two_variant_cfg,
         req_height = output_height two_variant_cfg\<rparr>
        (out_path two_variant_cfg demo_variant [''g'', ''b.png'']) (delay_of (1 / 2)) [1..<MAX_RETRIES + 1]
        once_first = (Inl (ProviderError ''quota''), once_raised)"
    by (simp add: raised_eval)
  have unit: "process_image once_env two_variant_cfg (delay_of (1 / 2)) demo_variant (build_prompt rain_template) [''in'', ''g'', ''b.png''] once_first
                = (Inl (ProviderError ''quota''), once_raised)"
    using unit_failure_aborts_run [where E = "once_env" and cfg = "two_variant_cfg"
        and d = "delay_of (1 / 2)" and v = "demo_variant" and pr = "build_prompt rain_template"
        and p = "[''in'', ''g'', ''b.png'']" and rel = "[''g'', ''b.png'']" and w = "once_first"
        and ?w1.0 = "once_first" and b = "''B''" and e = "ProviderError ''quota''"
        and ?w2.0 = "once_raised",
      THEN conjunct2, THEN conjunct2, THEN conjunct2, THEN conjunct1] rel mk fresh rd att
    by blast
  have il: "images_loop once_env two_variant_cfg (delay_of (1 / 2)) demo_variant (build_prompt rain_template) [[''in'', ''g''], [''in'', ''g'', ''a.png'']] once_loaded
              = (Inr (), once_first)"
    by (simp add: raised_eval)
  have isf: "is_file once_first [''in'', ''g'', ''b.png'']" "image_suffix [''in'', ''g'', ''b.png'']"
    by (simp_all add: raised_eval)
  have images: "images_loop once_env two_variant_cfg (delay_of (1 / 2)) demo_variant (build_prompt rain_template)
                  ([[''in'', ''g''], [''in'', ''g'', ''a.png'']] @ [''in'', ''g'', ''b.png''] # []) once_loaded = (Inl (ProviderError ''quota''), once_raised)
      \<and> kept once_first once_raised
      \<and> (\<forall>p'\<in>set [[''in'', ''g''], [''in'', ''g'', ''a.png'']]. is_file once_loaded p' \<and> image_suffix p' \<and>
             prefix (input_root two_variant_cfg) p' \<longrightarrow>
           path_exists once_raised
             (out_path two_variant_cfg demo_variant
                (drop (length (input_root two_variant_cfg)) p')))"
    using unit_failure_aborts_run [where E = "once_env" and cfg = "two_variant_cfg"
        and d = "delay_of (1 / 2)" and v = "demo_variant" and pr = "build_prompt rain_template"
        and ?ps1.0 = "[[''in'', ''g''], [''in'', ''g'', ''a.png'']]" and w = "once_loaded"
        and ?w1.0 = "once_first" and p = "[''in'', ''g'', ''b.png'']"
        and e = "ProviderError ''quota''" and ?w2.0 = "once_raised" and ?ps2.0 = "[]",
      THEN conjunct1] il isf unit
    by blast
  have first_input: "is_file once_loaded [''in'', ''g'', ''a.png'']" "image_suffix [''in'', ''g'', ''a.png'']"
      "prefix (input_root two_variant_cfg) [''in'', ''g'', ''a.png'']"
      "drop (length (input_root two_variant_cfg)) [''in'', ''g'', ''a.png''] = [''g'', ''a.png'']"
    by (simp_all add: raised_eval)
  have first_output:
    "path_exists once_raised (out_path two_variant_cfg demo_variant [''g'', ''a.png''])"
    using images [THEN conjunct2, THEN conjunct2, THEN bspec, of "[''in'', ''g'', ''a.png'']"] first_input by simp
  have srt: "sort (rglob once_loaded (input_root two_variant_cfg)) = [[''in'', ''g''], [''in'', ''g'', ''a.png'']] @ [''in'', ''g'', ''b.png''] # []"
    by (simp add: raised_eval)
  have gt: "get_template once_env Map.empty (prompt_path demo_variant) demo_world
              = (Inr (rain_template, [[''cfg'', ''rain.yaml''] \<mapsto> rain_template]), once_loaded)"
    by (simp add: raised_eval)
  have all_images: "images_loop once_env two_variant_cfg (delay_of (1 / 2)) demo_variant (build_prompt rain_template)
      (sort (rglob once_loaded (input_root two_variant_cfg))) once_loaded
        = (Inl (ProviderError ''quota''), once_raised)"
    using images srt by simp
  have head_variant: "variants_loop once_env two_variant_cfg (delay_of (1 / 2)) (demo_variant # [fog_variant])
       Map.empty demo_world = (Inl (ProviderError ''quota''), once_raised)"
    using unit_failure_aborts_run [where E = "once_env" and cfg = "two_variant_cfg"
        and d = "delay_of (1 / 2)" and v = "demo_variant" and cache = "Map.empty"
        and w = "demo_world" and t = "rain_template"
        and ?cache1.0 = "[[''cfg'', ''rain.yaml''] \<mapsto> rain_template]"
        and ?w1.0 = "once_loaded" and e = "ProviderError ''quota''" and ?w2.0 = "once_raised"
        and vs = "[fog_variant]",
      THEN conjunct2, THEN conjunct1] gt all_images
    by blast
  have none: "variants_loop once_env two_variant_cfg (delay_of (1 / 2)) [] Map.empty demo_world
                = (Inr (), demo_world)"
    by simp
  have gt': "get_template once_env (cache_after once_env two_variant_cfg (delay_of (1 / 2)) [] Map.empty demo_world)
               (prompt_path demo_variant) demo_world
              = (Inr (rain_template, [[''cfg'', ''rain.yaml''] \<mapsto> rain_template]), once_loaded)"
    using gt by simp
  have later_variant: "variants_loop once_env two_variant_cfg (delay_of (1 / 2))
       ([] @ demo_variant # [fog_variant]) Map.empty demo_world = (Inl (ProviderError ''quota''), once_raised)
       \<and> kept demo_world once_raised"
    using unit_failure_aborts_run [where E = "once_env" and cfg = "two_variant_cfg"
        and d = "delay_of (1 / 2)" and v = "demo_variant" and cache = "Map.empty"
        and ?vs1.0 = "[]" and w = "demo_world" and ?w1.0 = "demo_world" and t = "rain_template"
        and ?cache1.0 = "[[''cfg'', ''rain.yaml''] \<mapsto> rain_template]"
        and ?w2.0 = "once_loaded" and e = "ProviderError ''quota''" and ?w3.0 = "once_raised"
        and ?vs2.0 = "[fog_variant]",
      THEN conjunct2, THEN conjunct2, THEN conjunct1] none gt' all_images
    by blast
  have key: "resolve_api_key once_env (api_key_path two_variant_cfg) demo_world = Inr ''key''"
    by (simp add: raised_eval)
  have vs: "variants two_variant_cfg = [] @ demo_variant # [fog_variant]"
    by (simp add: two_variant_cfg_def)
  have run: "process_images once_env two_variant_cfg (1 / 2) demo_world
      = (Inl (ProviderError ''quota''), once_raised)"
    using unit_failure_aborts_run [where E = "once_env" and cfg = "two_variant_cfg"
        and q = "1 / 2" and w = "demo_world" and k = "''key''" and ?vs1.0 = "[]"
        and v = "demo_variant" and ?vs2.0 = "[fog_variant]" and ?w1.0 = "demo_world"
        and t = "rain_template"
        and ?cache1.0 = "[[''cfg'', ''rain.yaml''] \<mapsto> rain_template]"
        and ?w2.0 = "once_loaded" and ?ps1.0 = "[[''in'', ''g''], [''in'', ''g'', ''a.png'']]"
        and p = "[''in'', ''g'', ''b.png'']" and ?ps2.0 = "[]" and ?w3.0 = "once_first"
        and e = "ProviderError ''quota''" and ?w4.0 = "once_raised",
      THEN conjunct2, THEN conjunct2, THEN conjunct2, THEN conjunct2, THEN conjunct2, THEN conjunct2, THEN conjunct1] key vs none gt' srt il isf unit
    by blast
  have run_kept: "kept demo_world once_raised"
    using unit_failure_aborts_run [where E = "once_env" and cfg = "two_variant_cfg"
        and q = "1 / 2" and w = "demo_world" and r = "Inl (ProviderError ''quota'')"
        and w' = "once_raised",
      THEN conjunct2, THEN conjunct2, THEN conjunct2, THEN conjunct2, THEN conjunct2, THEN conjunct2, THEN conjunct2, THEN conjunct2, THEN conjunct1] run
    by blast
  have disk: "read_bytes once_raised [''out'', ''rain'', ''g'', ''a_rain.png''] = Inr ''PNGA''"
      "\<not> path_exists once_raised [''out'', ''rain'', ''g'', ''b_rain.png'']"
      "\<not> path_exists once_raised [''out'', ''fog'']"
    by (simp_all add: raised_eval)
  have no_variant: "scene_loop one_job_env demo_batch_cfg [''in'', ''s2''] [] one_job_first
                      = Some (Inr (), one_job_first)"
    by simp
  have refused: "scene_step one_job_env demo_batch_cfg [''in'', ''s2''] demo_batch_variant one_job_first
                   = Some (Inl (ProviderError ''503''), one_job_raised)"
    unfolding one_job_first_def one_job_raised_def by (rule second_scene_step)
  have scene: "scene_loop one_job_env demo_batch_cfg [''in'', ''s2''] ([] @ demo_batch_variant # [])
                 one_job_first = Some (Inl (ProviderError ''503''), one_job_raised)
      \<and> kept one_job_first one_job_raised"
    using unit_failure_aborts_run [where E = "one_job_env" and bcfg = "demo_batch_cfg"
        and scene = "[''in'', ''s2'']" and ?bvs1.0 = "[]" and w = "one_job_first"
        and ?w1.0 = "one_job_first" and bv = "demo_batch_variant"
        and e = "ProviderError ''503''" and ?w2.0 = "one_job_raised" and ?bvs2.0 = "[]",
      THEN conjunct2, THEN conjunct2, THEN conjunct2, THEN conjunct2, THEN conjunct1] no_variant refused
    by blast
  have bvs: "b_variants demo_batch_cfg = [] @ demo_batch_variant # []"
    by (simp add: demo_batch_cfg_def)
  have folder: "process_scene_folder one_job_env demo_batch_cfg [''in'', ''s2''] one_job_first
                  = Some (Inl (ProviderError ''503''), one_job_raised)"
    using scene bvs by (simp add: process_scene_folder_def)
  have first: "scenes_loop one_job_env demo_batch_cfg [[''in'', ''s1'']] three_scene_world
                 = Some (Inr (), one_job_first)"
    using first_scene_step
    by (simp add: process_scene_folder_def demo_batch_cfg_def one_job_first_def)
  have scenes: "scenes_loop one_job_env demo_batch_cfg ([[''in'', ''s1'']] @ [''in'', ''s2''] # [[''in'', ''s3'']]) three_scene_world
                  = Some (Inl (ProviderError ''503''), one_job_raised)"
    using unit_failure_aborts_run [where E = "one_job_env" and bcfg = "demo_batch_cfg"
        and ?ss1.0 = "[[''in'', ''s1'']]" and w = "three_scene_world"
        and ?w1.0 = "one_job_first" and scene = "[''in'', ''s2'']"
        and e = "ProviderError ''503''" and ?w2.0 = "one_job_raised"
        and ?ss2.0 = "[[''in'', ''s3'']]",
      THEN conjunct2, THEN conjunct2, THEN conjunct2, THEN conjunct2, THEN conjunct2, THEN conjunct1] first folder
    by blast
  have bkey: "resolve_api_key one_job_env (b_api_key_path demo_batch_cfg) three_scene_world
                = Inr ''key''"
    by (simp add: refused_eval)
  have env: "one_job_env = (case api_key_env one_job_env of
                              None \<Rightarrow> one_job_env\<lparr>api_key_env := Some ''key''\<rparr>
                            | Some k' \<Rightarrow> one_job_env)"
    by (simp add: one_job_env_fields)
  have gf: "group_folders three_scene_world (b_input_root demo_batch_cfg)
              = Inr ([[''in'', ''s1'']] @ [''in'', ''s2''] # [[''in'', ''s3'']])"
    by (simp add: refused_eval)
  have batch: "batch_main one_job_env demo_batch_cfg three_scene_world
                 = Some (Inl (ProviderError ''503''), one_job_raised)"
    using unit_failure_aborts_run [where E = "one_job_env" and bcfg = "demo_batch_cfg"
        and w = "three_scene_world" and k = "''key''" and E' = "one_job_env"
        and ?ss1.0 = "[[''in'', ''s1'']]" and scene = "[''in'', ''s2'']"
        and ?ss2.0 = "[[''in'', ''s3'']]" and ?w1.0 = "one_job_first" and ?bvs1.0 = "[]"
        and bv = "demo_batch_variant" and ?bvs2.0 = "[]" and ?w2.0 = "one_job_first"
        and e = "ProviderError ''503''" and ?w3.0 = "one_job_raised",
      THEN conjunct2, THEN conjunct2, THEN conjunct2, THEN conjunct2, THEN conjunct2, THEN conjunct2, THEN conjunct2, THEN conjunct1] bkey env gf first bvs no_variant refused
    by blast
  have batch_kept: "kept three_scene_world one_job_raised"
    using unit_failure_aborts_run [where E = "one_job_env" and bcfg = "demo_batch_cfg"
        and w = "three_scene_world" and r = "Inl (ProviderError ''503'')"
        and w' = "one_job_raised",
      THEN conjunct2, THEN conjunct2, THEN conjunct2, THEN conjunct2, THEN conjunct2, THEN conjunct2, THEN conjunct2, THEN conjunct2, THEN conjunct2] batch
    by blast
  have bdisk: "read_bytes one_job_raised [''out'', ''s1'', ''rain'', ''s1_rain.mp4''] = Inr ''MP4''"
      "is_dir one_job_raised [''in'', ''s3'']" "\<not> path_exists one_job_raised [''out'', ''s3'']"
    by (simp_all add: refused_eval read_bytes_def path_exists_def is_dir_def node_at_def)
  show ?thesis
    using unit images head_variant later_variant run run_kept first_output disk
      scene scenes batch batch_kept bdisk
    by blast
qed

text \<open>
  Two images and a provider that fails every request: the run raises after the three
  attempts for the first image; the second image is not attempted and no failure is
  recorded.
\<close>

theorem failed_unit_counterexample:
  "process_images failing_env demo_cfg (1 / 2) demo_world =
     (Inl (ProviderError ''quota''),
      \<lparr>nodes = demo_nodes @
         [([''out''], Dir), ([''out'', ''rain''], Dir), ([''out'', ''rain'', ''g''], Dir)],
       log = [Call, Sleep 4, Call, Sleep 2, Call, Load [''cfg'', ''rain.yaml'']]\<rparr>)"
  using demo_run_failing [of "1 / 2"] by (simp add: delay_of_def)

section \<open>The retry loop\<close>

text \<open>
  The log of a retry loop that made \<open>n\<close> retries, newest event first: the first call,
  then for each retry \<open>i\<close> the sleep of \<open>d * i\<close> and the call.
\<close>

lemma retries_0: "concat (map (\<lambda>i. [Sleep (d * real i), Call]) (rev [1..<0 + 1])) = []"
  by simp

lemma retries_1:
  "concat (map (\<lambda>i. [Sleep (d * real i), Call]) (rev [1..<1 + 1])) = [Sleep (d * 1), Call]"
  by simp

lemma retries_2:
  "concat (map (\<lambda>i. [Sleep (d * real i), Call]) (rev [1..<2 + 1])) =
     [Sleep (d * 2), Call, Sleep (d * 1), Call]"
  by (simp add: upt_rec)

lemma attempts_succeed:
  assumes "edit E (ncalls (log w)) req = Inr b"
    and "\<not> is_dir w out" and "is_dir w (parent out)"
  shows "attempts E req out d [1..<MAX_RETRIES + 1] w =
           (Inr (), w\<lparr>log := Call # log w, nodes := AList.update out (File b) (nodes w)\<rparr>)"
  unfolding retry_range using try_block_succeeds [OF assms] by simp

lemma attempts_fail_succeed:
  assumes "edit E (ncalls (log w)) req = Inl e1"
    and "edit E (ncalls (log w) + 1) req = Inr b"
    and "\<not> is_dir w out" and "is_dir w (parent out)" and "0 \<le> d"
  shows "attempts E req out d [1..<MAX_RETRIES + 1] w =
           (Inr (), w\<lparr>log := Call # Sleep (d * 1) # Call # log w,
                        nodes := AList.update out (File b) (nodes w)\<rparr>)"
proof -
  let ?w1 = "w\<lparr>log := Call # log w\<rparr>"
  let ?w2 = "w\<lparr>log := Sleep d # Call # log w\<rparr>"
  have 1: "sbind (call_gemini_edit E req w) (write_bytes out) = (Inl e1, ?w1)"
    using assms(1) by (rule try_block_fails)
  have 2: "sbind (call_gemini_edit E req ?w2) (write_bytes out) =
             (Inr (), w\<lparr>log := Call # Sleep d # Call # log w,
                        nodes := AList.update out (File b) (nodes w)\<rparr>)"
    using try_block_succeeds [of E ?w2 req b out] assms(2,3,4) by simp
  show ?thesis
    unfolding retry_range using assms(5) by (simp add: 1 2 MAX_RETRIES_def sleep_def)
qed

lemma attempts_first_success:
  assumes "n < MAX_RETRIES"
    and "\<forall>i<n. isl (edit E (ncalls (log w) + i) req)"
    and "edit E (ncalls (log w) + n) req = Inr b"
    and "\<not> is_dir w out" and "is_dir w (parent out)" and "0 \<le> d"
  shows "attempts E req out d [1..<MAX_RETRIES + 1] w =
           (Inr (), w\<lparr>log := Call # concat (map (\<lambda>i. [Sleep (d * real i), Call])
                                              (rev [1..<n + 1])) @ log w,
                        nodes := AList.update out (File b) (nodes w)\<rparr>)"
proof -
  consider "n = 0" | "n = 1" | "n = 2"
    using assms(1) unfolding MAX_RETRIES_def by linarith
  then show ?thesis
  proof cases
    case 1
    then show ?thesis
      using attempts_succeed [of E w req b out d] assms(3,4,5) by simp
  next
    case 2
    have "isl (edit E (ncalls (log w) + 0) req)"
      using assms(2) [rule_format, of 0] 2 by simp
    then obtain e1 where "edit E (ncalls (log w)) req = Inl e1"
      by (cases "edit E (ncalls (log w)) req") auto
    then show ?thesis
      using attempts_fail_succeed [of E w req e1 b out d] assms(3-6) 2 by simp
  next
    case 3
    have "isl (edit E (ncalls (log w) + 0) req)" "isl (edit E (ncalls (log w) + 1) req)"
      using assms(2) [rule_format, of 0] assms(2) [rule_format, of 1] 3 by simp_all
    then obtain e1 e2 where "edit E (ncalls (log w)) req = Inl e1"
      "edit E (ncalls (log w) + 1) req = Inl e2"
      by (cases "edit E (ncalls (log w)) req"; cases "edit E (ncalls (log w) + 1) req") auto
    then show ?thesis
      using attempts_fail_fail_succeed [of E w req e1 e2 b out d] assms(3-6) 3
      by (simp add: upt_rec)
  qed
qed

lemma ncalls_retries:
  "ncalls (Call # concat (map (\<lambda>i. [Sleep (d * real i), Call]) ns) @ l)
     = ncalls l + length ns + 1"
  by (induction ns) (simp_all add: ncalls_def)

lemma process_image_retried:
  assumes "relative_to p (input_root cfg) = Inr rel"
    and "mkdir_p (out_dir cfg v rel) w = (Inr (), w1)"
    and "\<not> path_exists w1 (out_path cfg v rel)"
    and "read_bytes w1 p = Inr img"
    and "attempts E
            \<lparr>req_model = model_name cfg, req_prompt = pr, req_image = img,
               req_creativity = creativity v, req_fidelity = fidelity v,
               req_width = output_width cfg, req_height = output_height cfg\<rparr>
            (out_path cfg v rel) d [1..<MAX_RETRIES + 1] w1 = (Inr (), w2)"
    and "0 \<le> d"
  shows "process_image E cfg d v pr p w = (Inr (), w2\<lparr>log := Sleep d # log w2\<rparr>)"
  using assms by (simp add: process_image_def sleep_def)

text \<open>
  C1 (as amended). With \<open>baseDelay = 1 / max(rateLimitQps, 1e-6)\<close> and \<open>MAX_RETRIES = 3\<close>.

  The general rule: when the first \<open>n < MAX_RETRIES\<close> provider calls of a unit fail and the
  next one succeeds, the retry loop makes exactly \<open>n + 1\<close> calls, sleeps \<open>baseDelay * i\<close>
  before the \<open>i\<close>-th retry (\<open>i = 1, ..., n\<close>), writes the result of the successful call to
  the output file and stops there; in the log, newest event first, that is the call that
  succeeded, then for \<open>i = n, ..., 1\<close> the sleep of \<open>baseDelay * i\<close> and the call before it.
  So a call that succeeds at once is made once, without any sleep; a call that fails once
  is retried once after \<open>baseDelay * 1\<close>; a call that fails twice and succeeds on the third
  attempt ends the loop normally after exactly three calls, with sleeps of \<open>baseDelay * 1\<close>
  and \<open>baseDelay * 2\<close>, and the result is in the output file. A call that fails three times
  raises the third failure after exactly three calls and two sleeps; in no case does the
  loop make more than three calls. The unit of the pipeline, whose output file does not
  exist yet, returns what its retry loop returns: after a success it sleeps \<open>baseDelay\<close>
  once more, and after three failures it raises the third.
\<close>

theorem retry_executor:
  "(edit E (ncalls (log w)) req = Inl e1 \<and> edit E (ncalls (log w) + 1) req = Inl e2 \<and>
    edit E (ncalls (log w) + 2) req = Inr b \<and> \<not> is_dir w out \<and> is_dir w (parent out) \<longrightarrow>
      attempts E req out (delay_of q) [1..<MAX_RETRIES + 1] w =
        (Inr (), w\<lparr>log := Call # Sleep (delay_of q * 2) # Call # Sleep (delay_of q * 1) #
                             Call # log w,
                     nodes := AList.update out (File b) (nodes w)\<rparr>) \<and>
      read_bytes (snd (attempts E req out (delay_of q) [1..<MAX_RETRIES + 1] w)) out = Inr b)
   \<and> (edit E (ncalls (log w)) req = Inl e1 \<and> edit E (ncalls (log w) + 1) req = Inl e2 \<and>
      edit E (ncalls (log w) + 2) req = Inl e3 \<longrightarrow>
        attempts E req out (delay_of q) [1..<MAX_RETRIES + 1] w =
          (Inl e3, w\<lparr>log := Call # Sleep (delay_of q * 2) # Call # Sleep (delay_of q * 1) #
                               Call # log w\<rparr>))
   \<and> ncalls (log (snd (attempts E req out (delay_of q) [1..<MAX_RETRIES + 1] w)))
        \<le> ncalls (log w) + 3
   \<and> MAX_RETRIES = 3
   \<and> delay_of q = 1 / max q (1 / 10 ^ 6)
   \<and> (n < MAX_RETRIES \<and> (\<forall>i<n. isl (edit E (ncalls (log w) + i) req)) \<and>
      edit E (ncalls (log w) + n) req = Inr b \<and> \<not> is_dir w out \<and> is_dir w (parent out) \<longrightarrow>
        attempts E req out (delay_of q) [1..<MAX_RETRIES + 1] w =
          (Inr (), w\<lparr>log := Call # concat (map (\<lambda>i. [Sleep (delay_of q * real i), Call])
                                             (rev [1..<n + 1])) @ log w,
                       nodes := AList.update out (File b) (nodes w)\<rparr>) \<and>
        ncalls (log (snd (attempts E req out (delay_of q) [1..<MAX_RETRIES + 1] w)))
          = ncalls (log w) + n + 1 \<and>
        read_bytes (snd (attempts E req out (delay_of q) [1..<MAX_RETRIES + 1] w)) out = Inr b)
   \<and> (edit E (ncalls (log w)) req = Inr b \<and> \<not> is_dir w out \<and> is_dir w (parent out) \<longrightarrow>
        attempts E req out (delay_of q) [1..<MAX_RETRIES + 1] w =
          (Inr (), w\<lparr>log := Call # log w, nodes := AList.update out (File b) (nodes w)\<rparr>))
   \<and> (edit E (ncalls (log w)) req = Inl e1 \<and> edit E (ncalls (log w) + 1) req = Inr b \<and>
      \<not> is_dir w out \<and> is_dir w (parent out) \<longrightarrow>
        attempts E req out (delay_of q) [1..<MAX_RETRIES + 1] w =
          (Inr (), w\<lparr>log := Call # Sleep (delay_of q * 1) # Call # log w,
                       nodes := AList.update out (File b) (nodes w)\<rparr>))
   \<and> (relative_to p (input_root cfg) = Inr rel \<and>
      mkdir_p (out_dir cfg v rel) w = (Inr (), w1) \<and>
      \<not> path_exists w1 (out_path cfg v rel) \<and> is_dir w1 (parent (out_path cfg v rel)) \<and>
      read_bytes w1 p = Inr img \<and> n < MAX_RETRIES \<and>
      (\<forall>i<n. isl (edit E (ncalls (log w1) + i)
            \<lparr>req_model = model_name cfg, req_prompt = pr, req_image = img,
               req_creativity = creativity v, req_fidelity = fidelity v,
               req_width = output_width cfg, req_height = output_height cfg\<rparr>)) \<and>
      edit E (ncalls (log w1) + n)
            \<lparr>req_model = model_name cfg, req_prompt = pr, req_image = img,
               req_creativity = creativity v, req_fidelity = fidelity v,
               req_width = output_width cfg, req_height = output_height cfg\<rparr> = Inr b \<longrightarrow>
        process_image E cfg (delay_of q) v pr p w =
          (Inr (), w1\<lparr>log := Sleep (delay_of q) # Call #
                               concat (map (\<lambda>i. [Sleep (delay_of q * real i), Call])
                                         (rev [1..<n + 1])) @ log w1,
                        nodes := AList.update (out_path cfg v rel) (File b) (nodes w1)\<rparr>))
   \<and> (relative_to p (input_root cfg) = Inr rel \<and>
      mkdir_p (out_dir cfg v rel) w = (Inr (), w1) \<and>
      \<not> path_exists w1 (out_path cfg v rel) \<and> read_bytes w1 p = Inr img \<and>
      edit E (ncalls (log w1))
            \<lparr>req_model = model_name cfg, req_prompt = pr, req_image = img,
               req_creativity = creativity v, req_fidelity = fidelity v,
               req_width = output_width cfg, req_height = output_height cfg\<rparr> = Inl e1 \<and>
      edit E (ncalls (log w1) + 1)
            \<lparr>req_model = model_name cfg, req_prompt = pr, req_image = img,
               req_creativity = creativity v, req_fidelity = fidelity v,
               req_width = output_width cfg, req_height = output_height cfg\<rparr> = Inl e2 \<and>
      edit E (ncalls (log w1) + 2)
            \<lparr>req_model = model_name cfg, req_prompt = pr, req_image = img,
               req_creativity = creativity v, req_fidelity = fidelity v,
               req_width = output_width cfg, req_height = output_height cfg\<rparr> = Inl e3 \<longrightarrow>
        process_image E cfg (delay_of q) v pr p w =
          (Inl e3, w1\<lparr>log := Call # Sleep (delay_of q * 2) # Call # Sleep (delay_of q * 1) #
                                Call # log w1\<rparr>))"
proof (intro conjI impI)
  have d: "0 \<le> delay_of q" using delay_of_pos [of q] by simp
  {
    assume a: "edit E (ncalls (log w)) req = Inl e1 \<and> edit E (ncalls (log w) + 1) req = Inl e2 \<and>
      edit E (ncalls (log w) + 2) req = Inr b \<and> \<not> is_dir w out \<and> is_dir w (parent out)"
    then show r: "attempts E req out (delay_of q) [1..<MAX_RETRIES + 1] w =
        (Inr (), w\<lparr>log := Call # Sleep (delay_of q * 2) # Call # Sleep (delay_of q * 1) #
                             Call # log w,
                     nodes := AList.update out (File b) (nodes w)\<rparr>)"
      using attempts_fail_fail_succeed [of E w req e1 e2 b out "delay_of q"] d by blast
    show "read_bytes (snd (attempts E req out (delay_of q) [1..<MAX_RETRIES + 1] w)) out = Inr b"
      unfolding r using a by (simp add: written_file)
  }
  {
    assume "edit E (ncalls (log w)) req = Inl e1 \<and> edit E (ncalls (log w) + 1) req = Inl e2 \<and>
      edit E (ncalls (log w) + 2) req = Inl e3"
    then show "attempts E req out (delay_of q) [1..<MAX_RETRIES + 1] w =
          (Inl e3, w\<lparr>log := Call # Sleep (delay_of q * 2) # Call # Sleep (delay_of q * 1) #
                               Call # log w\<rparr>)"
      using attempts_all_fail [of E w req e1 e2 e3 "delay_of q" out] d by blast
  }
  show "ncalls (log (snd (attempts E req out (delay_of q) [1..<MAX_RETRIES + 1] w)))
        \<le> ncalls (log w) + 3"
    using attempts_calls_le [of E req out "delay_of q" "[1..<MAX_RETRIES + 1]" w]
    by (simp add: MAX_RETRIES_def)
  show "MAX_RETRIES = 3" by (simp add: MAX_RETRIES_def)
  show "delay_of q = 1 / max q (1 / 10 ^ 6)" by (simp add: delay_of_def)
  {
    assume a: "n < MAX_RETRIES \<and> (\<forall>i<n. isl (edit E (ncalls (log w) + i) req)) \<and>
      edit E (ncalls (log w) + n) req = Inr b \<and> \<not> is_dir w out \<and> is_dir w (parent out)"
    then show r: "attempts E req out (delay_of q) [1..<MAX_RETRIES + 1] w =
          (Inr (), w\<lparr>log := Call # concat (map (\<lambda>i. [Sleep (delay_of q * real i), Call])
                                             (rev [1..<n + 1])) @ log w,
                       nodes := AList.update out (File b) (nodes w)\<rparr>)"
      using attempts_first_success [of n E w req b out "delay_of q"] d by blast
    have "ncalls (Call # concat (map (\<lambda>i. [Sleep (delay_of q * real i), Call])
                                    (rev [1..<n + 1])) @ log w)
            = ncalls (log w) + length (rev [1..<n + 1]) + 1"
      by (rule ncalls_retries)
    then show "ncalls (log (snd (attempts E req out (delay_of q) [1..<MAX_RETRIES + 1] w)))
          = ncalls (log w) + n + 1"
      unfolding r by simp
    show "read_bytes (snd (attempts E req out (delay_of q) [1..<MAX_RETRIES + 1] w)) out = Inr b"
      unfolding r using a by (simp add: written_file)
  }
  {
    assume "edit E (ncalls (log w)) req = Inr b \<and> \<not> is_dir w out \<and> is_dir w (parent out)"
    then show "attempts E req out (delay_of q) [1..<MAX_RETRIES + 1] w =
          (Inr (), w\<lparr>log := Call # log w, nodes := AList.update out (File b) (nodes w)\<rparr>)"
      using attempts_succeed [of E w req b out "delay_of q"] by blast
  }
  {
    assume "edit E (ncalls (log w)) req = Inl e1 \<and> edit E (ncalls (log w) + 1) req = Inr b \<and>
      \<not> is_dir w out \<and> is_dir w (parent out)"
    then show "attempts E req out (delay_of q) [1..<MAX_RETRIES + 1] w =
          (Inr (), w\<lparr>log := Call # Sleep (delay_of q * 1) # Call # log w,
                       nodes := AList.update out (File b) (nodes w)\<rparr>)"
      using attempts_fail_succeed [of E w req e1 b out "delay_of q"] d by blast
  }
  {
    let ?req = "\<lparr>req_model = model_name cfg, req_prompt = pr, req_image = img,
               req_creativity = creativity v, req_fidelity = fidelity v,
               req_width = output_width cfg, req_height = output_height cfg\<rparr>"
    assume a: "relative_to p (input_root cfg) = Inr rel \<and>
      mkdir_p (out_dir cfg v rel) w = (Inr (), w1) \<and>
      \<not> path_exists w1 (out_path cfg v rel) \<and> is_dir w1 (parent (out_path cfg v rel)) \<and>
      read_bytes w1 p = Inr img \<and> n < MAX_RETRIES \<and>
      (\<forall>i<n. isl (edit E (ncalls (log w1) + i) ?req)) \<and>
      edit E (ncalls (log w1) + n) ?req = Inr b"
    then have nd: "\<not> is_dir w1 (out_path cfg v rel)"
      by (auto simp: path_exists_def is_dir_def)
    have "attempts E ?req (out_path cfg v rel) (delay_of q) [1..<MAX_RETRIES + 1] w1 =
          (Inr (), w1\<lparr>log := Call # concat (map (\<lambda>i. [Sleep (delay_of q * real i), Call])
                                             (rev [1..<n + 1])) @ log w1,
                       nodes := AList.update (out_path cfg v rel) (File b) (nodes w1)\<rparr>)"
      using attempts_first_success [of n E w1 ?req b "out_path cfg v rel" "delay_of q"] a nd d
      by blast
    then show "process_image E cfg (delay_of q) v pr p w =
          (Inr (), w1\<lparr>log := Sleep (delay_of q) # Call #
                               concat (map (\<lambda>i. [Sleep (delay_of q * real i), Call])
                                         (rev [1..<n + 1])) @ log w1,
                        nodes := AList.update (out_path cfg v rel) (File b) (nodes w1)\<rparr>)"
      using process_image_retried [of p cfg rel v w w1 img E pr "delay_of q"] a d by simp
  }
  {
    let ?req = "\<lparr>req_model = model_name cfg, req_prompt = pr, req_image = img,
               req_creativity = creativity v, req_fidelity = fidelity v,
               req_width = output_width cfg, req_height = output_height cfg\<rparr>"
    assume a: "relative_to p (input_root cfg) = Inr rel \<and>
      mkdir_p (out_dir cfg v rel) w = (Inr (), w1) \<and>
      \<not> path_exists w1 (out_path cfg v rel) \<and> read_bytes w1 p = Inr img \<and>
      edit E (ncalls (log w1)) ?req = Inl e1 \<and>
      edit E (ncalls (log w1) + 1) ?req = Inl e2 \<and>
      edit E (ncalls (log w1) + 2) ?req = Inl e3"
    then have "attempts E ?req (out_path cfg v rel) (delay_of q) [1..<MAX_RETRIES + 1] w1 =
          (Inl e3, w1\<lparr>log := Call # Sleep (delay_of q * 2) # Call # Sleep (delay_of q * 1) #
                               Call # log w1\<rparr>)"
      using attempts_all_fail [of E w1 ?req e1 e2 e3 "delay_of q" "out_path cfg v rel"] d
      by blast
    then show "process_image E cfg (delay_of q) v pr p w =
          (Inl e3, w1\<lparr>log := Call # Sleep (delay_of q * 2) # Call # Sleep (delay_of q * 1) #
                                Call # log w1\<rparr>)"
      using a by (simp add: process_image_def)
  }
qed

lemma hiccup_env_fields:
  "api_key_env hiccup_env = Some ''key''"
  "yaml_load hiccup_env b = Inr demo_doc"
  "edit hiccup_env k req = (if k < 1 then Inl (ProviderError ''quota'') else Inr (''PNG'' @ req_image req))"
  by (simp_all add: hiccup_env_def good_env_def)

lemmas retry_eval = demo_world_def demo_nodes_def demo_request_def demo_cfg_def
  demo_variant_def ncalls_def is_dir_def is_file_def path_exists_def node_at_def parent_def
  read_bytes_def relative_to_def out_dir_def out_path_def joinpath_def path_parts_def
  is_absolute_def stem_def path_name_def rfind_dot_def mkdir_p_def add_dir_def prefixes_snoc

text \<open>
  At two requests per second the base delay is 2. [''in'', ''g'', ''a.png''] provider that answers at once is
  called once; one that fails the first request is called twice, with a sleep of 2 between
  the calls; one that fails the first two requests is called three times, with sleeps of 2
  and 4; one that fails every request is called three times and the third failure is
  raised. The unit of the first image does the same and sleeps 2 after its success.
\<close>

theorem retry_executor_witness:
  "attempts flaky_env demo_request [''in'', ''g'', ''a_rain.png''] (delay_of (1 / 2))
     [1..<MAX_RETRIES + 1] demo_world =
     (Inr (), \<lparr>nodes = demo_nodes @ [([''in'', ''g'', ''a_rain.png''], File ''PNG'')],
               log = [Call, Sleep 4, Call, Sleep 2, Call]\<rparr>)
   \<and> attempts failing_env demo_request [''in'', ''g'', ''a_rain.png''] (delay_of (1 / 2))
       [1..<MAX_RETRIES + 1] demo_world =
       (Inl (ProviderError ''quota''),
        \<lparr>nodes = demo_nodes, log = [Call, Sleep 4, Call, Sleep 2, Call]\<rparr>)
   \<and> attempts hiccup_env demo_request [''in'', ''g'', ''a_rain.png''] (delay_of (1 / 2))
       [1..<MAX_RETRIES + 1] demo_world =
       (Inr (), \<lparr>nodes = demo_nodes @ [([''in'', ''g'', ''a_rain.png''], File ''PNGA'')],
                 log = [Call, Sleep 2, Call]\<rparr>)
   \<and> ncalls (log (snd (attempts hiccup_env demo_request [''in'', ''g'', ''a_rain.png''] (delay_of (1 / 2))
                          [1..<MAX_RETRIES + 1] demo_world))) = 2
   \<and> attempts good_env demo_request [''in'', ''g'', ''a_rain.png''] (delay_of (1 / 2))
       [1..<MAX_RETRIES + 1] demo_world =
       (Inr (), \<lparr>nodes = demo_nodes @ [([''in'', ''g'', ''a_rain.png''], File ''PNGA'')], log = [Call]\<rparr>)
   \<and> process_image hiccup_env demo_cfg (delay_of (1 / 2)) demo_variant ''p'' [''in'', ''g'', ''a.png''] demo_world =
       (Inr (),
        \<lparr>nodes = demo_nodes @
           [([''out''], Dir), ([''out'', ''rain''], Dir), ([''out'', ''rain'', ''g''], Dir),
            ([''out'', ''rain'', ''g'', ''a_rain.png''], File ''PNGA'')],
         log = [Sleep 2, Call, Sleep 2, Call]\<rparr>)
   \<and> process_image failing_env demo_cfg (delay_of (1 / 2)) demo_variant ''p'' [''in'', ''g'', ''a.png''] demo_world =
       (Inl (ProviderError ''quota''),
        \<lparr>nodes = demo_nodes @
           [([''out''], Dir), ([''out'', ''rain''], Dir), ([''out'', ''rain'', ''g''], Dir)],
         log = [Call, Sleep 4, Call, Sleep 2, Call]\<rparr>)"
proof -
  let ?wd = "\<lparr>nodes = demo_nodes @
        [([''out''], Dir), ([''out'', ''rain''], Dir), ([''out'', ''rain'', ''g''], Dir)],
      log = []\<rparr>"
  have d: "delay_of (1 / 2) = 2" by (simp add: delay_of_def)
  have place: "\<not> is_dir demo_world [''in'', ''g'', ''a_rain.png'']" "is_dir demo_world (parent [''in'', ''g'', ''a_rain.png''])"
    by (simp_all add: retry_eval)
  have 1: "edit flaky_env (ncalls (log demo_world)) demo_request = Inl (ProviderError ''quota'')"
    "edit flaky_env (ncalls (log demo_world) + 1) demo_request = Inl (ProviderError ''quota'')"
    "edit flaky_env (ncalls (log demo_world) + 2) demo_request = Inr ''PNG''"
    by (simp_all add: flaky_env_def good_env_def retry_eval)
  have 2: "edit failing_env (ncalls (log demo_world)) demo_request = Inl (ProviderError ''quota'')"
    "edit failing_env (ncalls (log demo_world) + 1) demo_request = Inl (ProviderError ''quota'')"
    "edit failing_env (ncalls (log demo_world) + 2) demo_request = Inl (ProviderError ''quota'')"
    by (simp_all add: failing_env_fields)
  have 3: "(1 :: nat) < MAX_RETRIES"
    "\<forall>i<1. isl (edit hiccup_env (ncalls (log demo_world) + i) demo_request)"
    "edit hiccup_env (ncalls (log demo_world) + 1) demo_request = Inr ''PNGA''"
    "edit hiccup_env (ncalls (log demo_world)) demo_request = Inl (ProviderError ''quota'')"
    by (simp_all add: hiccup_env_fields retry_eval MAX_RETRIES_def)
  have 4: "edit good_env (ncalls (log demo_world)) demo_request = Inr ''PNGA''"
    by (simp add: good_env_fields retry_eval)
  have a: "attempts flaky_env demo_request [''in'', ''g'', ''a_rain.png''] (delay_of (1 / 2))
     [1..<MAX_RETRIES + 1] demo_world =
     (Inr (), demo_world\<lparr>log := Call # Sleep (delay_of (1 / 2) * 2) # Call #
                               Sleep (delay_of (1 / 2) * 1) # Call # log demo_world,
               nodes := AList.update [''in'', ''g'', ''a_rain.png''] (File ''PNG'') (nodes demo_world)\<rparr>)"
    using retry_executor [where E = "flaky_env" and w = "demo_world" and req = "demo_request"
        and out = "[''in'', ''g'', ''a_rain.png'']" and q = "1 / 2"
        and ?e1.0 = "ProviderError ''quota''" and ?e2.0 = "ProviderError ''quota''"
        and b = "''PNG''",
        THEN conjunct1]
      1 place
    by blast
  have b: "attempts failing_env demo_request [''in'', ''g'', ''a_rain.png''] (delay_of (1 / 2))
       [1..<MAX_RETRIES + 1] demo_world =
       (Inl (ProviderError ''quota''),
        demo_world\<lparr>log := Call # Sleep (delay_of (1 / 2) * 2) # Call #
                               Sleep (delay_of (1 / 2) * 1) # Call # log demo_world\<rparr>)"
    using retry_executor [where E = "failing_env" and w = "demo_world" and req = "demo_request"
        and out = "[''in'', ''g'', ''a_rain.png'']" and q = "1 / 2"
        and ?e1.0 = "ProviderError ''quota''" and ?e2.0 = "ProviderError ''quota''"
        and ?e3.0 = "ProviderError ''quota''",
        THEN conjunct2, THEN conjunct1]
      2
    by blast
  have c: "attempts hiccup_env demo_request [''in'', ''g'', ''a_rain.png''] (delay_of (1 / 2))
       [1..<MAX_RETRIES + 1] demo_world =
       (Inr (), demo_world\<lparr>log := Call # concat (map (\<lambda>i. [Sleep (delay_of (1 / 2) * real i), Call])
                                             (rev [1..<1 + 1])) @ log demo_world,
                       nodes := AList.update [''in'', ''g'', ''a_rain.png''] (File ''PNGA'') (nodes demo_world)\<rparr>)
     \<and> ncalls (log (snd (attempts hiccup_env demo_request [''in'', ''g'', ''a_rain.png''] (delay_of (1 / 2))
                            [1..<MAX_RETRIES + 1] demo_world)))
          = ncalls (log demo_world) + 1 + 1"
    using retry_executor [where E = "hiccup_env" and w = "demo_world" and req = "demo_request"
        and out = "[''in'', ''g'', ''a_rain.png'']" and q = "1 / 2" and n = "1"
        and b = "''PNGA''",
        THEN conjunct2, THEN conjunct2, THEN conjunct2, THEN conjunct2, THEN conjunct2, THEN conjunct1]
      3 place
    by blast
  have c': "attempts hiccup_env demo_request [''in'', ''g'', ''a_rain.png''] (delay_of (1 / 2))
       [1..<MAX_RETRIES + 1] demo_world =
       (Inr (), demo_world\<lparr>log := Call # Sleep (delay_of (1 / 2) * 1) # Call # log demo_world,
                       nodes := AList.update [''in'', ''g'', ''a_rain.png''] (File ''PNGA'') (nodes demo_world)\<rparr>)"
    using retry_executor [where E = "hiccup_env" and w = "demo_world" and req = "demo_request"
        and out = "[''in'', ''g'', ''a_rain.png'']" and q = "1 / 2"
        and ?e1.0 = "ProviderError ''quota''" and b = "''PNGA''",
        THEN conjunct2, THEN conjunct2, THEN conjunct2, THEN conjunct2, THEN conjunct2, THEN conjunct2, THEN conjunct2, THEN conjunct1]
      3 place
    by blast
  have e: "attempts good_env demo_request [''in'', ''g'', ''a_rain.png''] (delay_of (1 / 2))
       [1..<MAX_RETRIES + 1] demo_world =
       (Inr (), demo_world\<lparr>log := Call # log demo_world,
                       nodes := AList.update [''in'', ''g'', ''a_rain.png''] (File ''PNGA'') (nodes demo_world)\<rparr>)"
    using retry_executor [where E = "good_env" and w = "demo_world" and req = "demo_request"
        and out = "[''in'', ''g'', ''a_rain.png'']" and q = "1 / 2" and b = "''PNGA''",
        THEN conjunct2, THEN conjunct2, THEN conjunct2, THEN conjunct2, THEN conjunct2, THEN conjunct2, THEN conjunct1]
      4 place
    by blast
  have unit: "relative_to [''in'', ''g'', ''a.png''] (input_root demo_cfg) = Inr [''g'', ''a.png'']"
    "mkdir_p (out_dir demo_cfg demo_variant [''g'', ''a.png'']) demo_world = (Inr (), ?wd)"
    "\<not> path_exists ?wd (out_path demo_cfg demo_variant [''g'', ''a.png''])"
    "is_dir ?wd (parent (out_path demo_cfg demo_variant [''g'', ''a.png'']))"
    "read_bytes ?wd [''in'', ''g'', ''a.png''] = Inr ''A''"
    by (simp_all add: retry_eval)
  have 5: "\<forall>i<1. isl (edit hiccup_env (ncalls (log ?wd) + i)
        \<lparr>req_model = model_name demo_cfg, req_prompt = ''p'', req_image = ''A'',
         req_creativity = creativity demo_variant, req_fidelity = fidelity demo_variant,
         req_width = output_width demo_cfg, req_height = output_height demo_cfg\<rparr>)"
    "edit hiccup_env (ncalls (log ?wd) + 1)
        \<lparr>req_model = model_name demo_cfg, req_prompt = ''p'', req_image = ''A'',
         req_creativity = creativity demo_variant, req_fidelity = fidelity demo_variant,
         req_width = output_width demo_cfg, req_height = output_height demo_cfg\<rparr> = Inr ''PNGA''"
    by (simp_all add: hiccup_env_fields ncalls_def)
  have 6: "edit failing_env (ncalls (log ?wd))
        \<lparr>req_model = model_name demo_cfg, req_prompt = ''p'', req_image = ''A'',
         req_creativity = creativity demo_variant, req_fidelity = fidelity demo_variant,
         req_width = output_width demo_cfg, req_height = output_height demo_cfg\<rparr> = Inl (ProviderError ''quota'')"
    "edit failing_env (ncalls (log ?wd) + 1)
        \<lparr>req_model = model_name demo_cfg, req_prompt = ''p'', req_image = ''A'',
         req_creativity = creativity demo_variant, req_fidelity = fidelity demo_variant,
         req_width = output_width demo_cfg, req_height = output_height demo_cfg\<rparr> = Inl (ProviderError ''quota'')"
    "edit failing_env (ncalls (log ?wd) + 2)
        \<lparr>req_model = model_name demo_cfg, req_prompt = ''p'', req_image = ''A'',
         req_creativity = creativity demo_variant, req_fidelity = fidelity demo_variant,
         req_width = output_width demo_cfg, req_height = output_height demo_cfg\<rparr> = Inl (ProviderError ''quota'')"
    by (simp_all add: failing_env_fields)
  have f: "process_image hiccup_env demo_cfg (delay_of (1 / 2)) demo_variant ''p'' [''in'', ''g'', ''a.png''] demo_world =
          (Inr (), ?wd\<lparr>log := Sleep (delay_of (1 / 2)) # Call #
                               concat (map (\<lambda>i. [Sleep (delay_of (1 / 2) * real i), Call])
                                         (rev [1..<1 + 1])) @ log ?wd,
                        nodes := AList.update (out_path demo_cfg demo_variant [''g'', ''a.png''])
                                   (File ''PNGA'') (nodes ?wd)\<rparr>)"
    using retry_executor [where E = "hiccup_env" and cfg = "demo_cfg" and v = "demo_variant"
        and pr = "''p''" and p = "[''in'', ''g'', ''a.png'']"
        and rel = "[''g'', ''a.png'']" and w = "demo_world" and ?w1.0 = "?wd"
        and img = "''A''" and q = "1 / 2" and n = "1" and b = "''PNGA''",
        THEN conjunct2, THEN conjunct2, THEN conjunct2, THEN conjunct2, THEN conjunct2, THEN conjunct2, THEN conjunct2, THEN conjunct2, THEN conjunct1]
      unit 3(1) 5
    by blast
  have g: "process_image failing_env demo_cfg (delay_of (1 / 2)) demo_variant ''p'' [''in'', ''g'', ''a.png''] demo_world =
          (Inl (ProviderError ''quota''), ?wd\<lparr>log := Call # Sleep (delay_of (1 / 2) * 2) # Call #
                                Sleep (delay_of (1 / 2) * 1) # Call # log ?wd\<rparr>)"
    using retry_executor [where E = "failing_env" and cfg = "demo_cfg" and v = "demo_variant"
        and pr = "''p''" and p = "[''in'', ''g'', ''a.png'']"
        and rel = "[''g'', ''a.png'']" and w = "demo_world" and ?w1.0 = "?wd"
        and img = "''A''" and q = "1 / 2" and ?e1.0 = "ProviderError ''quota''"
        and ?e2.0 = "ProviderError ''quota''" and ?e3.0 = "ProviderError ''quota''",
        THEN conjunct2, THEN conjunct2, THEN conjunct2, THEN conjunct2, THEN conjunct2, THEN conjunct2, THEN conjunct2, THEN conjunct2, THEN conjunct2]
      unit 6
    by blast
  have n: "ncalls (log (snd (attempts hiccup_env demo_request [''in'', ''g'', ''a_rain.png''] (delay_of (1 / 2))
                          [1..<MAX_RETRIES + 1] demo_world))) = 2"
    using c by (simp add: retry_eval)
  show ?thesis
    by (simp only: a b c' e f g n) (simp add: d retry_eval)
qed

text \<open>
  At \<open>rateLimitQps = 1e-7\<close> the loop sleeps 1000000 and 2000000 seconds before the retries,
  not \<open>(1 / rateLimitQps) * n\<close>, which is 10000000 for the first.
\<close>

theorem retry_delay_counterexample:
  "attempts failing_env demo_request [''in'', ''g'', ''a_rain.png''] (delay_of (1 / 10 ^ 7))
     [1..<MAX_RETRIES + 1] demo_world =
     (Inl (ProviderError ''quota''),
      \<lparr>nodes = demo_nodes, log = [Call, Sleep 2000000, Call, Sleep 1000000, Call]\<rparr>)
   \<and> (1000000 :: real) \<noteq> 1 / (1 / 10 ^ 7) * 1"
proof -
  have 2: "edit failing_env (ncalls (log demo_world)) demo_request = Inl (ProviderError ''quota'')"
    "edit failing_env (ncalls (log demo_world) + 1) demo_request = Inl (ProviderError ''quota'')"
    "edit failing_env (ncalls (log demo_world) + 2) demo_request = Inl (ProviderError ''quota'')"
    by (simp_all add: failing_env_def good_env_def)
  have d: "delay_of (1 / 10 ^ 7) = 1000000" by (simp add: delay_of_def)
  have "attempts failing_env demo_request [''in'', ''g'', ''a_rain.png''] 1000000
     [1..<MAX_RETRIES + 1] demo_world =
     (Inl (ProviderError ''quota''),
      demo_world\<lparr>log := Call # Sleep (1000000 * 2) # Call # Sleep (1000000 * 1) # Call #
                            log demo_world\<rparr>)"
    by (rule attempts_all_fail [OF 2]) simp
  then show ?thesis unfolding d by (simp add: demo_world_def)
qed

section \<open>Reads of the prompt documents\<close>

text \<open>
  C5 (as amended). In a run of the image pipeline the prompt document of a path is read
  at most once: a path in the cache is answered from the cache without a read, a path not
  in the cache is read, with both texts trimmed, and stored. The video batch has no cache:
  a round of \<^verbatim>\<open>process_scene_folder\<close> reads the prompt document of its variant once when
  the variant has frames in the scene and not at all otherwise, whether or not the video
  exists already, and a batch that returns has read the document of a path once for every
  pair of a scene and a variant with that path that has frames.
\<close>

theorem prompt_loaded_once:
  "nloads p (log (snd (process_images E cfg q w))) \<le> nloads p (log w) + 1
   \<and> (cache p = Some t \<longrightarrow> get_template E cache p w = (Inr (t, cache), w))
   \<and> (cache p = None \<and> fst (load_prompt_template E p w) = Inr t \<longrightarrow>
        get_template E cache p w = (Inr (t, cache(p \<mapsto> t)), w\<lparr>log := Load p # log w\<rparr>))
   \<and> (load_yaml E w p = Inr (YMap m) \<and> map_of m ''positive'' = Some (YStr a) \<and>
      map_of m ''negative'' = Some (YStr b) \<longrightarrow>
        fst (load_prompt_template E p w) = Inr \<lparr>positive = strip a, negative = strip b\<rparr>)
   \<and> (scene_step E bcfg scene bv w = Some (r, w') \<longrightarrow>
        nloads p (log w') =
          nloads p (log w) + (if has_frames w scene bv \<and> v_prompt_path bv = p then 1 else 0))
   \<and> (batch_main E bcfg w = Some (Inr (), w') \<and> videos_outside bcfg w \<and>
      group_folders w (b_input_root bcfg) = Inr scenes \<longrightarrow>
        nloads p (log w') =
          nloads p (log w) +
          (\<Sum>scene\<leftarrow>scenes.
             length (filter (\<lambda>bv. has_frames w scene bv \<and> v_prompt_path bv = p)
                       (b_variants bcfg))))"
proof (intro conjI impI)
  show "nloads p (log (snd (process_images E cfg q w))) \<le> nloads p (log w) + 1"
    by (rule process_images_loads)
next
  assume "cache p = Some t"
  then show "get_template E cache p w = (Inr (t, cache), w)"
    by (rule get_template_hit)
next
  assume "cache p = None \<and> fst (load_prompt_template E p w) = Inr t"
  then show "get_template E cache p w =
      (Inr (t, cache(p \<mapsto> t)), w\<lparr>log := Load p # log w\<rparr>)"
    by (simp add: get_template_miss)
next
  assume "load_yaml E w p = Inr (YMap m) \<and> map_of m ''positive'' = Some (YStr a) \<and>
      map_of m ''negative'' = Some (YStr b)"
  then show "fst (load_prompt_template E p w) = Inr \<lparr>positive = strip a, negative = strip b\<rparr>"
    by (simp add: load_prompt_template_trims)
next
  assume "scene_step E bcfg scene bv w = Some (r, w')"
  then show "nloads p (log w') =
      nloads p (log w) + (if has_frames w scene bv \<and> v_prompt_path bv = p then 1 else 0)"
    by (rule scene_step_nloads)
next
  assume "batch_main E bcfg w = Some (Inr (), w') \<and> videos_outside bcfg w \<and>
      group_folders w (b_input_root bcfg) = Inr scenes"
  then show "nloads p (log w') =
      nloads p (log w) +
      (\<Sum>scene\<leftarrow>scenes.
         length (filter (\<lambda>bv. has_frames w scene bv \<and> v_prompt_path bv = p)
                   (b_variants bcfg)))"
    using batch_main_nloads [of E bcfg w w' scenes p] by blast
qed

lemma two_scene_frames:
  "has_frames two_scene_world [''in'', ''s1''] demo_batch_variant"
  "has_frames two_scene_world [''in'', ''s2''] demo_batch_variant"
  "group_folders two_scene_world (b_input_root demo_batch_cfg) = Inr [[''in'', ''s1''], [''in'', ''s2'']]"
  "videos_outside demo_batch_cfg two_scene_world"
  by (simp_all add: has_frames_def videos_outside_def scene_eval batch_eval
      strict_prefix_def)

lemma first_round_skipped:
  "scene_step good_env demo_batch_cfg [''in'', ''s1''] demo_batch_variant two_scene_world =
     Some (Inr (), \<lparr>nodes = two_scene_nodes, log = [Load [''cfg'', ''rain.yaml''], Pick 1]\<rparr>)"
  by (simp add: scene_eval batch_eval good_env_fields good_env_video_fields Let_def)

text \<open>
  The first get of the example document reads it and stores the trimmed texts, the second
  get is answered from the cache. In the batch over two scenes whose videos exist, the
  round of the first scene reads the document once, and the batch has read it twice.
\<close>

theorem prompt_loaded_once_witness:
  "get_template good_env Map.empty [''cfg'', ''rain.yaml''] demo_world =
     (Inr (\<lparr>positive = ''rainy street'', negative = ''blur''\<rparr>,
           [[''cfg'', ''rain.yaml''] \<mapsto> \<lparr>positive = ''rainy street'', negative = ''blur''\<rparr>]),
      demo_world\<lparr>log := [Load [''cfg'', ''rain.yaml'']]\<rparr>)
   \<and> get_template good_env
       [[''cfg'', ''rain.yaml''] \<mapsto> \<lparr>positive = ''rainy street'', negative = ''blur''\<rparr>]
       [''cfg'', ''rain.yaml''] (demo_world\<lparr>log := [Load [''cfg'', ''rain.yaml'']]\<rparr>) =
     (Inr (\<lparr>positive = ''rainy street'', negative = ''blur''\<rparr>,
           [[''cfg'', ''rain.yaml''] \<mapsto> \<lparr>positive = ''rainy street'', negative = ''blur''\<rparr>]),
      demo_world\<lparr>log := [Load [''cfg'', ''rain.yaml'']]\<rparr>)
   \<and> nloads [''cfg'', ''rain.yaml''] (log \<lparr>nodes = two_scene_nodes, log = [Load [''cfg'', ''rain.yaml''], Pick 1]\<rparr>) = 1
   \<and> nloads [''cfg'', ''rain.yaml'']
       (log \<lparr>nodes = two_scene_nodes, log = [Load [''cfg'', ''rain.yaml''], Pick 1, Load [''cfg'', ''rain.yaml''], Pick 1]\<rparr>) = 2"
proof -
  let ?p = "[''cfg'', ''rain.yaml'']"
  let ?t = "\<lparr>positive = ''rainy street'', negative = ''blur''\<rparr>"
  let ?m = "[(''positive'', YStr '' rainy street ''), (''negative'', YStr ''blur'')]"
  let ?w1 = "demo_world\<lparr>log := [Load ?p]\<rparr>"
  let ?v1 = "\<lparr>nodes = two_scene_nodes, log = [Load [''cfg'', ''rain.yaml''], Pick 1]\<rparr>"
  let ?v2 = "\<lparr>nodes = two_scene_nodes, log = [Load [''cfg'', ''rain.yaml''], Pick 1, Load [''cfg'', ''rain.yaml''], Pick 1]\<rparr>"
  have y: "load_yaml good_env demo_world ?p = Inr (YMap ?m) \<and>
      map_of ?m ''positive'' = Some (YStr '' rainy street '') \<and>
      map_of ?m ''negative'' = Some (YStr ''blur'')"
    by (simp add: load_yaml_def read_bytes_def node_at_def demo_world_def demo_nodes_def
        good_env_fields demo_doc_def)
  have s: "strip '' rainy street '' = ''rainy street''" "strip ''blur'' = ''blur''"
    by (simp_all add: strip_def is_space_def)
  from prompt_loaded_once [where E = good_env and w = demo_world and p = ?p and m = ?m
      and a = "'' rainy street ''" and b = "''blur''", THEN conjunct2, THEN conjunct2,
      THEN conjunct2, THEN conjunct1] y
  have "fst (load_prompt_template good_env ?p demo_world)
          = Inr \<lparr>positive = strip '' rainy street '', negative = strip ''blur''\<rparr>"
    by (rule mp)
  then have l: "Map.empty ?p = None \<and> fst (load_prompt_template good_env ?p demo_world) = Inr ?t"
    by (simp only: s)
  from prompt_loaded_once [where E = good_env and w = demo_world and p = ?p
      and cache = Map.empty and t = ?t, THEN conjunct2, THEN conjunct2, THEN conjunct1] l
  have 1: "get_template good_env Map.empty ?p demo_world =
             (Inr (?t, [?p \<mapsto> ?t]), demo_world\<lparr>log := Load ?p # log demo_world\<rparr>)"
    by (rule mp)
  have c: "[?p \<mapsto> ?t] ?p = Some ?t" by simp
  from prompt_loaded_once [where E = good_env and w = ?w1 and p = ?p
      and cache = "[?p \<mapsto> ?t]" and t = ?t, THEN conjunct2, THEN conjunct1] c
  have 2: "get_template good_env [?p \<mapsto> ?t] ?p ?w1 = (Inr (?t, [?p \<mapsto> ?t]), ?w1)"
    by (rule mp)
  from prompt_loaded_once [where E = good_env and bcfg = demo_batch_cfg
      and scene = "[''in'', ''s1'']" and bv = demo_batch_variant and w = two_scene_world
      and r = "Inr ()" and w' = ?v1 and p = ?p, THEN conjunct2, THEN conjunct2,
      THEN conjunct2, THEN conjunct2, THEN conjunct1] first_round_skipped
  have "nloads ?p (log ?v1) =
          nloads ?p (log two_scene_world) +
          (if has_frames two_scene_world [''in'', ''s1''] demo_batch_variant \<and>
              v_prompt_path demo_batch_variant = ?p then 1 else 0)"
    by (rule mp)
  then have 3: "nloads ?p (log ?v1) = 1"
    by (simp only: two_scene_frames) (simp add: two_scene_world_def demo_batch_variant_def)
  have run: "batch_main good_env demo_batch_cfg two_scene_world = Some (Inr (), ?v2) \<and>
      videos_outside demo_batch_cfg two_scene_world \<and>
      group_folders two_scene_world (b_input_root demo_batch_cfg) = Inr [[''in'', ''s1''], [''in'', ''s2'']]"
    using two_scene_run two_scene_frames by simp
  from prompt_loaded_once [where E = good_env and bcfg = demo_batch_cfg
      and w = two_scene_world and w' = ?v2 and scenes = "[[''in'', ''s1''], [''in'', ''s2'']]" and p = ?p,
      THEN conjunct2, THEN conjunct2, THEN conjunct2, THEN conjunct2, THEN conjunct2] run
  have "nloads ?p (log ?v2) =
          nloads ?p (log two_scene_world) +
          (\<Sum>scene\<leftarrow>[[''in'', ''s1''], [''in'', ''s2'']].
             length (filter (\<lambda>bv. has_frames two_scene_world scene bv \<and> v_prompt_path bv = ?p)
                       (b_variants demo_batch_cfg)))"
    by (rule mp)
  then have 4: "nloads ?p (log ?v2) = 2"
    by (simp only: two_scene_frames)
      (simp add: two_scene_frames two_scene_world_def demo_batch_cfg_def
         demo_batch_variant_def)
  have e: "log demo_world = []" by (simp add: demo_world_def)
  show ?thesis
    by (intro conjI) (simp only: 1 e, rule 2, rule 3, rule 4)
qed

text \<open>
  Two scenes with the same variant, both videos present: the batch reads the one prompt
  document twice in one run.
\<close>

theorem batch_prompt_counterexample:
  "batch_main good_env demo_batch_cfg two_scene_world =
     Some (Inr (),
           \<lparr>nodes = two_scene_nodes,
            log = [Load [''cfg'', ''rain.yaml''], Pick 1,
                   Load [''cfg'', ''rain.yaml''], Pick 1]\<rparr>)
   \<and> nloads [''cfg'', ''rain.yaml'']
        [Load [''cfg'', ''rain.yaml''], Pick 1, Load [''cfg'', ''rain.yaml''], Pick 1] = 2"
  using two_scene_run by simp

end
